(* ===== verification/Py_Float.thy ===== *)
theory Py_Float
  imports Complex_Main "HOL-Library.Log_Nat"
begin

text \<open>
  Python's \<^verbatim>\<open>float\<close>. A finite double is a rational number; every arithmetic operation computes
  the exact rational result and rounds it to the nearest number with a 53-bit significand, ties
  to the even one. The exponent range is not bounded (no overflow, no subnormal numbers): the
  quantities of this program stay far inside it.
\<close>

section \<open>Rounding\<close>

type_synonym double = rat

definition exp2_of :: "rat \<Rightarrow> int" where
  "exp2_of x =
     (let (p, q) = quotient_of \<bar>x\<bar>;
          k = int (floorlog 2 (nat p)) - int (floorlog 2 (nat q))
      in if 2 powi k \<le> \<bar>x\<bar> then k else k - 1)"

definition round_even :: "rat \<Rightarrow> int" where
  "round_even x =
     (let f = \<lfloor>x\<rfloor>; r = x - of_int f
      in if r < 1 / 2 then f
         else if 1 / 2 < r then f + 1
         else if even f then f else f + 1)"

definition fl :: "rat \<Rightarrow> double" where
  "fl x =
     (if x = 0 then 0
      else let s = 2 powi (52 - exp2_of x) in of_int (round_even (x * s)) / s)"


lemma floorlog2_bounds:
  assumes "0 < (p::int)"
  shows "2 powi (int (floorlog 2 (nat p)) - 1) \<le> (of_int p :: rat)"
    and "(of_int p :: rat) < 2 powi int (floorlog 2 (nat p))"
proof -
  define a where "a = floorlog 2 (nat p)"
  have b: "2 ^ (a - 1) \<le> nat p" "nat p < 2 ^ a"
    using floorlog_bounds[of "nat p" 2] assms by (auto simp: a_def)
  have a: "a \<noteq> 0" using b assms by (cases "a = 0") auto
  have "(2::int) ^ (a - 1) \<le> p" using b(1) assms by simp
  then have l: "(2::rat) ^ (a - 1) \<le> of_int p"
    by (metis of_int_le_iff of_int_numeral of_int_power)
  have "p < (2::int) ^ a" using b(2) assms by simp
  then have u: "of_int p < (2::rat) ^ a"
    by (metis of_int_less_iff of_int_numeral of_int_power)
  have "(2::rat) powi (int a - 1) = 2 ^ (a - 1)"
    using a by (metis One_nat_def Suc_leI neq0_conv of_nat_1 of_nat_diff power_int_of_nat)
  with l show "2 powi (int (floorlog 2 (nat p)) - 1) \<le> (of_int p :: rat)"
    by (simp add: a_def)
  show "(of_int p :: rat) < 2 powi int (floorlog 2 (nat p))"
    using u by (simp add: a_def)
qed

lemma exp2_of_bounds:
  assumes "x \<noteq> 0"
  shows "2 powi exp2_of x \<le> \<bar>x\<bar>" and "\<bar>x\<bar> < 2 powi (exp2_of x + 1)"
proof -
  obtain p q where pq: "quotient_of \<bar>x\<bar> = (p, q)" by (cases "quotient_of \<bar>x\<bar>")
  have q: "0 < q" using pq by (rule quotient_of_denom_pos)
  have xpq: "\<bar>x\<bar> = of_int p / of_int q" using pq by (rule quotient_of_div)
  have "0 < of_int p / (of_int q :: rat)" using assms xpq by (metis zero_less_abs_iff)
  then have p: "0 < p" using q by (simp add: zero_less_divide_iff)
  define a where "a = int (floorlog 2 (nat p))"
  define b where "b = int (floorlog 2 (nat q))"
  note A = floorlog2_bounds[OF p, folded a_def] and B = floorlog2_bounds[OF q, folded b_def]
  have qr: "(0::rat) < of_int q" using q by simp
  have "of_int p < of_int q * (2 powi (a - b + 1) :: rat)"
  proof -
    have "of_int p < (2::rat) powi (b - 1) * 2 powi (a - b + 1)"
      using A(2) by (simp flip: power_int_add)
    also have "\<dots> \<le> of_int q * 2 powi (a - b + 1)" using B(1) by (simp add: mult_right_mono)
    finally show ?thesis .
  qed
  then have hi: "\<bar>x\<bar> < 2 powi (a - b + 1)" using qr by (simp add: xpq field_simps)
  have "of_int q * (2 powi (a - b - 1) :: rat) \<le> of_int p"
  proof -
    have "of_int q * (2 powi (a - b - 1) :: rat) \<le> 2 powi b * 2 powi (a - b - 1)"
      using B(2) by (simp add: mult_right_mono less_imp_le)
    also have "\<dots> = (2::rat) powi (a - 1)" by (simp flip: power_int_add)
    also have "\<dots> \<le> of_int p" by (rule A(1))
    finally show ?thesis .
  qed
  then have lo: "2 powi (a - b - 1) \<le> \<bar>x\<bar>" using qr by (simp add: xpq field_simps)
  have e: "exp2_of x = (if 2 powi (a - b) \<le> \<bar>x\<bar> then a - b else a - b - 1)"
    by (simp add: exp2_of_def pq a_def b_def)
  show "2 powi exp2_of x \<le> \<bar>x\<bar>" using e lo by simp
  show "\<bar>x\<bar> < 2 powi (exp2_of x + 1)" using e hi by auto
qed

lemma powi2_less_cancel: "(2::rat) powi a < 2 powi b \<Longrightarrow> a < b"
  by (meson linorder_not_less one_le_numeral power_int_increasing)

lemma exp2_of_unique:
  assumes "2 powi e \<le> \<bar>x\<bar>" and "\<bar>x\<bar> < 2 powi (e + 1)"
  shows "exp2_of x = e"
proof -
  have x: "x \<noteq> 0" using assms(1) by (metis abs_0 not_less zero_less_numeral zero_less_power_int)
  note b = exp2_of_bounds[OF x]
  have "(2::rat) powi e < 2 powi (exp2_of x + 1)" "(2::rat) powi exp2_of x < 2 powi (e + 1)"
    using assms b by auto
  then have "e < exp2_of x + 1" "exp2_of x < e + 1" by (blast dest: powi2_less_cancel)+
  then show ?thesis by simp
qed

lemma exp2_of_uminus [simp]: "exp2_of (- x) = exp2_of x"
  by (simp add: exp2_of_def)

subsection \<open>Round half to even\<close>

lemma round_even_of_int [simp]: "round_even (of_int n) = n"
  by (simp add: round_even_def)

lemma round_even_floor: "\<lfloor>x\<rfloor> \<le> round_even x" "round_even x \<le> \<lfloor>x\<rfloor> + 1"
  by (simp_all add: round_even_def Let_def)

lemma round_even_mono:
  assumes "x \<le> y"
  shows "round_even x \<le> round_even y"
proof (cases "\<lfloor>x\<rfloor> = \<lfloor>y\<rfloor>")
  case True
  then show ?thesis using assms by (auto simp: round_even_def Let_def)
next
  case False
  then have "\<lfloor>x\<rfloor> + 1 \<le> \<lfloor>y\<rfloor>" using floor_mono[OF assms] by simp
  then show ?thesis using round_even_floor(2)[of x] round_even_floor(1)[of y] by simp
qed

lemma round_even_uminus: "round_even (- x) = - round_even x"
proof (cases "x \<in> \<int>")
  case True
  then obtain n where "x = of_int n" by (auto elim: Ints_cases)
  then show ?thesis by (metis of_int_minus round_even_of_int)
next
  case False
  define f where "f = \<lfloor>x\<rfloor>"
  have b: "of_int f < x" "x < of_int f + 1"
    using False floor_correct[of x] by (auto simp: f_def less_le)
  have "\<lfloor>- x\<rfloor> = - f - 1" using b by (intro floor_unique) auto
  moreover have "\<lfloor>x\<rfloor> = f" by (simp add: f_def)
  ultimately show ?thesis using b by (auto simp: round_even_def Let_def)
qed

subsection \<open>Rounding to a double\<close>

lemma fl_0 [simp]: "fl 0 = 0"
  by (simp add: fl_def)

lemma fl_uminus [simp]: "fl (- x) = - fl x"
  by (simp add: fl_def Let_def round_even_uminus)

lemma fl_binade:
  assumes "0 < x"
  shows "2 powi exp2_of x \<le> fl x" and "fl x \<le> 2 powi (exp2_of x + 1)"
proof -
  define e where "e = exp2_of x"
  define s :: rat where "s = 2 powi (52 - e)"
  have s: "0 < s" by (simp add: s_def)
  have fl: "fl x = of_int (round_even (x * s)) / s"
    using assms by (simp add: fl_def Let_def s_def e_def)
  note b = exp2_of_bounds[of x, folded e_def]
  have lo: "of_int (2 ^ 52) \<le> x * s"
  proof -
    have "(of_int (2 ^ 52) :: rat) = 2 powi e * s" by (simp add: s_def flip: power_int_add)
    also have "\<dots> \<le> x * s" using b assms s by (simp add: mult_right_mono)
    finally show ?thesis .
  qed
  have hi: "x * s \<le> of_int (2 ^ 53)"
  proof -
    have "x * s \<le> 2 powi (e + 1) * s" using b assms s by (simp add: mult_right_mono less_imp_le)
    also have "\<dots> = of_int (2 ^ 53)" by (simp add: s_def flip: power_int_add)
    finally show ?thesis .
  qed
  have "2 ^ 52 \<le> round_even (x * s)" "round_even (x * s) \<le> 2 ^ 53"
    using round_even_mono[OF lo] round_even_mono[OF hi] by (simp_all only: round_even_of_int)
  then have "(of_int (2 ^ 52) :: rat) \<le> of_int (round_even (x * s))"
    "of_int (round_even (x * s)) \<le> (of_int (2 ^ 53) :: rat)"
    by (simp_all only: of_int_le_iff)
  moreover have "(2::rat) powi e * s = of_int (2 ^ 52)" "(2::rat) powi (e + 1) * s = of_int (2 ^ 53)"
    by (simp_all add: s_def flip: power_int_add)
  ultimately show "2 powi exp2_of x \<le> fl x" "fl x \<le> 2 powi (exp2_of x + 1)"
    using s by (simp_all add: fl e_def [symmetric] pos_le_divide_eq pos_divide_le_eq)
qed

lemma fl_mono_pos:
  assumes "0 < x" and "x \<le> y"
  shows "fl x \<le> fl y"
proof (cases "exp2_of x = exp2_of y")
  case True
  have "round_even (x * 2 powi (52 - exp2_of x)) \<le> round_even (y * 2 powi (52 - exp2_of x))"
    using assms by (intro round_even_mono mult_right_mono) auto
  then show ?thesis using assms True by (simp add: fl_def Let_def divide_right_mono)
next
  case False
  have "(2::rat) powi exp2_of x < 2 powi (exp2_of y + 1)"
    using exp2_of_bounds[of x] exp2_of_bounds[of y] assms by simp
  then have "exp2_of x + 1 \<le> exp2_of y" using powi2_less_cancel False by force
  then have "(2::rat) powi (exp2_of x + 1) \<le> 2 powi exp2_of y"
    by (intro power_int_increasing) auto
  then show ?thesis using fl_binade(2)[of x] fl_binade(1)[of y] assms by simp
qed

lemma fl_nonneg: "0 \<le> x \<Longrightarrow> 0 \<le> fl x"
proof (cases "x = 0")
  case False
  assume "0 \<le> x"
  with False have "2 powi exp2_of x \<le> fl x" by (intro fl_binade) simp
  then show ?thesis by (rule order_trans [rotated]) simp
qed simp

lemma fl_mono: "x \<le> y \<Longrightarrow> fl x \<le> fl y"
proof -
  assume xy: "x \<le> y"
  consider "0 < x" | "x \<le> 0" "0 \<le> y" | "y < 0" by linarith
  then show "fl x \<le> fl y"
  proof cases
    case 1
    then show ?thesis using xy by (rule fl_mono_pos)
  next
    case 2
    then show ?thesis using fl_nonneg[of y] fl_nonneg[of "- x"] by simp
  next
    case 3
    then have "fl (- y) \<le> fl (- x)" using xy by (intro fl_mono_pos) auto
    then show ?thesis by simp
  qed
qed

lemma fl_exact_pos:
  assumes "0 < m" and "m \<le> 2 ^ 53"
  shows "fl (of_int m * 2 powi k) = of_int m * 2 powi k"
proof -
  define x :: rat where "x = of_int m * 2 powi k"
  define e where "e = exp2_of x"
  define s :: rat where "s = 2 powi (52 - e)"
  have x: "0 < x" using assms by (simp add: x_def)
  have xs: "x * s = of_int m * 2 powi (k + 52 - e)"
    by (simp add: x_def s_def mult.assoc flip: power_int_add) (simp add: algebra_simps)
  have "x * s \<in> \<int>"
  proof (cases "0 \<le> k + 52 - e")
    case True
    then have "(2::rat) powi (k + 52 - e) = of_int (2 ^ nat (k + 52 - e))"
      by (simp add: power_int_def)
    then show ?thesis by (simp add: xs flip: of_int_mult)
  next
    case False
    have "2 powi e \<le> x" using exp2_of_bounds(1)[of x] x by (simp add: e_def)
    also have "x \<le> of_int (2 ^ 53) * 2 powi k"
      unfolding x_def using assms(2) by (intro mult_right_mono) (simp_all only: of_int_le_iff, simp)
    also have "\<dots> = 2 powi (53 + k)" by (simp add: power_int_add)
    finally have "e \<le> 53 + k" using powi2_less_cancel by (metis linorder_not_le power_int_strict_increasing one_less_numeral_iff semiring_norm(76))
    with False have "e = 53 + k" by simp
    with \<open>2 powi e \<le> x\<close> \<open>x \<le> of_int (2 ^ 53) * 2 powi k\<close> \<open>of_int (2 ^ 53) * 2 powi k = 2 powi (53 + k)\<close>
    have "x = 2 powi (53 + k)" by simp
    then have "x * s = of_int (2 ^ 52)" using \<open>e = 53 + k\<close> by (simp add: s_def flip: power_int_add)
    then show ?thesis by (metis Ints_of_int)
  qed
  then obtain n where n: "x * s = of_int n" by (auto elim: Ints_cases)
  have "fl x = of_int (round_even (x * s)) / s" using x by (simp add: fl_def Let_def s_def e_def)
  also have "\<dots> = x" by (simp add: n) (simp flip: n add: s_def)
  finally show ?thesis by (simp add: x_def)
qed

lemma fl_exact:
  assumes "\<bar>m\<bar> \<le> 2 ^ 53"
  shows "fl (of_int m * 2 powi k) = of_int m * 2 powi k"
proof -
  consider "0 < m" | "m = 0" | "0 < - m" by linarith
  then show ?thesis
  proof cases
    case 3
    then show ?thesis using fl_exact_pos[of "- m" k] assms by simp
  qed (use assms fl_exact_pos[of m k] in auto)
qed

lemma fl_idem_pos:
  assumes "0 < x"
  shows "fl (fl x) = fl x"
proof -
  define e where "e = exp2_of x"
  define n where "n = round_even (x * 2 powi (52 - e))"
  have s: "(0 :: rat) < 2 powi (52 - e)" by simp
  have f: "fl x = of_int n / 2 powi (52 - e)"
    using assms by (simp add: fl_def Let_def n_def e_def)
  have f': "fl x = of_int n * 2 powi (e - 52)"
    unfolding f by (simp add: divide_inverse flip: power_int_minus)
  have "0 < fl x" using fl_binade(1)[OF assms] by (rule less_le_trans[rotated]) simp
  then have "0 < (of_int n :: rat)" unfolding f using s by (simp add: zero_less_divide_iff)
  then have pos: "0 < n" by simp
  have "of_int n \<le> 2 powi (e + 1) * (2 :: rat) powi (52 - e)"
    using fl_binade(2)[OF assms] s unfolding f e_def [symmetric] by (simp add: pos_divide_le_eq)
  also have "\<dots> = of_int (2 ^ 53)" by (simp flip: power_int_add)
  finally have "n \<le> 2 ^ 53" by (simp only: of_int_le_iff)
  then show ?thesis unfolding f' by (rule fl_exact_pos[OF pos])
qed

lemma fl_idem: "fl (fl x) = fl x"
proof -
  consider "0 < x" | "x = 0" | "0 < - x" by linarith
  then show ?thesis
    by cases (use fl_idem_pos[of x] fl_idem_pos[of "- x"] in simp_all)
qed

lemma fl_of_int: "\<bar>m\<bar> \<le> 2 ^ 53 \<Longrightarrow> fl (of_int m) = of_int m"
  using fl_exact[of m 0] by simp

section \<open>Operations\<close>

text \<open>
  \<^verbatim>\<open>a + b\<close>, \<^verbatim>\<open>a - b\<close>, \<^verbatim>\<open>a * b\<close> and \<^verbatim>\<open>a / b\<close> with a \<^verbatim>\<open>float\<close> result. An \<^verbatim>\<open>int / int\<close> is the correctly
  rounded exact quotient, so \<open>fdiv\<close> serves both; an \<^verbatim>\<open>int\<close> operand of a mixed operation is
  first converted with \<open>float_of\<close>. Callers guard the zero divisor, which raises in Python.
  Comparisons, also between \<^verbatim>\<open>int\<close> and \<^verbatim>\<open>float\<close>, are exact. \<open>py_int\<close> is \<^verbatim>\<open>int(x)\<close>: it truncates.
\<close>

definition float_of :: "int \<Rightarrow> double" where
  "float_of n = fl (of_int n)"

definition fadd :: "double \<Rightarrow> double \<Rightarrow> double" where
  "fadd x y = fl (x + y)"

definition fsub :: "double \<Rightarrow> double \<Rightarrow> double" where
  "fsub x y = fl (x - y)"

definition fmul :: "double \<Rightarrow> double \<Rightarrow> double" where
  "fmul x y = fl (x * y)"

definition fdiv :: "rat \<Rightarrow> rat \<Rightarrow> double" where
  "fdiv x y = fl (x / y)"

definition py_int :: "double \<Rightarrow> int" where
  "py_int x = (if 0 \<le> x then \<lfloor>x\<rfloor> else \<lceil>x\<rceil>)"

lemma py_int_of_int [simp]: "py_int (of_int n) = n"
  by (simp add: py_int_def)

lemma py_int_mono:
  assumes "x \<le> y"
  shows "py_int x \<le> py_int y"
proof -
  consider "0 \<le> x" | "x < 0" "0 \<le> y" | "y < 0" by linarith
  then show ?thesis
  proof cases
    case 1
    then show ?thesis using assms by (simp add: py_int_def floor_mono)
  next
    case 2
    then have "\<lceil>x\<rceil> \<le> 0" "0 \<le> \<lfloor>y\<rfloor>" by auto
    then have "\<lceil>x\<rceil> \<le> \<lfloor>y\<rfloor>" by linarith
    then show ?thesis using 2 unfolding py_int_def by auto
  next
    case 3
    then show ?thesis using assms by (simp add: py_int_def ceiling_mono)
  qed
qed

lemma fl_1 [simp]: "fl 1 = 1"
  using fl_of_int[of 1] by simp

lemma fl_numeral: "(numeral k :: int) \<le> 2 ^ 53 \<Longrightarrow> fl (numeral k) = numeral k"
  using fl_of_int[of "numeral k"] by simp

lemma fdiv_nonneg: "0 \<le> x \<Longrightarrow> 0 \<le> y \<Longrightarrow> 0 \<le> fdiv x y"
  by (simp add: fdiv_def fl_nonneg)

lemma fdiv_le_1: "0 \<le> x \<Longrightarrow> x \<le> y \<Longrightarrow> fdiv x y \<le> 1"
  unfolding fdiv_def
  by (metis divide_le_eq_1 fl_1 fl_mono order_le_less order_trans zero_less_one_class.zero_le_one
      division_ring_divide_zero)

lemma fdiv_ge_1: "0 < y \<Longrightarrow> y \<le> x \<Longrightarrow> 1 \<le> fdiv x y"
  unfolding fdiv_def by (metis fl_1 fl_mono le_divide_eq_1_pos)

lemma fdiv_gt_1_imp: "0 \<le> x \<Longrightarrow> 0 < y \<Longrightarrow> 1 < fdiv x y \<Longrightarrow> y < x"
  using fdiv_le_1 by (metis linorder_not_le)

lemma fadd_mono: "x \<le> x' \<Longrightarrow> y \<le> y' \<Longrightarrow> fadd x y \<le> fadd x' y'"
  by (simp add: fadd_def fl_mono add_mono)

lemma fsub_mono: "x \<le> x' \<Longrightarrow> y' \<le> y \<Longrightarrow> fsub x y \<le> fsub x' y'"
  by (simp add: fsub_def fl_mono diff_mono)

lemma fmul_mono: "0 \<le> c \<Longrightarrow> x \<le> y \<Longrightarrow> fmul c x \<le> fmul c y"
  by (simp add: fmul_def fl_mono mult_left_mono)

lemma fdiv_mono: "0 < c \<Longrightarrow> x \<le> y \<Longrightarrow> fdiv x c \<le> fdiv y c"
  by (simp add: fdiv_def fl_mono divide_right_mono)

lemma py_int_nonneg: "0 \<le> x \<Longrightarrow> 0 \<le> py_int x"
  by (simp add: py_int_def)

text \<open>
  The built-in \<^verbatim>\<open>sum\<close> over floats adds from left to right, starting from 0. (So in the interpreter
  the image of docker/Dockerfile has, 3.11; later ones compensate the rounding errors.)
\<close>

definition fsum :: "double list \<Rightarrow> double" where
  "fsum xs = foldl fadd 0 xs"

text \<open>\<^verbatim>\<open>x ** 2\<close> on a float.\<close>

definition fsquare :: "double \<Rightarrow> double" where
  "fsquare x = fmul x x"

end
