(* ===== verification/Prelude.thy ===== *)
theory Prelude
  imports Py_Float "HOL-Library.AList" "HOL-Library.Word"
begin

text \<open>
  What the component theories share: the exceptions of the source as values, Python's
  dictionaries (insertion-ordered association lists), slices and byte strings, with the generic
  facts about them, a generic notion of reachable state with the locale through which every
  state machine of the development gets its invariant, and the locale of refinements over histories of calls.
\<close>

named_theorems dict_simps \<open>looking up, updating and summing over dictionaries\<close>

section \<open>Exceptions and results\<close>

text \<open>
  A method that may raise returns a sum, with the exception on the left. The state is returned
  beside the result and not inside it: what a method wrote before it raised stays written.
\<close>

datatype py_error =
    ValueError string
  | KeyError string
  | IOError string
  | IndexError
  | OverflowError
  | ZeroDivisionError
  | CodecError

type_synonym 'a result = "py_error + 'a"

type_synonym ('s, 'a) outcome = "'a result \<times> 's"

section \<open>Dictionaries\<close>

text \<open>
  A \<^verbatim>\<open>dict\<close> keeps its items in the order of their first insertion: \<^verbatim>\<open>d[k] = v\<close> overwrites in place or
  appends (\<open>dict_set\<close>), \<^verbatim>\<open>del d[k]\<close> removes the item (\<open>dict_del\<close>), \<^verbatim>\<open>d.get(k)\<close> is \<open>dict_get\<close>.
\<close>

type_synonym ('k, 'v) dict = "('k \<times> 'v) list"

abbreviation dict_get :: "('k, 'v) dict \<Rightarrow> 'k \<Rightarrow> 'v option" where
  "dict_get \<equiv> map_of"

abbreviation dict_set :: "'k \<Rightarrow> 'v \<Rightarrow> ('k, 'v) dict \<Rightarrow> ('k, 'v) dict" where
  "dict_set \<equiv> AList.update"

abbreviation dict_del :: "'k \<Rightarrow> ('k, 'v) dict \<Rightarrow> ('k, 'v) dict" where
  "dict_del \<equiv> AList.delete"

abbreviation dict_keys :: "('k, 'v) dict \<Rightarrow> 'k list" where
  "dict_keys \<equiv> map fst"

abbreviation dict_values :: "('k, 'v) dict \<Rightarrow> 'v list" where
  "dict_values \<equiv> map snd"

definition wf_dict :: "('k, 'v) dict \<Rightarrow> bool" where
  "wf_dict d \<longleftrightarrow> distinct (dict_keys d)"

definition has_key :: "('k, 'v) dict \<Rightarrow> 'k \<Rightarrow> bool" where
  "has_key d k \<longleftrightarrow> dict_get d k \<noteq> None"

definition sum_vals :: "('v \<Rightarrow> int) \<Rightarrow> ('k, 'v) dict \<Rightarrow> int" where
  "sum_vals f d = sum_list (map f (dict_values d))"

abbreviation count_vals :: "('v \<Rightarrow> bool) \<Rightarrow> ('k, 'v) dict \<Rightarrow> int" where
  "count_vals P \<equiv> sum_vals (\<lambda>v. of_bool (P v))"

lemma dict_get_set [simp, dict_simps]:
  "dict_get (dict_set k v d) k' = (if k' = k then Some v else dict_get d k')"
  by (simp add: update_conv')

lemma dict_get_del [simp, dict_simps]:
  "dict_get (dict_del k d) k' = (if k' = k then None else dict_get d k')"
  by (simp add: delete_conv')

lemma wf_dict_Nil [simp]: "wf_dict []"
  by (simp add: wf_dict_def)

lemma wf_dict_set [simp]: "wf_dict d \<Longrightarrow> wf_dict (dict_set k v d)"
  by (simp add: wf_dict_def distinct_update)

lemma wf_dict_del [simp]: "wf_dict d \<Longrightarrow> wf_dict (dict_del k d)"
  by (simp add: wf_dict_def distinct_delete)

lemma dict_keys_set: "dict_get d k = Some v \<Longrightarrow> dict_keys (dict_set k v' d) = dict_keys d"
  by (induction d) (auto split: if_splits)

lemma wf_dict_map_of: "wf_dict d \<Longrightarrow> (k, v) \<in> set d \<longleftrightarrow> dict_get d k = Some v"
  by (simp add: wf_dict_def)

lemma dict_values_get: "wf_dict d \<Longrightarrow> v \<in> set (dict_values d) \<longleftrightarrow> (\<exists>k. dict_get d k = Some v)"
  by (force simp: wf_dict_map_of [symmetric])

lemma sum_vals_Nil [simp]: "sum_vals f [] = 0"
  by (simp add: sum_vals_def)

lemma sum_vals_Cons [simp]: "sum_vals f (p # d) = f (snd p) + sum_vals f d"
  by (simp add: sum_vals_def)

lemma sum_vals_set [dict_simps]:
  "sum_vals f (dict_set k v d)
   = sum_vals f d + f v - (case dict_get d k of None \<Rightarrow> 0 | Some w \<Rightarrow> f w)"
  by (induction d) auto

lemma dict_del_notin: "dict_get d k = None \<Longrightarrow> dict_del k d = d"
  by (induction d) (auto split: if_splits)

lemma sum_vals_del [dict_simps]:
  "wf_dict d \<Longrightarrow>
   sum_vals f (dict_del k d) = sum_vals f d - (case dict_get d k of None \<Rightarrow> 0 | Some w \<Rightarrow> f w)"
proof (induction d)
  case (Cons p d)
  then have "fst p = k \<Longrightarrow> dict_get d k = None" by (auto simp: wf_dict_def map_of_eq_None_iff)
  with Cons show ?case by (cases p) (auto simp: wf_dict_def dict_del_notin)
qed simp

lemma sum_vals_nonneg: "(\<And>v. v \<in> set (dict_values d) \<Longrightarrow> 0 \<le> f v) \<Longrightarrow> 0 \<le> sum_vals f d"
  by (induction d) auto

lemma sum_vals_nonneg_get:
  "wf_dict d \<Longrightarrow> (\<And>k v. dict_get d k = Some v \<Longrightarrow> 0 \<le> f v) \<Longrightarrow> 0 \<le> sum_vals f d"
  by (rule sum_vals_nonneg) (force simp: dict_values_get simp del: set_map)

lemma sum_vals_mono:
  "(\<And>v. v \<in> set (dict_values d) \<Longrightarrow> f v \<le> g v) \<Longrightarrow> sum_vals f d \<le> sum_vals g d"
  by (induction d) (auto intro: add_mono)

lemma sum_vals_member:
  assumes "dict_get d k = Some v" and "\<And>w. w \<in> set (dict_values d) \<Longrightarrow> 0 \<le> f w"
  shows "f v \<le> sum_vals f d"
  using assms
proof (induction d)
  case (Cons p d)
  have nn: "0 \<le> sum_vals f d" using Cons.prems(2) by (intro sum_vals_nonneg) auto
  show ?case
  proof (cases "fst p = k")
    case True
    then show ?thesis using Cons.prems nn by (cases p) auto
  next
    case False
    then have "f v \<le> sum_vals f d" using Cons by (cases p) auto
    moreover have "0 \<le> f (snd p)" using Cons.prems(2) by auto
    ultimately show ?thesis by simp
  qed
qed simp

section \<open>Slices\<close>

text \<open>\<^verbatim>\<open>xs[i:j]\<close>: an index below zero counts from the end, and both are clamped to the length.\<close>

definition py_index :: "nat \<Rightarrow> int \<Rightarrow> nat" where
  "py_index n i = (if i < 0 then nat (int n + i) else min n (nat i))"

definition py_slice :: "'a list \<Rightarrow> int \<Rightarrow> int \<Rightarrow> 'a list" where
  "py_slice xs i j =
     (let a = py_index (length xs) i; b = py_index (length xs) j in take (b - a) (drop a xs))"

definition py_slice_from :: "'a list \<Rightarrow> int \<Rightarrow> 'a list" where
  "py_slice_from xs i = drop (py_index (length xs) i) xs"

lemma py_slice_nat: "py_slice xs (int i) (int j) = take (j - i) (drop i xs)"
  by (auto simp: py_slice_def py_index_def Let_def min_def)

lemma py_slice_from_nat: "py_slice_from xs (int i) = drop i xs"
  by (simp add: py_slice_from_def py_index_def min_def)

section \<open>Bytes\<close>

type_synonym bytes = "8 word list"

text \<open>
  \<^verbatim>\<open>n.to_bytes(w, "big")\<close> raises OverflowError when \<open>n\<close> does not fit; \<^verbatim>\<open>int.from_bytes(bs, "big")\<close> is
  total. \<open>be_digits\<close> is the big-endian digit list without the check.
\<close>

fun be_digits :: "nat \<Rightarrow> nat \<Rightarrow> bytes" where
  "be_digits 0 n = []"
| "be_digits (Suc w) n = be_digits w (n div 256) @ [of_nat (n mod 256)]"

definition to_bytes :: "nat \<Rightarrow> nat \<Rightarrow> bytes result" where
  "to_bytes w n = (if n < 256 ^ w then Inr (be_digits w n) else Inl OverflowError)"

definition from_bytes :: "bytes \<Rightarrow> nat" where
  "from_bytes bs = foldl (\<lambda>a b. 256 * a + unat b) 0 bs"

lemma length_be_digits [simp]: "length (be_digits w n) = w"
  by (induction w arbitrary: n) auto

lemma from_bytes_snoc [simp]: "from_bytes (bs @ [b]) = 256 * from_bytes bs + unat b"
  by (simp add: from_bytes_def)

lemma from_bytes_be_digits: "n < 256 ^ w \<Longrightarrow> from_bytes (be_digits w n) = n"
proof (induction w arbitrary: n)
  case 0
  then show ?case by (simp add: from_bytes_def)
next
  case (Suc w)
  have "n div 256 < 256 ^ w" using Suc.prems by (simp add: less_mult_imp_div_less mult.commute)
  then show ?case by (simp add: Suc.IH unat_of_nat)
qed

text \<open>\<^verbatim>\<open>bs.startswith(p)\<close> and the code points of an ASCII literal.\<close>

definition starts_with :: "'a list \<Rightarrow> 'a list \<Rightarrow> bool" where
  "starts_with xs p \<longleftrightarrow> take (length p) xs = p"

definition ascii :: "string \<Rightarrow> bytes" where
  "ascii s = map (\<lambda>c. of_char c) s"

lemma starts_with_append [simp]: "starts_with (p @ xs) p"
  by (simp add: starts_with_def)

text \<open>An integer in decimal, as in an f-string.\<close>

fun str_nat :: "nat \<Rightarrow> string" where
  "str_nat n = (if n < 10 then [''0123456789'' ! n] else str_nat (n div 10) @ [''0123456789'' ! (n mod 10)])"

declare str_nat.simps [simp del]

definition str_int :: "int \<Rightarrow> string" where
  "str_int i = (if i < 0 then ''-'' @ str_nat (nat (- i)) else str_nat (nat i))"

section \<open>Reachable states\<close>

inductive reach :: "('s \<Rightarrow> bool) \<Rightarrow> ('s \<Rightarrow> 's \<Rightarrow> bool) \<Rightarrow> 's \<Rightarrow> bool"
  for init :: "'s \<Rightarrow> bool" and step :: "'s \<Rightarrow> 's \<Rightarrow> bool" where
  reach_init: "init s \<Longrightarrow> reach init step s"
| reach_step: "reach init step s \<Longrightarrow> step s t \<Longrightarrow> reach init step t"

text \<open>
  The contract of a state machine with an invariant; each machine of the development
  interprets it, and gets that its reachable states satisfy the invariant.
\<close>

locale invariant_machine =
  fixes init :: "'s \<Rightarrow> bool"
    and step :: "'s \<Rightarrow> 's \<Rightarrow> bool"
    and inv :: "'s \<Rightarrow> bool"
  assumes init_inv: "init s \<Longrightarrow> inv s"
    and step_inv: "inv s \<Longrightarrow> step s t \<Longrightarrow> inv t"
begin

lemma reach_inv: "reach init step s \<Longrightarrow> inv s"
  by (induction rule: reach.induct) (auto intro: init_inv step_inv)

end

text \<open>
  The contract of background work: steps that keep the invariant and what the clients see of the
  state.
\<close>

locale transparent_steps =
  fixes step :: "'s \<Rightarrow> 's \<Rightarrow> bool"
    and inv :: "'s \<Rightarrow> bool"
    and view :: "'s \<Rightarrow> 'v"
  assumes step_keeps: "inv s \<Longrightarrow> step s t \<Longrightarrow> inv t \<and> view t = view s"
begin

lemma run_keeps:
  assumes "step\<^sup>*\<^sup>* s t" and "inv s"
  shows "inv t \<and> view t = view s"
  using assms by (induction rule: rtranclp_induct) (auto dest: step_keeps)

end

text \<open>
  Histories of calls: each call has an answer and changes the state.
\<close>

fun run_calls :: "('c \<Rightarrow> 's \<Rightarrow> 'a \<times> 's) \<Rightarrow> 'c list \<Rightarrow> 's \<Rightarrow> 'a list \<times> 's" where
  "run_calls step [] s = ([], s)"
| "run_calls step (c # cs) s =
     (case step c s of (a, s) \<Rightarrow> (case run_calls step cs s of (as, s) \<Rightarrow> (a # as, s)))"

text \<open>
  The contract of a refinement: every call whose fresh ids are not in use answers what the specification
  answers, as far as a client can see, and keeps the relation to the state of the specification.
  Every history of calls that never reuse an id is then answered as specified.
\<close>

locale simulation =
  fixes step :: "'c \<Rightarrow> 's \<Rightarrow> 'a \<times> 's"
    and spec :: "'c \<Rightarrow> 'm \<Rightarrow> 'b \<times> 'm"
    and seen :: "'a \<Rightarrow> 'b"
    and rel :: "string set \<Rightarrow> 's \<Rightarrow> 'm \<Rightarrow> bool"
    and ids :: "'c \<Rightarrow> string list"
    and ok :: "'c \<Rightarrow> bool"
  assumes step_refines: "rel used s m \<Longrightarrow> ok c \<Longrightarrow> set (ids c) \<inter> used = {} \<Longrightarrow> step c s = (a, t) \<Longrightarrow>
    \<exists>n. spec c m = (seen a, n) \<and> rel (used \<union> set (ids c)) t n"
begin

lemma run_refines:
  assumes "rel used s m" and "\<forall>c \<in> set cs. ok c" and "distinct (concat (map ids cs))"
    and "set (concat (map ids cs)) \<inter> used = {}" and "run_calls step cs s = (as, t)"
  shows "\<exists>n. run_calls spec cs m = (map seen as, n) \<and> rel (used \<union> set (concat (map ids cs))) t n"
  using assms
proof (induction cs arbitrary: used s m as)
  case (Cons c cs)
  obtain a u where c: "step c s = (a, u)" by (cases "step c s")
  obtain bs where r: "run_calls step cs u = (bs, t)" "as = a # bs"
    using Cons.prems(5) c by (auto split: prod.splits)
  have "ok c" "set (ids c) \<inter> used = {}" using Cons.prems by auto
  from step_refines[OF Cons.prems(1) this c] obtain n
    where n: "spec c m = (seen a, n)" "rel (used \<union> set (ids c)) u n" by (elim exE conjE)
  have "\<exists>k. run_calls spec cs n = (map seen bs, k) \<and>
      rel (used \<union> set (ids c) \<union> set (concat (map ids cs))) t k"
    by (rule Cons.IH[OF n(2) _ _ _ r(1)]) (use Cons.prems in auto)
  then show ?case using n(1) r(2) by (auto simp: Un_assoc)
qed simp

end

end
