(* ===== verification/Config.thy ===== *)
theory Config
  imports Prelude
begin

text \<open>
  The settings object of \<^verbatim>\<open>core/config.py\<close>, with the defaults of the class body. Reading them from the
  environment is pydantic's work and is not modelled: a component takes its settings as an argument.
\<close>

record settings =
  cfg_app_name :: string
  cfg_debug :: bool
  cfg_log_level :: string
  cfg_data_dir :: string
  cfg_metadata_dir :: string
  cfg_max_volume_size_gb :: int
  cfg_default_block_size :: int
  cfg_flash_page_size :: int
  cfg_flash_block_size :: int
  cfg_total_flash_blocks :: int
  cfg_gc_threshold :: double
  cfg_gc_target :: double
  cfg_wear_leveling_threshold :: int
  cfg_dedupe_enabled :: bool
  cfg_compression_enabled :: bool
  cfg_pattern_removal_enabled :: bool
  cfg_dedupe_block_size_min :: int
  cfg_dedupe_block_size_max :: int
  cfg_compression_algorithm :: string
  cfg_compression_level :: int
  cfg_cluster_enabled :: bool
  cfg_node_id :: string
  cfg_peer_nodes :: "string list"
  cfg_replication_mode :: string
  cfg_heartbeat_interval_ms :: int
  cfg_failover_timeout_ms :: int
  cfg_mediator_url :: "string option"
  cfg_api_host :: string
  cfg_api_port :: int

definition default_settings :: settings where
  "default_settings =
     \<lparr> cfg_app_name = ''PStorage'', cfg_debug = False, cfg_log_level = ''INFO'',
       cfg_data_dir = ''/tmp/pstorage/data'', cfg_metadata_dir = ''/tmp/pstorage/metadata'',
       cfg_max_volume_size_gb = 1024, cfg_default_block_size = 4096,
       cfg_flash_page_size = 4096, cfg_flash_block_size = 262144,
       cfg_total_flash_blocks = 1024, cfg_gc_threshold = fl (75 / 100),
       cfg_gc_target = fl (50 / 100), cfg_wear_leveling_threshold = 1000,
       cfg_dedupe_enabled = True, cfg_compression_enabled = True,
       cfg_pattern_removal_enabled = True, cfg_dedupe_block_size_min = 4096,
       cfg_dedupe_block_size_max = 32768, cfg_compression_algorithm = ''lz4'',
       cfg_compression_level = 1, cfg_cluster_enabled = False, cfg_node_id = ''node-1'',
       cfg_peer_nodes = [], cfg_replication_mode = ''sync'', cfg_heartbeat_interval_ms = 1000,
       cfg_failover_timeout_ms = 5000, cfg_mediator_url = None, cfg_api_host = ''0.0.0.0'',
       cfg_api_port = 8000 \<rparr>"

end
