(* ===== verification/Pattern_Removal.thy ===== *)
theory Pattern_Removal
  imports Config
begin

text \<open>
  \<^verbatim>\<open>purity/pattern_removal.py\<close>, the first stage of data reduction: blocks of one repeated byte are
  replaced by a short marker. Lemmas: what each operation returns on every branch, the
  encode/decode round trip, and that the zero-region scan reports exactly the maximal runs.
\<close>

section \<open>State and operations\<close>

record pattern_result =
  is_zero_block :: bool
  is_repeated_pattern :: bool
  pattern_byte :: "8 word option"
  unique_bytes_ratio :: double

record pattern_stats =
  ps_blocks_analyzed :: int
  ps_zero_blocks_found :: int
  ps_pattern_blocks_found :: int
  ps_bytes_saved :: int

record pattern_removal =
  pr_min_block_size :: int
  pr_stats :: pattern_stats

definition ZERO_BLOCK_MARKER :: bytes where
  "ZERO_BLOCK_MARKER = ascii ''__ZERO_BLOCK__''"

definition PATTERN_BLOCK_PREFIX :: bytes where
  "PATTERN_BLOCK_PREFIX = ascii ''__PATTERN:''"

definition PatternRemoval :: "int \<Rightarrow> pattern_removal" where
  "PatternRemoval min_block_size =
     \<lparr> pr_min_block_size = min_block_size,
       pr_stats = \<lparr> ps_blocks_analyzed = 0, ps_zero_blocks_found = 0,
                    ps_pattern_blocks_found = 0, ps_bytes_saved = 0 \<rparr> \<rparr>"

definition analyze :: "pattern_removal \<Rightarrow> bytes \<Rightarrow> pattern_result \<times> pattern_removal" where
  "analyze pr data =
     (case data of
        [] \<Rightarrow>
          (\<lparr> is_zero_block = True, is_repeated_pattern = True, pattern_byte = Some 0,
             unique_bytes_ratio = 0 \<rparr>, pr)
      | first_byte # _ \<Rightarrow>
          (let st = pr_stats pr;
               st = st\<lparr>ps_blocks_analyzed := ps_blocks_analyzed st + 1\<rparr>
           in if list_all (\<lambda>b. b = 0) data then
                (\<lparr> is_zero_block = True, is_repeated_pattern = True, pattern_byte = Some 0,
                   unique_bytes_ratio = 0 \<rparr>,
                 pr\<lparr>pr_stats := st\<lparr>ps_zero_blocks_found := ps_zero_blocks_found st + 1\<rparr>\<rparr>)
              else if list_all (\<lambda>b. b = first_byte) data then
                (\<lparr> is_zero_block = False, is_repeated_pattern = True,
                   pattern_byte = Some first_byte, unique_bytes_ratio = 0 \<rparr>,
                 pr\<lparr>pr_stats := st\<lparr>ps_pattern_blocks_found := ps_pattern_blocks_found st + 1\<rparr>\<rparr>)
              else
                (\<lparr> is_zero_block = False, is_repeated_pattern = False, pattern_byte = None,
                   unique_bytes_ratio = fdiv (of_nat (length (remdups data))) 256 \<rparr>,
                 pr\<lparr>pr_stats := st\<rparr>)))"

definition add_saved :: "int \<Rightarrow> pattern_removal \<Rightarrow> pattern_removal" where
  "add_saved n pr =
     pr\<lparr>pr_stats := (pr_stats pr)\<lparr>ps_bytes_saved := ps_bytes_saved (pr_stats pr) + n\<rparr>\<rparr>"

definition encode :: "pattern_removal \<Rightarrow> bytes \<Rightarrow> (pattern_removal, bytes \<times> bool) outcome" where
  "encode pr data =
     (case analyze pr data of (res, pr) \<Rightarrow>
        if is_zero_block res then
          (Inr (ZERO_BLOCK_MARKER, True),
           add_saved (int (length data) - int (length ZERO_BLOCK_MARKER)) pr)
        else
          case (is_repeated_pattern res, pattern_byte res) of
            (True, Some b) \<Rightarrow>
              (case to_bytes 4 (length data) of
                 Inl e \<Rightarrow> (Inl e, pr)
               | Inr len4 \<Rightarrow>
                   let encoded = PATTERN_BLOCK_PREFIX @ [b] @ len4
                   in (Inr (encoded, True),
                       add_saved (int (length data) - int (length encoded)) pr))
          | _ \<Rightarrow> (Inr (data, False), pr))"

definition zero_bytes :: "int \<Rightarrow> bytes result" where
  "zero_bytes n = (if n < 0 then Inl (ValueError ''negative count'') else Inr (replicate (nat n) 0))"

definition decode :: "pattern_removal \<Rightarrow> bytes \<Rightarrow> int option \<Rightarrow> bytes result" where
  "decode pr data original_size =
     (if data = ZERO_BLOCK_MARKER then
        zero_bytes (case original_size of
                      None \<Rightarrow> pr_min_block_size pr
                    | Some n \<Rightarrow> if n = 0 then pr_min_block_size pr else n)
      else if starts_with data PATTERN_BLOCK_PREFIX then
        (if length PATTERN_BLOCK_PREFIX < length data then
           let b = data ! length PATTERN_BLOCK_PREFIX;
               sz = from_bytes (py_slice_from data (- 4))
           in Inr (replicate sz b)
         else Inl IndexError)
      else Inr data)"

definition is_encoded :: "bytes \<Rightarrow> bool" where
  "is_encoded data \<longleftrightarrow> data = ZERO_BLOCK_MARKER \<or> starts_with data PATTERN_BLOCK_PREFIX"

text \<open>
  The generator \<^verbatim>\<open>find_zero_regions\<close>, as the list it yields: \<open>zero_scan\<close> is the loop, with the
  variables \<^verbatim>\<open>start\<close> and \<^verbatim>\<open>i\<close>.
\<close>

definition report_region :: "int \<Rightarrow> nat \<Rightarrow> nat \<Rightarrow> (nat \<times> nat) list" where
  "report_region min_region_size start stop =
     (if min_region_size \<le> int (stop - start) then [(start, stop - start)] else [])"

fun zero_scan :: "int \<Rightarrow> nat option \<Rightarrow> nat \<Rightarrow> bytes \<Rightarrow> (nat \<times> nat) list" where
  "zero_scan m None i [] = []"
| "zero_scan m (Some start) i [] = report_region m start i"
| "zero_scan m None i (b # bs) = zero_scan m (if b = 0 then Some i else None) (Suc i) bs"
| "zero_scan m (Some start) i (b # bs) =
     (if b = 0 then zero_scan m (Some start) (Suc i) bs
      else report_region m start i @ zero_scan m None (Suc i) bs)"

definition find_zero_regions :: "bytes \<Rightarrow> int \<Rightarrow> (nat \<times> nat) list" where
  "find_zero_regions data min_region_size = zero_scan min_region_size None 0 data"

definition pr_get_stats :: "pattern_removal \<Rightarrow> pattern_stats" where
  "pr_get_stats pr = pr_stats pr"

section \<open>Analysis\<close>

text \<open>A block is a pattern when all its bytes are equal (the empty block counts as one).\<close>

definition all_zero :: "bytes \<Rightarrow> bool" where
  "all_zero data \<longleftrightarrow> list_all (\<lambda>b. b = 0) data"

definition is_pattern :: "bytes \<Rightarrow> bool" where
  "is_pattern data \<longleftrightarrow> (\<exists>b n. data = replicate n b)"

lemma is_pattern_code: "is_pattern data \<longleftrightarrow> (data = [] \<or> list_all (\<lambda>b. b = hd data) data)"
proof
  assume "data = [] \<or> list_all (\<lambda>b. b = hd data) data"
  then have "data = replicate (length data) (hd data)"
    by (auto simp: list_all_iff intro: replicate_eqI)
  then show "is_pattern data" unfolding is_pattern_def by blast
qed (auto simp: is_pattern_def list_all_iff)

lemma all_zero_replicate: "all_zero data \<Longrightarrow> data = replicate (length data) 0"
  by (auto simp: all_zero_def list_all_iff intro: replicate_eqI)

lemma all_zero_pattern: "all_zero data \<Longrightarrow> is_pattern data"
  using all_zero_replicate unfolding is_pattern_def by blast

lemma analyze_zero [simp]: "is_zero_block (fst (analyze pr data)) \<longleftrightarrow> all_zero data"
  by (auto simp: analyze_def all_zero_def Let_def split: list.split)

lemma analyze_repeated [simp]: "is_repeated_pattern (fst (analyze pr data)) \<longleftrightarrow> is_pattern data"
  by (cases data) (auto simp: analyze_def is_pattern_code Let_def)

lemma analyze_byte:
  "pattern_byte (fst (analyze pr data))
   = (if all_zero data then Some 0 else if is_pattern data then Some (hd data) else None)"
  by (cases data) (auto simp: analyze_def is_pattern_code all_zero_def Let_def)

lemma analyze_min_block_size [simp]:
  "pr_min_block_size (snd (analyze pr data)) = pr_min_block_size pr"
  by (simp add: analyze_def Let_def split: list.split)

lemma add_saved_min_block_size [simp]: "pr_min_block_size (add_saved n pr) = pr_min_block_size pr"
  by (simp add: add_saved_def)

text \<open>The marker a pattern block is replaced by.\<close>

definition pattern_code :: "bytes \<Rightarrow> bytes" where
  "pattern_code data =
     (if all_zero data then ZERO_BLOCK_MARKER
      else PATTERN_BLOCK_PREFIX @ [hd data] @ be_digits 4 (length data))"

lemma encode_result:
  "fst (encode pr data) =
     (if \<not> is_pattern data then Inr (data, False)
      else if all_zero data \<or> length data < 2 ^ 32 then Inr (pattern_code data, True)
      else Inl OverflowError)"
  using all_zero_pattern[of data] analyze_byte[of pr data] analyze_zero[of pr data]
    analyze_repeated[of pr data]
  by (cases "analyze pr data") (auto simp: encode_def pattern_code_def to_bytes_def Let_def)

lemma encode_min_block_size [simp]:
  "pr_min_block_size (snd (encode pr data)) = pr_min_block_size pr"
  using analyze_min_block_size[of pr data]
  by (cases "analyze pr data") (auto simp: encode_def Let_def split: option.split bool.split sum.split)

section \<open>Round trip\<close>

lemma length_ZERO_BLOCK_MARKER [simp]: "length ZERO_BLOCK_MARKER = 14"
  by (simp add: ZERO_BLOCK_MARKER_def ascii_def)

lemma length_PATTERN_BLOCK_PREFIX [simp]: "length PATTERN_BLOCK_PREFIX = 10"
  by (simp add: PATTERN_BLOCK_PREFIX_def ascii_def)

lemma length_pattern_code: "length (pattern_code data) = (if all_zero data then 14 else 15)"
  by (simp add: pattern_code_def)

lemma is_encoded_pattern_code [simp]: "is_encoded (pattern_code data)"
  by (simp add: is_encoded_def pattern_code_def)

lemma pattern_code_neq_marker [simp]: "\<not> all_zero data \<Longrightarrow> pattern_code data \<noteq> ZERO_BLOCK_MARKER"
  using length_pattern_code[of data] by fastforce

lemma decode_plain: "\<not> is_encoded data \<Longrightarrow> decode pr data sz = Inr data"
  by (simp add: decode_def is_encoded_def)

lemma decode_pattern_code:
  assumes "is_pattern data" and "\<not> all_zero data" and "length data < 2 ^ 32"
  shows "decode pr (pattern_code data) sz = Inr data"
proof -
  have ne: "data \<noteq> []" using assms(2) by (auto simp: all_zero_def)
  have data: "data = replicate (length data) (hd data)"
    using assms(1) ne by (auto simp: is_pattern_def)
  let ?c = "PATTERN_BLOCK_PREFIX @ [hd data] @ be_digits 4 (length data)"
  have c: "pattern_code data = ?c" using assms(2) by (simp add: pattern_code_def)
  have last4: "py_slice_from ?c (- 4) = be_digits 4 (length data)"
    by (simp add: py_slice_from_def py_index_def)
  have byte: "?c ! 10 = hd data"
    using nth_append_length[of PATTERN_BLOCK_PREFIX "hd data"] by simp
  have "from_bytes (be_digits 4 (length data)) = length data"
    using assms(3) by (intro from_bytes_be_digits) simp
  then have "decode pr ?c sz = Inr (replicate (length data) (hd data))"
    using pattern_code_neq_marker[OF assms(2)]
    by (simp add: decode_def last4 [simplified] byte [simplified] c)
  then show ?thesis using data c by simp
qed

lemma decode_zero_marker:
  "decode pr ZERO_BLOCK_MARKER None = zero_bytes (pr_min_block_size pr)"
  "n \<noteq> 0 \<Longrightarrow> decode pr ZERO_BLOCK_MARKER (Some n) = zero_bytes n"
  by (simp_all add: decode_def)

lemma zero_bytes_length: "all_zero data \<Longrightarrow> zero_bytes (int (length data)) = Inr data"
  using all_zero_replicate[of data] by (simp add: zero_bytes_def)

text \<open>
  C15. Pattern encoding is reversible when the reader knows the length: whatever
  \<^verbatim>\<open>PatternRemoval.encode\<close> returned for a non-empty block that it reduced, or that it left alone and that does not
  begin as a marker does, \<^verbatim>\<open>decode\<close> with the original size gives the block back, whatever the
  state of the decoding object. (A block left alone that begins as a marker is taken for one.)
\<close>

theorem encode_decode_roundtrip:
  assumes "fst (encode pr data) = Inr (enc, reduced)" and "data \<noteq> []"
    and "reduced \<or> \<not> is_encoded data"
  shows "decode pr' enc (Some (int (length data))) = Inr data"
proof (cases "is_pattern data")
  case False
  then show ?thesis using assms by (auto simp: encode_result decode_plain)
next
  case True
  then have enc: "enc = pattern_code data" "all_zero data \<or> length data < 2 ^ 32"
    using assms(1) by (auto simp: encode_result split: if_splits)
  show ?thesis
  proof (cases "all_zero data")
    case True
    then show ?thesis
      using enc assms(2) by (simp add: pattern_code_def decode_zero_marker zero_bytes_length)
  next
    case False
    then show ?thesis using enc \<open>is_pattern data\<close> by (simp add: decode_pattern_code)
  qed
qed

theorem encode_decode_roundtrip_witness:
  "decode (PatternRemoval 8) (PATTERN_BLOCK_PREFIX @ [7] @ be_digits 4 3) (Some 3) = Inr [7, 7, 7]"
proof -
  have "is_pattern [7, 7, 7]" "\<not> all_zero [7, 7, 7]"
    by (simp_all add: is_pattern_code all_zero_def)
  then have "fst (encode (PatternRemoval 8) [7, 7, 7])
             = Inr (PATTERN_BLOCK_PREFIX @ [7] @ be_digits 4 3, True)"
    by (simp add: encode_result pattern_code_def numeral_3_eq_3)
  from encode_decode_roundtrip [OF this, of "PatternRemoval 8"] show ?thesis by simp
qed

text \<open>
  Without the original size (the way \<^verbatim>\<open>PurityEngine.retrieve\<close> calls it) the length of an all-zero
  block is lost: whatever was encoded, decoding gives as many zeros as the configured block size.
\<close>

lemma zero_block_length_lost:
  assumes "all_zero data" and "fst (encode pr data) = Inr (enc, reduced)"
    and "0 \<le> pr_min_block_size pr'"
  shows "reduced \<and> decode pr' enc None = Inr (replicate (nat (pr_min_block_size pr')) 0)"
  using assms all_zero_pattern[OF assms(1)]
  by (auto simp: encode_result pattern_code_def decode_zero_marker zero_bytes_def)

section \<open>Zero regions\<close>

definition zero_run :: "bytes \<Rightarrow> nat \<Rightarrow> nat \<Rightarrow> bool" where
  "zero_run data s l \<longleftrightarrow>
     0 < l \<and> s + l \<le> length data \<and> (\<forall>i \<in> {s..<s + l}. data ! i = 0) \<and>
     (s = 0 \<or> data ! (s - 1) \<noteq> 0) \<and> (s + l = length data \<or> data ! (s + l) \<noteq> 0)"

text \<open>The loop invariant: the variable \<^verbatim>\<open>start\<close> at position \<^verbatim>\<open>i\<close>.\<close>

definition scan_inv :: "bytes \<Rightarrow> nat option \<Rightarrow> nat \<Rightarrow> bool" where
  "scan_inv data st i \<longleftrightarrow>
     (case st of
        None \<Rightarrow> i = 0 \<or> data ! (i - 1) \<noteq> 0
      | Some s \<Rightarrow> s < i \<and> (\<forall>k \<in> {s..<i}. data ! k = 0) \<and> (s = 0 \<or> data ! (s - 1) \<noteq> 0))"

lemma zero_run_start_unique:
  assumes "zero_run data s l" and "\<forall>k \<in> {s0..<i}. data ! k = 0" and "s0 \<le> s" and "s < i"
  shows "s = s0"
proof (rule ccontr)
  assume "s \<noteq> s0"
  with assms(3,4) have "data ! (s - 1) = 0" "s \<noteq> 0" by (auto intro!: bspec[OF assms(2)])
  with assms(1) show False by (simp add: zero_run_def)
qed

lemma zero_run_end:
  assumes "zero_run data s l" and "\<forall>k \<in> {s..<i}. data ! k = 0" and "i \<le> length data"
    and "s < i" and "i = length data \<or> data ! i \<noteq> 0"
  shows "s + l = i"
proof (rule ccontr)
  assume "s + l \<noteq> i"
  then consider "s + l < i" | "i < s + l" by linarith
  then show False
  proof cases
    case 1
    then have "data ! (s + l) = 0" using assms(2) by simp
    with 1 assms(1,3) show False by (simp add: zero_run_def)
  next
    case 2
    then have "data ! i = 0" "i < length data" using assms(1,4) by (auto simp: zero_run_def)
    with assms(5) show False by simp
  qed
qed

text \<open>The run that ends at \<open>i\<close> is reported, if it is long enough.\<close>

lemma report_region_runs:
  assumes "scan_inv data (Some s0) i" and "i \<le> length data" and "i = length data \<or> data ! i \<noteq> 0"
  shows "set (report_region m s0 i)
         = {(s, l). zero_run data s l \<and> m \<le> int l \<and> s0 \<le> s \<and> s < i}"
proof -
  have inv: "s0 < i" "\<forall>k \<in> {s0..<i}. data ! k = 0" "s0 = 0 \<or> data ! (s0 - 1) \<noteq> 0"
    using assms(1) by (auto simp: scan_inv_def)
  have run: "zero_run data s0 (i - s0)" using inv assms by (auto simp: zero_run_def)
  have "zero_run data s l \<and> s0 \<le> s \<and> s < i \<longleftrightarrow> s = s0 \<and> l = i - s0" for s l
  proof
    assume r: "zero_run data s l \<and> s0 \<le> s \<and> s < i"
    then have s: "s = s0" using zero_run_start_unique inv(2) by blast
    with r inv assms zero_run_end[of data s l i] show "s = s0 \<and> l = i - s0" by auto
  qed (use run inv in auto)
  then have "{(s, l). zero_run data s l \<and> m \<le> int l \<and> s0 \<le> s \<and> s < i}
             = {(s, l). (s = s0 \<and> l = i - s0) \<and> m \<le> int l}" by blast
  then show ?thesis by (auto simp: report_region_def)
qed

lemma zero_scan_runs:
  assumes "scan_inv data st i" and "i \<le> length data" and "bs = drop i data"
  shows "set (zero_scan m st i bs) =
     {(s, l). zero_run data s l \<and> m \<le> int l \<and> (case st of None \<Rightarrow> i | Some s0 \<Rightarrow> s0) \<le> s}"
  using assms
proof (induction m st i bs rule: zero_scan.induct)
  case (1 m i)
  then show ?case by (auto simp: zero_run_def)
next
  case (2 m s0 i)
  then have i: "i = length data" by simp
  have "s < length data" if "zero_run data s l" for s l using that by (auto simp: zero_run_def)
  then show ?case using 2 i report_region_runs[of data s0 i m] by auto
next
  case (3 m i b bs)
  from 3(4) have bs: "bs = drop (Suc i) data" and b: "b = data ! i" and i: "i < length data"
    by (metis drop_Suc tl_drop list.sel(3), metis nth_via_drop,
        metis drop_eq_Nil2 linorder_not_le list.distinct(1))
  show ?case
  proof (cases "b = 0")
    case True
    have "scan_inv data (Some i) (Suc i)" using 3(2) True b by (auto simp: scan_inv_def less_Suc_eq_le)
    then show ?thesis using 3(1) True bs i by simp
  next
    case False
    have inv: "scan_inv data None (Suc i)" using False b by (simp add: scan_inv_def)
    have "zero_run data s l \<and> i \<le> s \<longleftrightarrow> zero_run data s l \<and> Suc i \<le> s" for s l
      using False b by (auto simp: zero_run_def Suc_le_eq le_less)
    then show ?thesis using 3(1) False inv bs i by auto
  qed
next
  case (4 m s0 i b bs)
  from 4(5) have bs: "bs = drop (Suc i) data" and b: "b = data ! i" and i: "i < length data"
    by (metis drop_Suc tl_drop list.sel(3), metis nth_via_drop,
        metis drop_eq_Nil2 linorder_not_le list.distinct(1))
  show ?case
  proof (cases "b = 0")
    case True
    have "scan_inv data (Some s0) (Suc i)"
      using 4(3) True b by (auto simp: scan_inv_def less_Suc_eq)
    then show ?thesis using 4(1) True bs i by simp
  next
    case False
    have inv: "scan_inv data None (Suc i)" using False b by (simp add: scan_inv_def)
    have ne: "s \<noteq> i" if "zero_run data s l" for s l using that False b by (auto simp: zero_run_def)
    have s0: "s0 < i" using 4(3) by (simp add: scan_inv_def)
    have "set (zero_scan m None (Suc i) bs)
          = {(s, l). zero_run data s l \<and> m \<le> int l \<and> Suc i \<le> s}"
      using 4(2) False inv bs i by simp
    moreover have "set (report_region m s0 i)
                   = {(s, l). zero_run data s l \<and> m \<le> int l \<and> s0 \<le> s \<and> s < i}"
      using 4(3) False b i by (intro report_region_runs) auto
    ultimately show ?thesis using False ne s0 by (auto simp: Suc_le_eq) (metis linorder_neqE_nat)
  qed
qed

text \<open>
  C32. \<^verbatim>\<open>find_zero_regions\<close> yields exactly the maximal runs of zero bytes that are at least
  \<^verbatim>\<open>min_region_size\<close> long: nothing else, and none is missed (a run that reaches the end of the data
  included).
\<close>

theorem find_zero_regions_correct:
  "set (find_zero_regions data m) = {(s, l). zero_run data s l \<and> m \<le> int l}"
  using zero_scan_runs[of data None 0 data m] by (simp add: find_zero_regions_def scan_inv_def)

end
