(* ===== verification/Compression.thy ===== *)
theory Compression
  imports Config
begin

text \<open>
  \<^verbatim>\<open>purity/compression.py\<close>: a block is compressed with LZ4 or Zstd, kept only when it shrinks enough,
  and stored behind a five-byte header (algorithm, original size). The two compressors are
  third-party packages: a record \<open>codecs\<close> of four functions is an argument of every operation that
  calls them, and \<open>codecs_ok\<close> is their documented contract, decompression undoes compression.
\<close>

section \<open>State and operations\<close>

datatype compression_algorithm = Alg_NONE | Alg_LZ4 | Alg_ZSTD

record compression_result =
  cr_original_size :: int
  cr_compressed_size :: int
  cr_algorithm :: compression_algorithm
  cr_compression_ratio :: double
  cr_was_compressed :: bool

record codecs =
  lz4_compress :: "bytes \<Rightarrow> bytes"
  lz4_decompress :: "bytes \<Rightarrow> bytes result"
  zstd_compress :: "int \<Rightarrow> bytes \<Rightarrow> bytes"
  zstd_decompress :: "bytes \<Rightarrow> bytes result"

definition codecs_ok :: "codecs \<Rightarrow> bool" where
  "codecs_ok cdc \<longleftrightarrow>
     (\<forall>x. lz4_decompress cdc (lz4_compress cdc x) = Inr x) \<and>
     (\<forall>l x. zstd_decompress cdc (zstd_compress cdc l x) = Inr x)"

record compression_stats =
  cs_blocks_compressed :: int
  cs_blocks_skipped :: int
  cs_bytes_before :: int
  cs_bytes_after :: int

record compression_engine =
  ce_algorithm :: compression_algorithm
  ce_level :: int
  ce_min_compression_ratio :: double
  ce_stats :: compression_stats

definition HEADER_SIZE :: nat where
  "HEADER_SIZE = 5"

fun algorithm_bytes :: "compression_algorithm \<Rightarrow> 8 word" where
  "algorithm_bytes Alg_NONE = 0"
| "algorithm_bytes Alg_LZ4 = 1"
| "algorithm_bytes Alg_ZSTD = 2"

definition bytes_to_algorithm :: "8 word \<Rightarrow> compression_algorithm option" where
  "bytes_to_algorithm b =
     (if b = 0 then Some Alg_NONE else if b = 1 then Some Alg_LZ4
      else if b = 2 then Some Alg_ZSTD else None)"

definition CompressionAlgorithm :: "string \<Rightarrow> compression_algorithm result" where
  "CompressionAlgorithm value =
     (if value = ''none'' then Inr Alg_NONE
      else if value = ''lz4'' then Inr Alg_LZ4
      else if value = ''zstd'' then Inr Alg_ZSTD
      else Inl (ValueError ''not a valid CompressionAlgorithm''))"

fun algorithm_value :: "compression_algorithm \<Rightarrow> string" where
  "algorithm_value Alg_NONE = ''none''"
| "algorithm_value Alg_LZ4 = ''lz4''"
| "algorithm_value Alg_ZSTD = ''zstd''"

definition CompressionEngine :: "string \<Rightarrow> int \<Rightarrow> double \<Rightarrow> compression_engine result" where
  "CompressionEngine algorithm level min_ratio =
     (case CompressionAlgorithm algorithm of
        Inl e \<Rightarrow> Inl e
      | Inr alg \<Rightarrow>
          Inr \<lparr> ce_algorithm = alg, ce_level = level, ce_min_compression_ratio = min_ratio,
                ce_stats = \<lparr> cs_blocks_compressed = 0, cs_blocks_skipped = 0,
                             cs_bytes_before = 0, cs_bytes_after = 0 \<rparr> \<rparr>)"

definition default_min_ratio :: double where
  "default_min_ratio = fl (11 / 10)"

definition DeepCompressionEngine :: "int \<Rightarrow> compression_engine result" where
  "DeepCompressionEngine level = CompressionEngine ''zstd'' level (fl (105 / 100))"

text \<open>The header of a stored block; \<^verbatim>\<open>original_size.to_bytes(4, "big")\<close> may raise.\<close>

definition make_header :: "compression_algorithm \<Rightarrow> nat \<Rightarrow> bytes result" where
  "make_header alg original_size =
     (case to_bytes 4 original_size of
        Inl e \<Rightarrow> Inl e
      | Inr sz \<Rightarrow> Inr ([algorithm_bytes alg] @ sz))"

definition run_compressor :: "codecs \<Rightarrow> compression_engine \<Rightarrow> bytes \<Rightarrow> bytes" where
  "run_compressor cdc ce data =
     (if ce_algorithm ce = Alg_LZ4 then lz4_compress cdc data
      else zstd_compress cdc (ce_level ce) data)"

definition size_ratio :: "nat \<Rightarrow> nat \<Rightarrow> double" where
  "size_ratio original_size compressed_size =
     (if 0 < compressed_size then fdiv (of_nat original_size) (of_nat compressed_size) else 1)"

definition compress ::
    "codecs \<Rightarrow> compression_engine \<Rightarrow> bytes
     \<Rightarrow> (compression_engine, bytes \<times> compression_result) outcome" where
  "compress cdc ce data =
     (let original_size = length data;
          st = ce_stats ce;
          st = st\<lparr>cs_bytes_before := cs_bytes_before st + int original_size\<rparr>;
          plain = \<lparr> cr_original_size = int original_size, cr_compressed_size = int original_size,
                    cr_algorithm = Alg_NONE, cr_compression_ratio = 1,
                    cr_was_compressed = False \<rparr>
      in if ce_algorithm ce = Alg_NONE then (Inr (data, plain), ce\<lparr>ce_stats := st\<rparr>)
         else
           let compressed = run_compressor cdc ce data;
               compressed_size = length compressed;
               ratio = size_ratio original_size compressed_size
           in if ratio < ce_min_compression_ratio ce then
                let st = st\<lparr> cs_blocks_skipped := cs_blocks_skipped st + 1,
                             cs_bytes_after := cs_bytes_after st + int original_size \<rparr>
                in (map_sum id (\<lambda>header. (header @ data, plain))
                      (make_header Alg_NONE original_size),
                    ce\<lparr>ce_stats := st\<rparr>)
              else
                let st = st\<lparr> cs_blocks_compressed := cs_blocks_compressed st + 1,
                             cs_bytes_after := cs_bytes_after st + int compressed_size \<rparr>;
                    res = \<lparr> cr_original_size = int original_size,
                            cr_compressed_size = int compressed_size,
                            cr_algorithm = ce_algorithm ce, cr_compression_ratio = ratio,
                            cr_was_compressed = True \<rparr>
                in (map_sum id (\<lambda>header. (header @ compressed, res))
                      (make_header (ce_algorithm ce) original_size),
                    ce\<lparr>ce_stats := st\<rparr>))"

definition decompress :: "codecs \<Rightarrow> bytes \<Rightarrow> bytes result" where
  "decompress cdc data =
     (if length data < HEADER_SIZE then Inr data
      else
        let payload = drop 5 data;
            algorithm = (case bytes_to_algorithm (hd data) of None \<Rightarrow> Alg_NONE | Some a \<Rightarrow> a)
        in case algorithm of
             Alg_NONE \<Rightarrow> Inr payload
           | Alg_LZ4 \<Rightarrow> lz4_decompress cdc payload
           | Alg_ZSTD \<Rightarrow> zstd_decompress cdc payload)"

definition is_compressed :: "bytes \<Rightarrow> bool" where
  "is_compressed data \<longleftrightarrow>
     HEADER_SIZE \<le> length data \<and>
     (case bytes_to_algorithm (hd data) of None \<Rightarrow> Alg_NONE | Some a \<Rightarrow> a) \<noteq> Alg_NONE"

definition has_header :: "bytes \<Rightarrow> bool" where
  "has_header data \<longleftrightarrow> HEADER_SIZE \<le> length data \<and> bytes_to_algorithm (hd data) \<noteq> None"

definition get_compression_ratio :: "compression_engine \<Rightarrow> double" where
  "get_compression_ratio ce =
     (let st = ce_stats ce
      in if cs_bytes_after st = 0 then 1
         else fdiv (of_int (cs_bytes_before st)) (of_int (cs_bytes_after st)))"

text \<open>\<^verbatim>\<open>get_stats\<close>: the counters, the ratio and the name of the algorithm.\<close>

definition ce_get_stats :: "compression_engine \<Rightarrow> compression_stats \<times> double \<times> string" where
  "ce_get_stats ce =
     (let st = ce_stats ce
      in (st,
          if 0 < cs_bytes_after st
          then fdiv (of_int (cs_bytes_before st)) (of_int (cs_bytes_after st)) else 1,
          algorithm_value (ce_algorithm ce)))"

section \<open>Behaviour\<close>

lemma bytes_to_algorithm_bytes [simp]: "bytes_to_algorithm (algorithm_bytes a) = Some a"
  by (cases a) (simp_all add: bytes_to_algorithm_def)

lemma make_header_result:
  "make_header alg n =
     (if n < 2 ^ 32 then Inr (algorithm_bytes alg # be_digits 4 n) else Inl OverflowError)"
  by (simp add: make_header_def to_bytes_def)

text \<open>Which branch \<^verbatim>\<open>compress\<close> takes, and the bytes it then returns.\<close>

definition keeps_compressed :: "codecs \<Rightarrow> compression_engine \<Rightarrow> bytes \<Rightarrow> bool" where
  "keeps_compressed cdc ce data \<longleftrightarrow>
     \<not> size_ratio (length data) (length (run_compressor cdc ce data)) < ce_min_compression_ratio ce"

definition stored_form :: "codecs \<Rightarrow> compression_engine \<Rightarrow> bytes \<Rightarrow> bytes" where
  "stored_form cdc ce data =
     (if keeps_compressed cdc ce data
      then algorithm_bytes (ce_algorithm ce) # be_digits 4 (length data) @ run_compressor cdc ce data
      else algorithm_bytes Alg_NONE # be_digits 4 (length data) @ data)"

definition stored_result :: "codecs \<Rightarrow> compression_engine \<Rightarrow> bytes \<Rightarrow> compression_result" where
  "stored_result cdc ce data =
     (if keeps_compressed cdc ce data
      then \<lparr> cr_original_size = int (length data),
             cr_compressed_size = int (length (run_compressor cdc ce data)),
             cr_algorithm = ce_algorithm ce,
             cr_compression_ratio = size_ratio (length data) (length (run_compressor cdc ce data)),
             cr_was_compressed = True \<rparr>
      else \<lparr> cr_original_size = int (length data), cr_compressed_size = int (length data),
             cr_algorithm = Alg_NONE, cr_compression_ratio = 1, cr_was_compressed = False \<rparr>)"

lemma compress_stored_form:
  assumes "ce_algorithm ce \<noteq> Alg_NONE" and "length data < 2 ^ 32"
  shows "fst (compress cdc ce data) = Inr (stored_form cdc ce data, stored_result cdc ce data)"
  using assms
  by (simp add: compress_def stored_form_def stored_result_def keeps_compressed_def
      make_header_result Let_def)

lemma stored_result_was_compressed [simp]:
  "cr_was_compressed (stored_result cdc ce data) = keeps_compressed cdc ce data"
  by (simp add: stored_result_def)

lemma compress_overflow:
  assumes "ce_algorithm ce \<noteq> Alg_NONE" and "2 ^ 32 \<le> length data"
  shows "fst (compress cdc ce data) = Inl OverflowError"
  using assms by (simp add: compress_def make_header_result Let_def)

lemma compress_config [simp]:
  "ce_algorithm (snd (compress cdc ce data)) = ce_algorithm ce"
  "ce_level (snd (compress cdc ce data)) = ce_level ce"
  "ce_min_compression_ratio (snd (compress cdc ce data)) = ce_min_compression_ratio ce"
  by (simp_all add: compress_def Let_def)

lemma has_header_stored_form [simp]: "has_header (stored_form cdc ce data)"
  using bytes_to_algorithm_bytes[of Alg_NONE]
  by (auto simp: stored_form_def has_header_def HEADER_SIZE_def)

lemma decompress_stored_form:
  assumes "codecs_ok cdc" and "ce_algorithm ce \<noteq> Alg_NONE"
  shows "decompress cdc (stored_form cdc ce data) = Inr data"
  using assms
  by (cases "ce_algorithm ce")
     (auto simp: stored_form_def decompress_def HEADER_SIZE_def run_compressor_def codecs_ok_def
       bytes_to_algorithm_def)

text \<open>
  C14. \<^verbatim>\<open>CompressionEngine.decompress\<close> undoes \<^verbatim>\<open>compress\<close> for LZ4 and Zstd, on the branch that keeps the
  compressed bytes and on the one that falls back to the plain bytes behind a NONE header, for
  every block below 4 GiB; the hypothesis on the two packages is that they undo themselves.
\<close>

theorem compress_decompress_roundtrip:
  assumes "codecs_ok cdc" and "ce_algorithm ce \<noteq> Alg_NONE" and "length data < 2 ^ 32"
  shows "\<exists>out res. fst (compress cdc ce data) = Inr (out, res) \<and> has_header out \<and>
           is_compressed out = cr_was_compressed res \<and> decompress cdc out = Inr data"
proof -
  have "is_compressed (stored_form cdc ce data) = keeps_compressed cdc ce data"
    using assms(2) bytes_to_algorithm_bytes[of Alg_NONE]
    by (auto simp: is_compressed_def stored_form_def HEADER_SIZE_def)
  with compress_stored_form[OF assms(2,3)] decompress_stored_form[OF assms(1,2)]
  show ?thesis by auto
qed

text \<open>A pair of codecs for the witnesses: a run of equal bytes becomes its byte and its length.\<close>

definition demo_codecs :: codecs where
  "demo_codecs =
     \<lparr> lz4_compress = (\<lambda>x. if length x < 65536 \<and> x = replicate (length x) (hd x)
                           then [1, hd x] @ be_digits 2 (length x) else 0 # x),
       lz4_decompress = (\<lambda>y. Inr (if hd y = 0 then tl y else replicate (from_bytes (drop 2 y)) (y ! 1))),
       zstd_compress = (\<lambda>l x. x), zstd_decompress = (\<lambda>y. Inr y) \<rparr>"

lemma demo_codecs_ok: "codecs_ok demo_codecs"
proof -
  have "lz4_decompress demo_codecs (lz4_compress demo_codecs x) = Inr x" for x
  proof (cases "length x < 65536 \<and> x = replicate (length x) (hd x)")
    case True
    then have "from_bytes (be_digits 2 (length x)) = length x"
      by (intro from_bytes_be_digits) simp
    with True show ?thesis by (simp add: demo_codecs_def)
  next
    case False
    then show ?thesis by (auto simp: demo_codecs_def)
  qed
  then show ?thesis by (simp add: codecs_ok_def) (simp add: demo_codecs_def)
qed

theorem compress_decompress_roundtrip_witness:
  "\<exists>ce out res. CompressionEngine ''lz4'' 1 default_min_ratio = Inr ce \<and>
     fst (compress demo_codecs ce (replicate 20 7)) = Inr (out, res) \<and>
     decompress demo_codecs out = Inr (replicate 20 7)"
proof -
  let ?ce = "\<lparr> ce_algorithm = Alg_LZ4, ce_level = 1, ce_min_compression_ratio = default_min_ratio,
                ce_stats = \<lparr> cs_blocks_compressed = 0, cs_blocks_skipped = 0,
                             cs_bytes_before = 0, cs_bytes_after = 0 \<rparr> \<rparr>"
  have "CompressionEngine ''lz4'' 1 default_min_ratio = Inr ?ce"
    by (simp add: CompressionEngine_def CompressionAlgorithm_def)
  moreover have "ce_algorithm ?ce \<noteq> Alg_NONE" "length (replicate 20 (7 :: 8 word)) < 2 ^ 32"
    by simp_all
  note compress_decompress_roundtrip [OF demo_codecs_ok this]
  ultimately show ?thesis by blast
qed

text \<open>
  C27. The reduction stage never inflates a block by more than its five-byte header: with a minimal
  ratio above 1 (the source uses 1.1, and 1.05 for deep compression) the stored form of an
  \<open>n\<close>-byte block has at most \<open>n + 5\<close> bytes, whatever the compressor returned, and when the
  compressed bytes are kept they are strictly fewer than the original ones.
\<close>

theorem compress_bounded_growth:
  assumes "ce_algorithm ce \<noteq> Alg_NONE" and "1 < ce_min_compression_ratio ce"
    and "fst (compress cdc ce data) = Inr (out, res)"
  shows "length out \<le> length data + HEADER_SIZE \<and>
         (cr_was_compressed res \<longrightarrow> length out < length data + HEADER_SIZE)"
proof -
  have len: "length data < 2 ^ 32"
  proof (rule ccontr)
    assume "\<not> length data < 2 ^ 32"
    then have "2 ^ 32 \<le> length data" by (rule leI)
    from compress_overflow[OF assms(1) this] assms(3) show False by simp
  qed
  then have out: "out = stored_form cdc ce data" "res = stored_result cdc ce data"
    using compress_stored_form[OF assms(1) len] assms(3) by auto
  have small: "length (run_compressor cdc ce data) < length data" if "keeps_compressed cdc ce data"
  proof -
    let ?c = "length (run_compressor cdc ce data)"
    have r: "1 < size_ratio (length data) ?c"
      using that assms(2) by (auto simp: keeps_compressed_def)
    then have c: "0 < ?c" by (auto simp: size_ratio_def split: if_splits)
    with r have f: "1 < fdiv (of_nat (length data)) (of_nat ?c)" by (simp only: size_ratio_def if_True)
    have "(of_nat ?c :: rat) < of_nat (length data)"
      by (rule fdiv_gt_1_imp [OF _ _ f]) (use c in simp_all)
    then show ?thesis by (simp only: of_nat_less_iff)
  qed
  show ?thesis
  proof (cases "keeps_compressed cdc ce data")
    case True
    then show ?thesis using small by (simp add: out stored_form_def HEADER_SIZE_def)
  next
    case False
    then show ?thesis by (simp add: out stored_form_def HEADER_SIZE_def)
  qed
qed

lemma default_min_ratio_gt_1: "1 < default_min_ratio"
  unfolding default_min_ratio_def by code_simp

theorem compress_bounded_growth_witness:
  "\<exists>ce out res. CompressionEngine ''zstd'' 3 default_min_ratio = Inr ce \<and>
     fst (compress demo_codecs ce [1, 2, 3]) = Inr (out, res) \<and> length out \<le> 3 + HEADER_SIZE"
proof -
  let ?ce = "\<lparr> ce_algorithm = Alg_ZSTD, ce_level = 3, ce_min_compression_ratio = default_min_ratio,
                ce_stats = \<lparr> cs_blocks_compressed = 0, cs_blocks_skipped = 0,
                             cs_bytes_before = 0, cs_bytes_after = 0 \<rparr> \<rparr>"
  have alg: "ce_algorithm ?ce \<noteq> Alg_NONE" and ratio: "1 < ce_min_compression_ratio ?ce"
    using default_min_ratio_gt_1 by simp_all
  obtain out res where c: "fst (compress demo_codecs ?ce [1, 2, 3]) = Inr (out, res)"
    using compress_stored_form[OF alg, of "[1, 2, 3]" demo_codecs] by auto
  have "length out \<le> length [1, 2, 3 :: 8 word] + HEADER_SIZE"
    using compress_bounded_growth [OF alg ratio c] by blast
  with c show ?thesis by (auto simp: CompressionEngine_def CompressionAlgorithm_def)
qed

end
