(* ===== verification/Deduplication.thy ===== *)
theory Deduplication
  imports Config "HOL-Library.Multiset"
begin

text \<open>
  \<^verbatim>\<open>purity/deduplication.py\<close>: the fingerprint table with its reference counts. SHA-256 is a function
  \<open>sha\<close>, an argument of the operations that hash. Every operation runs under the engine's lock, so
  one call is one step. Lemmas: the table invariant, the refinement of the table to a multiset of
  fingerprints (register adds an element, dereference removes one), and fixed-size chunking.
\<close>

section \<open>State and operations\<close>

record dedup_entry =
  de_fingerprint :: string
  de_block_id :: string
  de_size :: int
  de_reference_count :: int

record dedup_result =
  dr_is_duplicate :: bool
  dr_fingerprint :: string
  dr_existing_block_id :: "string option"
  dr_reference_count :: int

record dedup_stats =
  ds_total_blocks :: int
  ds_unique_blocks :: int
  ds_duplicate_blocks :: int
  ds_bytes_before_dedupe :: int
  ds_bytes_after_dedupe :: int

record dedup_engine =
  dd_min_block_size :: int
  dd_max_block_size :: int
  dd_table :: "(string, dedup_entry) dict"
  dd_stats :: dedup_stats

definition DedupStats :: dedup_stats where
  "DedupStats = \<lparr> ds_total_blocks = 0, ds_unique_blocks = 0, ds_duplicate_blocks = 0,
                  ds_bytes_before_dedupe = 0, ds_bytes_after_dedupe = 0 \<rparr>"

definition dedupe_ratio :: "dedup_stats \<Rightarrow> double" where
  "dedupe_ratio st =
     (if ds_bytes_after_dedupe st = 0 then 1
      else fdiv (of_int (ds_bytes_before_dedupe st)) (of_int (ds_bytes_after_dedupe st)))"

definition DeduplicationEngine :: "int \<Rightarrow> int \<Rightarrow> dedup_engine" where
  "DeduplicationEngine min_block_size max_block_size =
     \<lparr> dd_min_block_size = min_block_size, dd_max_block_size = max_block_size,
       dd_table = [], dd_stats = DedupStats \<rparr>"

definition compute_fingerprint :: "(bytes \<Rightarrow> string) \<Rightarrow> bytes \<Rightarrow> string" where
  "compute_fingerprint sha data = sha data"

definition check_duplicate :: "(bytes \<Rightarrow> string) \<Rightarrow> dedup_engine \<Rightarrow> bytes \<Rightarrow> dedup_result" where
  "check_duplicate sha dd data =
     (let fingerprint = compute_fingerprint sha data
      in case dict_get (dd_table dd) fingerprint of
           Some entry \<Rightarrow>
             \<lparr> dr_is_duplicate = True, dr_fingerprint = fingerprint,
               dr_existing_block_id = Some (de_block_id entry),
               dr_reference_count = de_reference_count entry \<rparr>
         | None \<Rightarrow>
             \<lparr> dr_is_duplicate = False, dr_fingerprint = fingerprint,
               dr_existing_block_id = None, dr_reference_count = 0 \<rparr>)"

definition register_block ::
    "(bytes \<Rightarrow> string) \<Rightarrow> dedup_engine \<Rightarrow> bytes \<Rightarrow> string \<Rightarrow> (string \<times> bool) \<times> dedup_engine" where
  "register_block sha dd data block_id =
     (let fingerprint = compute_fingerprint sha data;
          sz = int (length data);
          st = dd_stats dd;
          st = st\<lparr> ds_total_blocks := ds_total_blocks st + 1,
                   ds_bytes_before_dedupe := ds_bytes_before_dedupe st + sz \<rparr>
      in case dict_get (dd_table dd) fingerprint of
           Some entry \<Rightarrow>
             ((fingerprint, False),
              dd\<lparr> dd_table := dict_set fingerprint
                    (entry\<lparr>de_reference_count := de_reference_count entry + 1\<rparr>) (dd_table dd),
                  dd_stats := st\<lparr>ds_duplicate_blocks := ds_duplicate_blocks st + 1\<rparr> \<rparr>)
         | None \<Rightarrow>
             ((fingerprint, True),
              dd\<lparr> dd_table := dict_set fingerprint
                    \<lparr> de_fingerprint = fingerprint, de_block_id = block_id, de_size = sz,
                      de_reference_count = 1 \<rparr> (dd_table dd),
                  dd_stats := st\<lparr> ds_unique_blocks := ds_unique_blocks st + 1,
                                  ds_bytes_after_dedupe := ds_bytes_after_dedupe st + sz \<rparr> \<rparr>))"

definition dereference_block :: "dedup_engine \<Rightarrow> string \<Rightarrow> int \<times> dedup_engine" where
  "dereference_block dd fingerprint =
     (case dict_get (dd_table dd) fingerprint of
        None \<Rightarrow> (0, dd)
      | Some entry \<Rightarrow>
          let entry = entry\<lparr>de_reference_count := de_reference_count entry - 1\<rparr>;
              st = dd_stats dd
          in if de_reference_count entry \<le> 0 then
               (0, dd\<lparr> dd_table := dict_del fingerprint (dd_table dd),
                       dd_stats := st\<lparr>ds_bytes_after_dedupe :=
                                        ds_bytes_after_dedupe st - de_size entry\<rparr> \<rparr>)
             else (de_reference_count entry,
                   dd\<lparr>dd_table := dict_set fingerprint entry (dd_table dd)\<rparr>))"

definition get_block_id :: "dedup_engine \<Rightarrow> string \<Rightarrow> string option" where
  "get_block_id dd fingerprint = map_option de_block_id (dict_get (dd_table dd) fingerprint)"

definition get_entry :: "dedup_engine \<Rightarrow> string \<Rightarrow> dedup_entry option" where
  "get_entry dd fingerprint = dict_get (dd_table dd) fingerprint"

text \<open>
  The generator \<^verbatim>\<open>chunk_data\<close>, as the list of what it yields; \<open>None\<close> when the loop does not end
  (a block size that is not positive).
\<close>

partial_function (option) chunk_loop ::
    "int \<Rightarrow> bytes \<Rightarrow> int \<Rightarrow> (int \<times> bytes) list option" where
  "chunk_loop min_block_size data offset =
     (if offset < int (length data) then
        let chunk_size = min min_block_size (int (length data) - offset)
        in Option.bind (chunk_loop min_block_size data (offset + chunk_size))
             (\<lambda>rest. Some ((offset, py_slice data offset (offset + chunk_size)) # rest))
      else Some [])"

definition chunk_data :: "dedup_engine \<Rightarrow> bytes \<Rightarrow> (int \<times> bytes) list option" where
  "chunk_data dd data = chunk_loop (dd_min_block_size dd) data 0"

text \<open>\<^verbatim>\<open>get_stats\<close>: the counters, the ratio and the size of the table.\<close>

definition dd_get_stats :: "dedup_engine \<Rightarrow> dedup_stats \<times> double \<times> int" where
  "dd_get_stats dd = (dd_stats dd, dedupe_ratio (dd_stats dd), int (length (dd_table dd)))"

definition dd_clear :: "dedup_engine \<Rightarrow> dedup_engine" where
  "dd_clear dd = dd\<lparr>dd_table := [], dd_stats := DedupStats\<rparr>"

section \<open>Invariant\<close>

text \<open>
  Every entry is stored under its own fingerprint with a positive count; the bytes the engine
  reports as stored are the sizes of the entries; every registration is counted as unique or as
  duplicate; and what came in is at least what is stored.
\<close>

definition dd_inv :: "dedup_engine \<Rightarrow> bool" where
  "dd_inv dd \<longleftrightarrow>
     wf_dict (dd_table dd) \<and>
     (\<forall>fp e. dict_get (dd_table dd) fp = Some e \<longrightarrow>
        de_fingerprint e = fp \<and> 1 \<le> de_reference_count e \<and> 0 \<le> de_size e) \<and>
     ds_bytes_after_dedupe (dd_stats dd) = sum_vals de_size (dd_table dd) \<and>
     ds_total_blocks (dd_stats dd)
       = ds_unique_blocks (dd_stats dd) + ds_duplicate_blocks (dd_stats dd) \<and>
     ds_bytes_after_dedupe (dd_stats dd) \<le> ds_bytes_before_dedupe (dd_stats dd)"

lemma dd_inv_init: "dd_inv (DeduplicationEngine mn mx)"
  by (simp add: dd_inv_def DeduplicationEngine_def DedupStats_def)

lemma dd_inv_register: "dd_inv dd \<Longrightarrow> dd_inv (snd (register_block sha dd data bid))"
  by (auto simp: dd_inv_def register_block_def compute_fingerprint_def Let_def dict_simps
      split: option.splits if_splits) fastforce

lemma dd_inv_dereference:
  assumes "dd_inv dd"
  shows "dd_inv (snd (dereference_block dd fp))"
  using assms
  by (auto simp: dd_inv_def dereference_block_def Let_def dict_simps
      split: option.splits if_splits) fastforce+

lemma dd_inv_clear: "dd_inv (dd_clear dd)"
  by (simp add: dd_inv_def dd_clear_def DedupStats_def)

section \<open>The table as a multiset of references\<close>

definition ref_count :: "dedup_engine \<Rightarrow> string \<Rightarrow> nat" where
  "ref_count dd fp =
     (case dict_get (dd_table dd) fp of None \<Rightarrow> 0 | Some e \<Rightarrow> nat (de_reference_count e))"

definition references :: "dedup_engine \<Rightarrow> string multiset" where
  "references dd =
     sum_list (map (\<lambda>(fp, e). replicate_mset (nat (de_reference_count e)) fp) (dd_table dd))"

lemma count_sum_replicate:
  "wf_dict d \<Longrightarrow>
   count (sum_list (map (\<lambda>(fp, e). replicate_mset (f e) fp) d)) k
   = (case dict_get d k of None \<Rightarrow> 0 | Some e \<Rightarrow> f e)"
proof (induction d)
  case (Cons p d)
  obtain fp e where p: "p = (fp, e)" by (cases p)
  have "fp = k \<Longrightarrow> dict_get d k = None" using Cons.prems p by (auto simp: wf_dict_def map_of_eq_None_iff)
  moreover have "wf_dict d" using Cons.prems by (simp add: wf_dict_def)
  ultimately show ?case using Cons.IH p by auto
qed simp

lemma count_references: "dd_inv dd \<Longrightarrow> count (references dd) fp = ref_count dd fp"
  by (simp add: references_def ref_count_def count_sum_replicate dd_inv_def split: option.split)

lemma ref_count_register:
  "dd_inv dd \<Longrightarrow> ref_count (snd (register_block sha dd data bid)) fp
   = (if fp = sha data then Suc (ref_count dd fp) else ref_count dd fp)"
  by (force simp: ref_count_def register_block_def compute_fingerprint_def Let_def dd_inv_def
      split: option.splits)

lemma ref_count_dereference:
  "dd_inv dd \<Longrightarrow> ref_count (snd (dereference_block dd fp)) fp'
   = (if fp' = fp then ref_count dd fp - 1 else ref_count dd fp')"
  by (auto simp: ref_count_def dereference_block_def Let_def split: option.splits)

lemma dereference_result: "dd_inv dd \<Longrightarrow> fst (dereference_block dd fp) = int (ref_count dd fp - 1)"
  by (auto simp: ref_count_def dereference_block_def Let_def dd_inv_def nat_diff_distrib
      split: option.splits)

text \<open>
  C6. The deduplication table refines a multiset of fingerprints: registering a block adds one
  occurrence of its fingerprint, dereferencing removes one (nothing for an unknown fingerprint)
  and returns how many remain, and the answer "new block" is given exactly for a fingerprint that
  had no reference.
\<close>

theorem dedup_refines_multiset:
  assumes "dd_inv dd"
  shows "references (snd (register_block sha dd data bid)) = add_mset (sha data) (references dd) \<and>
         fst (register_block sha dd data bid) = (sha data, sha data \<notin># references dd) \<and>
         references (snd (dereference_block dd fp)) = references dd - {#fp#} \<and>
         fst (dereference_block dd fp) = int (count (references dd - {#fp#}) fp)"
proof (intro conjI)
  show "references (snd (register_block sha dd data bid)) = add_mset (sha data) (references dd)"
    using assms by (intro multiset_eqI)
      (simp add: count_references dd_inv_register ref_count_register)
  have "sha data \<in># references dd \<longleftrightarrow> dict_get (dd_table dd) (sha data) \<noteq> None"
    using assms count_references[OF assms, of "sha data"]
    by (fastforce simp: ref_count_def dd_inv_def simp flip: count_greater_zero_iff
        split: option.splits)
  then show "fst (register_block sha dd data bid) = (sha data, sha data \<notin># references dd)"
    by (auto simp: register_block_def compute_fingerprint_def Let_def split: option.split)
  show "references (snd (dereference_block dd fp)) = references dd - {#fp#}"
    using assms by (intro multiset_eqI)
      (simp add: count_references dd_inv_dereference ref_count_dereference)
  show "fst (dereference_block dd fp) = int (count (references dd - {#fp#}) fp)"
    using assms by (simp add: dereference_result count_references)
qed

theorem dedup_refines_multiset_witness:
  "references (snd (register_block (\<lambda>d. replicate (length d) CHR ''x'')
     (DeduplicationEngine 4 8) [1, 2] ''b'')) = {#''xx''#}"
proof -
  have "references (DeduplicationEngine 4 8) = {#}"
    by (simp add: references_def DeduplicationEngine_def)
  then show ?thesis
    using dedup_refines_multiset [OF dd_inv_init, of "\<lambda>d. replicate (length d) CHR ''x''" 4 8 "[1, 2]"]
    by (simp add: numeral_2_eq_2)
qed

text \<open>The calls that change the engine, in any order.\<close>

datatype dedup_call = Register bytes string | Dereference string | Clear

fun dedup_apply :: "(bytes \<Rightarrow> string) \<Rightarrow> dedup_engine \<Rightarrow> dedup_call \<Rightarrow> dedup_engine" where
  "dedup_apply sha dd (Register data bid) = snd (register_block sha dd data bid)"
| "dedup_apply sha dd (Dereference fp) = snd (dereference_block dd fp)"
| "dedup_apply sha dd Clear = dd_clear dd"

definition dedup_run :: "(bytes \<Rightarrow> string) \<Rightarrow> int \<Rightarrow> int \<Rightarrow> dedup_call list \<Rightarrow> dedup_engine" where
  "dedup_run sha mn mx calls = foldl (dedup_apply sha) (DeduplicationEngine mn mx) calls"

lemma dd_inv_apply: "dd_inv dd \<Longrightarrow> dd_inv (dedup_apply sha dd c)"
  by (cases c) (simp_all add: dd_inv_register dd_inv_dereference dd_inv_clear)

lemma dd_inv_run: "dd_inv dd \<Longrightarrow> dd_inv (foldl (dedup_apply sha) dd calls)"
  by (induction calls arbitrary: dd) (simp_all add: dd_inv_apply)

text \<open>
  C28. Counters: after any sequence of registrations and dereferences of a new engine the bytes
  reported as stored are the sizes of the blocks in the table and never exceed the bytes that came
  in, so the reported deduplication ratio is at least 1.
\<close>

theorem dedup_counters_consistent:
  "let dd = dedup_run sha mn mx calls; st = dd_stats dd
   in ds_bytes_after_dedupe st = sum_vals de_size (dd_table dd) \<and>
      ds_bytes_after_dedupe st \<le> ds_bytes_before_dedupe st \<and> 1 \<le> dedupe_ratio st"
proof -
  let ?dd = "dedup_run sha mn mx calls"
  have inv: "dd_inv ?dd" unfolding dedup_run_def by (intro dd_inv_run dd_inv_init)
  then have "0 \<le> ds_bytes_after_dedupe (dd_stats ?dd)"
    by (auto simp: dd_inv_def intro!: sum_vals_nonneg_get)
  then have "1 \<le> dedupe_ratio (dd_stats ?dd)"
    using inv by (auto simp: dedupe_ratio_def dd_inv_def intro!: fdiv_ge_1)
  with inv show ?thesis by (simp add: dd_inv_def Let_def)
qed

section \<open>Chunking\<close>

text \<open>The chunks tile the data from an offset on.\<close>

definition tiles :: "bytes \<Rightarrow> nat \<Rightarrow> nat \<Rightarrow> (int \<times> bytes) list \<Rightarrow> bool" where
  "tiles data mbs off cs \<longleftrightarrow>
     concat (map snd cs) = drop off data \<and>
     (\<forall>(o', c) \<in> set cs. int off \<le> o' \<and> c \<noteq> [] \<and> length c \<le> mbs \<and>
        c = take (length c) (drop (nat o') data))"

lemma chunk_loop_tiles:
  assumes "0 < mbs"
  shows "\<exists>cs. chunk_loop (int mbs) data (int off) = Some cs \<and> tiles data mbs off cs"
proof (induction "length data - off" arbitrary: off rule: less_induct)
  case less
  show ?case
  proof (cases "off < length data")
    case False
    then have "chunk_loop (int mbs) data (int off) = Some []" by (subst chunk_loop.simps) simp
    with False show ?thesis by (intro exI[of _ "[]"]) (simp add: tiles_def)
  next
    case True
    define k where "k = min mbs (length data - off)"
    have k: "0 < k" "k \<le> mbs" "k \<le> length data - off" using True assms by (auto simp: k_def)
    have step: "min (int mbs) (int (length data) - int off) = int k"
      using True by (simp add: k_def)
    have "length data - (off + k) < length data - off" using True k by linarith
    then obtain cs where cs: "chunk_loop (int mbs) data (int (off + k)) = Some cs"
      and t: "tiles data mbs (off + k) cs"
      using less(1)[of "off + k"] by blast
    let ?c = "take k (drop off data)"
    have lc: "length ?c = k" using k by simp
    have slice: "py_slice data (int off) (int off + int k) = ?c"
      using py_slice_nat[of data off "off + k"] by simp
    have "chunk_loop (int mbs) data (int off) = Some ((int off, ?c) # cs)"
      using True cs by (subst chunk_loop.simps) (simp add: step slice Let_def)
    moreover have "tiles data mbs off ((int off, ?c) # cs)"
      unfolding tiles_def
    proof (intro conjI)
      show "concat (map snd ((int off, ?c) # cs)) = drop off data"
        using t by (simp add: tiles_def add.commute flip: drop_drop)
      show "\<forall>(o', c) \<in> set ((int off, ?c) # cs). int off \<le> o' \<and> c \<noteq> [] \<and> length c \<le> mbs \<and>
              c = take (length c) (drop (nat o') data)"
        using t k lc by (fastforce simp: tiles_def)
    qed
    ultimately show ?thesis by blast
  qed
qed

text \<open>
  For a positive block size \<^verbatim>\<open>chunk_data\<close> terminates, its chunks are non-empty, at most the
  block size long and cut out of the data at the offset they are labelled with, and together they
  are the data.
\<close>

lemma chunk_data_partitions:
  assumes "0 < dd_min_block_size dd"
  shows "\<exists>cs. chunk_data dd data = Some cs \<and> concat (map snd cs) = data \<and>
           (\<forall>(off, c) \<in> set cs. c \<noteq> [] \<and> int (length c) \<le> dd_min_block_size dd \<and>
              c = take (length c) (drop (nat off) data))"
proof -
  let ?m = "nat (dd_min_block_size dd)"
  obtain cs where cs: "chunk_loop (int ?m) data (int 0) = Some cs" and t: "tiles data ?m 0 cs"
    using chunk_loop_tiles[of ?m data 0] assms by auto
  have "chunk_data dd data = Some cs" using cs assms by (simp add: chunk_data_def)
  moreover have "concat (map snd cs) = data" using t by (simp add: tiles_def)
  moreover have "\<forall>(off, c) \<in> set cs. c \<noteq> [] \<and> int (length c) \<le> dd_min_block_size dd \<and>
              c = take (length c) (drop (nat off) data)"
    using t assms by (fastforce simp: tiles_def)
  ultimately show ?thesis by blast
qed

end
