(* ===== verification/Storage_Backend.thy ===== *)
theory Storage_Backend
  imports Config
begin

text \<open>
  \<^verbatim>\<open>storage/backend.py\<close> and \<^verbatim>\<open>storage/file_backend.py\<close>. The abstract base class is a record of operations
  over a state type, and the locale \<open>storage_backend\<close> states what its clients may rely on: a store
  of reference-counted blocks. \<^verbatim>\<open>FileBackend\<close> keeps a data file and a JSON metadata file per block;
  its state here is the two directory trees (the file system is \<open>pathlib\<close>'s, a file is found by
  its path), and the interpretation at the end shows that it satisfies the contract. Failing disks
  and files changed by others are not modelled.
\<close>

section \<open>The abstract backend\<close>

record block_info =
  bi_block_id :: string
  bi_offset :: int
  bi_size :: int
  bi_checksum :: string
  bi_compressed :: bool
  bi_deduplicated :: bool
  bi_reference_count :: int

record 'b backend_ops =
  be_initialize :: "'b \<Rightarrow> 'b"
  be_shutdown :: "'b \<Rightarrow> 'b"
  be_write_block :: "string \<Rightarrow> bytes \<Rightarrow> 'b \<Rightarrow> block_info \<times> 'b"
  be_read_block :: "string \<Rightarrow> 'b \<Rightarrow> ('b, bytes) outcome"
  be_delete_block :: "string \<Rightarrow> 'b \<Rightarrow> bool \<times> 'b"
  be_block_exists :: "string \<Rightarrow> 'b \<Rightarrow> bool"
  be_get_block_info :: "string \<Rightarrow> 'b \<Rightarrow> block_info option"
  be_list_blocks :: "'b \<Rightarrow> string list"

text \<open>
  The contract: \<open>stored b\<close> maps a block id to its bytes and the number of references to it. A new
  id is stored with one reference; writing the same bytes again adds one; deleting takes one away
  and removes the block with the last; reading returns the bytes or raises KeyError.
\<close>

locale storage_backend =
  fixes ops :: "'b backend_ops"
    and binv :: "'b \<Rightarrow> bool"
    and stored :: "'b \<Rightarrow> string \<Rightarrow> (bytes \<times> int) option"
  assumes write_new:
      "binv b \<Longrightarrow> stored b bid = None \<Longrightarrow> be_write_block ops bid data b = (info, b') \<Longrightarrow>
       binv b' \<and> stored b' = (stored b)(bid \<mapsto> (data, 1))"
    and write_again:
      "binv b \<Longrightarrow> stored b bid = Some (data, n) \<Longrightarrow> be_write_block ops bid data b = (info, b') \<Longrightarrow>
       binv b' \<and> stored b' = (stored b)(bid \<mapsto> (data, n + 1))"
    and read:
      "binv b \<Longrightarrow> be_read_block ops bid b = (r, b') \<Longrightarrow>
       binv b' \<and> stored b' = stored b \<and>
       r = (case stored b bid of
              None \<Rightarrow> Inl (KeyError ''Block not found'') | Some (data, n) \<Rightarrow> Inr data)"
    and delete_missing:
      "binv b \<Longrightarrow> stored b bid = None \<Longrightarrow> be_delete_block ops bid b = (ok, b') \<Longrightarrow>
       \<not> ok \<and> binv b' \<and> stored b' = stored b"
    and delete_present:
      "binv b \<Longrightarrow> stored b bid = Some (data, n) \<Longrightarrow> be_delete_block ops bid b = (ok, b') \<Longrightarrow>
       ok \<and> binv b' \<and>
       stored b' = (stored b)(bid := if n \<le> 1 then None else Some (data, n - 1))"
    and stored_count: "binv b \<Longrightarrow> stored b bid = Some (data, n) \<Longrightarrow> 1 \<le> n"
begin

lemma read_after_write:
  assumes "binv b" and "stored b bid = None" and "be_write_block ops bid data b = (info, b')"
  shows "fst (be_read_block ops bid b') = Inr data"
  using write_new[OF assms] read[of b' bid] by (cases "be_read_block ops bid b'") auto

lemma read_other_after_write:
  assumes "binv b" and "stored b bid = None" and "be_write_block ops bid data b = (info, b')"
    and "bid' \<noteq> bid"
  shows "fst (be_read_block ops bid' b') = fst (be_read_block ops bid' b)"
  using write_new[OF assms(1-3)] read[of b' bid'] read[OF assms(1), of bid'] assms(4)
  by (cases "be_read_block ops bid' b'"; cases "be_read_block ops bid' b") auto

lemma delete_stored:
  assumes "binv b" and "be_delete_block ops bid b = (ok, b')"
  shows "binv b' \<and> (\<forall>bid'. bid' \<noteq> bid \<longrightarrow> stored b' bid' = stored b bid')"
proof (cases "stored b bid")
  case None
  then show ?thesis using delete_missing[OF assms(1) None assms(2)] by simp
next
  case (Some p)
  obtain d n where "p = (d, n)" by (cases p)
  with Some delete_present[OF assms(1) _ assms(2), of d n] show ?thesis by simp
qed

end

section \<open>The file backend\<close>

type_synonym path = "string \<times> string"

record backend_stats =
  bs_blocks_written :: int
  bs_blocks_read :: int
  bs_blocks_deleted :: int
  bs_bytes_written :: int
  bs_bytes_read :: int

record file_backend =
  fb_initialized :: bool
  fb_data_files :: "(path, bytes) dict"
  fb_metadata_files :: "(path, block_info) dict"
  fb_stats :: backend_stats

definition FileBackend :: file_backend where
  "FileBackend =
     \<lparr> fb_initialized = False, fb_data_files = [], fb_metadata_files = [],
       fb_stats = \<lparr> bs_blocks_written = 0, bs_blocks_read = 0, bs_blocks_deleted = 0,
                    bs_bytes_written = 0, bs_bytes_read = 0 \<rparr> \<rparr>"

definition fb_initialize :: "file_backend \<Rightarrow> file_backend" where
  "fb_initialize fb = (if fb_initialized fb then fb else fb\<lparr>fb_initialized := True\<rparr>)"

definition fb_shutdown :: "file_backend \<Rightarrow> file_backend" where
  "fb_shutdown fb = fb\<lparr>fb_initialized := False\<rparr>"

definition block_path :: "string \<Rightarrow> path" where
  "block_path block_id = (if 2 \<le> length block_id then take 2 block_id else ''00'', block_id)"

definition metadata_path :: "string \<Rightarrow> path" where
  "metadata_path block_id =
     (if 2 \<le> length block_id then take 2 block_id else ''00'', block_id @ ''.json'')"

definition fb_get_block_info :: "string \<Rightarrow> file_backend \<Rightarrow> block_info option" where
  "fb_get_block_info block_id fb = dict_get (fb_metadata_files fb) (metadata_path block_id)"

definition write_metadata :: "string \<Rightarrow> block_info \<Rightarrow> file_backend \<Rightarrow> file_backend" where
  "write_metadata block_id info fb =
     fb\<lparr>fb_metadata_files := dict_set (metadata_path block_id) info (fb_metadata_files fb)\<rparr>"

definition fb_write_block ::
    "(bytes \<Rightarrow> string) \<Rightarrow> string \<Rightarrow> bytes \<Rightarrow> file_backend \<Rightarrow> block_info \<times> file_backend" where
  "fb_write_block sha block_id data fb =
     (let checksum = sha data;
          fresh =
            (let fb = fb\<lparr>fb_data_files := dict_set (block_path block_id) data (fb_data_files fb)\<rparr>;
                 info = \<lparr> bi_block_id = block_id, bi_offset = 0, bi_size = int (length data),
                          bi_checksum = checksum, bi_compressed = False, bi_deduplicated = False,
                          bi_reference_count = 1 \<rparr>;
                 fb = write_metadata block_id info fb;
                 st = fb_stats fb
             in (info,
                 fb\<lparr>fb_stats := st\<lparr> bs_blocks_written := bs_blocks_written st + 1,
                                     bs_bytes_written := bs_bytes_written st + int (length data) \<rparr>\<rparr>))
      in case fb_get_block_info block_id fb of
           None \<Rightarrow> fresh
         | Some existing_info \<Rightarrow>
             if bi_checksum existing_info = checksum then
               let existing_info =
                     existing_info\<lparr>bi_reference_count := bi_reference_count existing_info + 1\<rparr>
               in (existing_info, write_metadata block_id existing_info fb)
             else fresh)"

definition fb_read_block :: "string \<Rightarrow> file_backend \<Rightarrow> (file_backend, bytes) outcome" where
  "fb_read_block block_id fb =
     (case dict_get (fb_data_files fb) (block_path block_id) of
        None \<Rightarrow> (Inl (KeyError ''Block not found''), fb)
      | Some data \<Rightarrow>
          let st = fb_stats fb
          in (Inr data,
              fb\<lparr>fb_stats := st\<lparr> bs_blocks_read := bs_blocks_read st + 1,
                                  bs_bytes_read := bs_bytes_read st + int (length data) \<rparr>\<rparr>))"

definition fb_delete_block :: "string \<Rightarrow> file_backend \<Rightarrow> bool \<times> file_backend" where
  "fb_delete_block block_id fb =
     (case fb_get_block_info block_id fb of
        None \<Rightarrow> (False, fb)
      | Some info \<Rightarrow>
          let info = info\<lparr>bi_reference_count := bi_reference_count info - 1\<rparr>
          in if bi_reference_count info \<le> 0 then
               (if \<not> has_key (fb_data_files fb) (block_path block_id) then (False, fb)
                else
                  let st = fb_stats fb
                  in (True,
                      fb\<lparr> fb_data_files := dict_del (block_path block_id) (fb_data_files fb),
                          fb_metadata_files :=
                            dict_del (metadata_path block_id) (fb_metadata_files fb),
                          fb_stats := st\<lparr>bs_blocks_deleted := bs_blocks_deleted st + 1\<rparr> \<rparr>))
             else (True, write_metadata block_id info fb))"

definition fb_block_exists :: "string \<Rightarrow> file_backend \<Rightarrow> bool" where
  "fb_block_exists block_id fb = has_key (fb_data_files fb) (block_path block_id)"

text \<open>The order in which the file system lists a directory is not specified; only sums use it.\<close>

definition fb_list_blocks :: "file_backend \<Rightarrow> string list" where
  "fb_list_blocks fb = map snd (dict_keys (fb_data_files fb))"

definition fb_get_stats :: "file_backend \<Rightarrow> backend_stats \<times> int \<times> int" where
  "fb_get_stats fb =
     (let ids = fb_list_blocks fb
      in (fb_stats fb, int (length ids),
          sum_list (map (\<lambda>b. case fb_get_block_info b fb of None \<Rightarrow> 0 | Some i \<Rightarrow> bi_size i) ids)))"

definition file_backend_ops :: "(bytes \<Rightarrow> string) \<Rightarrow> file_backend backend_ops" where
  "file_backend_ops sha =
     \<lparr> be_initialize = fb_initialize, be_shutdown = fb_shutdown,
       be_write_block = fb_write_block sha, be_read_block = fb_read_block,
       be_delete_block = fb_delete_block, be_block_exists = fb_block_exists,
       be_get_block_info = fb_get_block_info, be_list_blocks = fb_list_blocks \<rparr>"

section \<open>The file backend keeps the contract\<close>

lemma block_path_inject [simp]: "block_path a = block_path b \<longleftrightarrow> a = b"
  by (auto simp: block_path_def)

lemma metadata_path_inject [simp]: "metadata_path a = metadata_path b \<longleftrightarrow> a = b"
  by (auto simp: metadata_path_def)

text \<open>Data and metadata files come in pairs, and the metadata describe the data.\<close>

type_synonym file_pair = "bytes option \<times> block_info option"

definition fb_files :: "file_backend \<Rightarrow> string \<Rightarrow> file_pair" where
  "fb_files fb bid =
     (dict_get (fb_data_files fb) (block_path bid),
      dict_get (fb_metadata_files fb) (metadata_path bid))"

fun pair_ok :: "(bytes \<Rightarrow> string) \<Rightarrow> string \<Rightarrow> file_pair \<Rightarrow> bool" where
  "pair_ok sha bid (None, None) \<longleftrightarrow> True"
| "pair_ok sha bid (Some data, Some info) \<longleftrightarrow>
     bi_block_id info = bid \<and> bi_size info = int (length data) \<and>
     bi_checksum info = sha data \<and> 1 \<le> bi_reference_count info"
| "pair_ok sha bid _ \<longleftrightarrow> False"

fun pair_view :: "file_pair \<Rightarrow> (bytes \<times> int) option" where
  "pair_view (Some data, Some info) = Some (data, bi_reference_count info)"
| "pair_view _ = None"

definition fb_inv :: "(bytes \<Rightarrow> string) \<Rightarrow> file_backend \<Rightarrow> bool" where
  "fb_inv sha fb \<longleftrightarrow> (\<forall>bid. pair_ok sha bid (fb_files fb bid))"

definition fb_stored :: "file_backend \<Rightarrow> string \<Rightarrow> (bytes \<times> int) option" where
  "fb_stored fb bid = pair_view (fb_files fb bid)"

lemma fb_inv_init: "fb_inv sha FileBackend"
  by (simp add: FileBackend_def fb_inv_def fb_files_def)

lemma fb_stored_init: "fb_stored FileBackend bid = None"
  by (simp add: FileBackend_def fb_stored_def fb_files_def)

lemma fb_inv_cases:
  assumes "fb_inv sha fb"
  obtains
    (absent) "fb_files fb bid = (None, None)" "fb_stored fb bid = None"
  | (present) data info where "fb_files fb bid = (Some data, Some info)"
      "fb_stored fb bid = Some (data, bi_reference_count info)"
      "bi_checksum info = sha data" "pair_ok sha bid (Some data, Some info)"
  using assms by (cases "fb_files fb bid"; cases "fst (fb_files fb bid)"; cases "snd (fb_files fb bid)")
    (auto simp: fb_inv_def fb_stored_def dest: spec[of _ bid])

text \<open>An operation that only touches the files of one block.\<close>

lemma fb_files_update:
  assumes "fb_inv sha fb" and "fb_files fb' = (fb_files fb)(bid := p)" and "pair_ok sha bid p"
  shows "fb_inv sha fb' \<and> fb_stored fb' = (fb_stored fb)(bid := pair_view p)"
  using assms by (simp add: fb_inv_def fb_stored_def fun_eq_iff)

lemma fb_files_same:
  "fb_files fb' = fb_files fb \<Longrightarrow> fb_inv sha fb' = fb_inv sha fb \<and> fb_stored fb' = fb_stored fb"
  by (simp add: fb_inv_def fb_stored_def fun_eq_iff)

lemma fb_files_write_metadata:
  "fb_files (write_metadata bid info fb) = (fb_files fb)(bid := (fst (fb_files fb bid), Some info))"
  by (auto simp: fb_files_def write_metadata_def fun_eq_iff)

lemma fb_files_write_new:
  assumes "fb_files fb bid = (None, None)"
  shows "\<exists>info. fb_files (snd (fb_write_block sha bid data fb))
                = (fb_files fb)(bid := (Some data, Some info)) \<and>
              pair_ok sha bid (Some data, Some info) \<and> bi_reference_count info = 1"
  using assms
  by (auto simp: fb_write_block_def fb_get_block_info_def fb_files_def write_metadata_def Let_def
      fun_eq_iff)

lemma fb_write_again_eq:
  assumes "fb_files fb bid = (Some data, Some info)" and "bi_checksum info = sha data"
  shows "snd (fb_write_block sha bid data fb)
         = write_metadata bid (info\<lparr>bi_reference_count := bi_reference_count info + 1\<rparr>) fb"
  using assms by (simp add: fb_write_block_def fb_get_block_info_def fb_files_def Let_def)

lemma fb_files_delete:
  assumes "fb_files fb bid = (Some data, Some info)"
  shows "fst (fb_delete_block bid fb) \<and>
         fb_files (snd (fb_delete_block bid fb)) = (fb_files fb)
           (bid := if bi_reference_count info \<le> 1 then (None, None)
                   else (Some data, Some (info\<lparr>bi_reference_count := bi_reference_count info - 1\<rparr>)))"
  using assms
  by (auto simp: fb_delete_block_def fb_get_block_info_def fb_files_def write_metadata_def
      has_key_def Let_def fun_eq_iff)

lemma fb_write_new:
  assumes "fb_inv sha fb" and "fb_stored fb bid = None"
    and "fb_write_block sha bid data fb = (info, fb')"
  shows "fb_inv sha fb' \<and> fb_stored fb' = (fb_stored fb)(bid \<mapsto> (data, 1))"
  using assms(1)
proof (cases rule: fb_inv_cases [where bid = bid])
  case absent
  from fb_files_write_new[OF absent(1), of sha data] show ?thesis
    using assms(1,3) fb_files_update[OF assms(1)] by force
next
  case present
  then show ?thesis using assms(2) by simp
qed

lemma fb_write_again:
  assumes "fb_inv sha fb" and "fb_stored fb bid = Some (data, n)"
    and "fb_write_block sha bid data fb = (info, fb')"
  shows "fb_inv sha fb' \<and> fb_stored fb' = (fb_stored fb)(bid \<mapsto> (data, n + 1))"
  using assms(1)
proof (cases rule: fb_inv_cases [where bid = bid])
  case absent
  then show ?thesis using assms(2) by simp
next
  case (present d i)
  then have "d = data" "bi_reference_count i = n" using assms(2) by auto
  then have "fb_files fb' = (fb_files fb)(bid := (Some data, Some (i\<lparr>bi_reference_count := n + 1\<rparr>)))"
    using fb_write_again_eq[of fb bid data i sha] present assms(3) by (simp add: fb_files_write_metadata)
  from fb_files_update[OF assms(1) this] show ?thesis using present \<open>d = data\<close> \<open>_ = n\<close> by simp
qed

lemma fb_read:
  assumes "fb_inv sha fb" and "fb_read_block bid fb = (r, fb')"
  shows "fb_inv sha fb' \<and> fb_stored fb' = fb_stored fb \<and>
         r = (case fb_stored fb bid of
                None \<Rightarrow> Inl (KeyError ''Block not found'') | Some (data, n) \<Rightarrow> Inr data)"
proof -
  have "fb_files fb' = fb_files fb"
    using assms(2) by (auto simp: fb_read_block_def fb_files_def Let_def fun_eq_iff split: option.splits)
  moreover have "r = (case fst (fb_files fb bid) of
                        None \<Rightarrow> Inl (KeyError ''Block not found'') | Some data \<Rightarrow> Inr data)"
    using assms(2) by (auto simp: fb_read_block_def fb_files_def Let_def split: option.splits)
  moreover note fb_files_same[of fb' fb sha] assms(1)
  ultimately show ?thesis by (cases rule: fb_inv_cases [OF assms(1), where bid = bid]) auto
qed

lemma fb_delete_missing:
  assumes "fb_inv sha fb" and "fb_stored fb bid = None" and "fb_delete_block bid fb = (ok, fb')"
  shows "\<not> ok \<and> fb_inv sha fb' \<and> fb_stored fb' = fb_stored fb"
  using assms(1)
  by (cases rule: fb_inv_cases [where bid = bid])
     (use assms in \<open>auto simp: fb_delete_block_def fb_get_block_info_def fb_files_def\<close>)

lemma fb_delete_present:
  assumes "fb_inv sha fb" and "fb_stored fb bid = Some (data, n)"
    and "fb_delete_block bid fb = (ok, fb')"
  shows "ok \<and> fb_inv sha fb' \<and>
         fb_stored fb' = (fb_stored fb)(bid := if n \<le> 1 then None else Some (data, n - 1))"
  using assms(1)
proof (cases rule: fb_inv_cases [where bid = bid])
  case absent
  then show ?thesis using assms(2) by simp
next
  case (present d i)
  then have d: "d = data" "bi_reference_count i = n" using assms(2) by auto
  note del = fb_files_delete[OF present(1)]
  show ?thesis
    using del fb_files_update[OF assms(1) conjunct2[OF del]] assms(3) present(4) d
    by (cases "n \<le> 1") auto
qed

lemma fb_stored_count: "fb_inv sha fb \<Longrightarrow> fb_stored fb bid = Some (data, n) \<Longrightarrow> 1 \<le> n"
  by (cases rule: fb_inv_cases [where bid = bid]) auto

interpretation fb: storage_backend "file_backend_ops sha" "fb_inv sha" fb_stored for sha
  by (unfold_locales, unfold file_backend_ops_def backend_ops.select_convs)
     (fact fb_write_new fb_write_again fb_read fb_delete_missing fb_delete_present fb_stored_count)+

section \<open>Runs of the file backend\<close>

datatype backend_call = WriteBlock string bytes | ReadBlock string | DeleteBlock string

datatype backend_answer = Wrote | ReadResult "bytes result" | Deleted bool

fun fb_call ::
    "(bytes \<Rightarrow> string) \<Rightarrow> backend_call \<Rightarrow> file_backend \<Rightarrow> backend_answer \<times> file_backend" where
  "fb_call sha (WriteBlock bid data) fb = (case fb_write_block sha bid data fb of (_, fb') \<Rightarrow> (Wrote, fb'))"
| "fb_call sha (ReadBlock bid) fb = (case fb_read_block bid fb of (r, fb') \<Rightarrow> (ReadResult r, fb'))"
| "fb_call sha (DeleteBlock bid) fb = (case fb_delete_block bid fb of (ok, fb') \<Rightarrow> (Deleted ok, fb'))"

fun fb_run :: "(bytes \<Rightarrow> string) \<Rightarrow> backend_call list \<Rightarrow> file_backend \<Rightarrow> backend_answer list \<times> file_backend" where
  "fb_run sha [] fb = ([], fb)"
| "fb_run sha (c # cs) fb =
     (let (a, fb) = fb_call sha c fb; (as, fb) = fb_run sha cs fb in (a # as, fb))"

text \<open>The specification: a reference-counted map.\<close>

fun spec_call ::
    "backend_call \<Rightarrow> (string \<rightharpoonup> bytes \<times> int) \<Rightarrow> backend_answer \<times> (string \<rightharpoonup> bytes \<times> int)" where
  "spec_call (WriteBlock bid data) m =
     (Wrote, m(bid \<mapsto> (data, case m bid of
                              Some (d, n) \<Rightarrow> if d = data then n + 1 else 1 | None \<Rightarrow> 1)))"
| "spec_call (ReadBlock bid) m =
     (ReadResult (case m bid of None \<Rightarrow> Inl (KeyError ''Block not found'') | Some (d, n) \<Rightarrow> Inr d), m)"
| "spec_call (DeleteBlock bid) m =
     (case m bid of
        None \<Rightarrow> (Deleted False, m)
      | Some (d, n) \<Rightarrow> (Deleted True, m(bid := if n \<le> 1 then None else Some (d, n - 1))))"

fun spec_run ::
    "backend_call list \<Rightarrow> (string \<rightharpoonup> bytes \<times> int) \<Rightarrow> backend_answer list \<times> (string \<rightharpoonup> bytes \<times> int)" where
  "spec_run [] m = ([], m)"
| "spec_run (c # cs) m = (let (a, m) = spec_call c m; (as, m) = spec_run cs m in (a # as, m))"

fun written :: "backend_call \<Rightarrow> bytes set" where
  "written (WriteBlock bid data) = {data}"
| "written _ = {}"

lemma fb_write_other:
  assumes "fb_inv sha fb" and "fb_stored fb bid = Some (d, n)" and "sha d \<noteq> sha data"
    and "fb_write_block sha bid data fb = (info, fb')"
  shows "fb_inv sha fb' \<and> fb_stored fb' = (fb_stored fb)(bid \<mapsto> (data, 1))"
  using assms(1)
proof (cases rule: fb_inv_cases [where bid = bid])
  case absent
  then show ?thesis using assms(2) by simp
next
  case (present d' i)
  then have "fb_files fb' = (fb_files fb)(bid := (Some data, Some
        \<lparr> bi_block_id = bid, bi_offset = 0, bi_size = int (length data), bi_checksum = sha data,
          bi_compressed = False, bi_deduplicated = False, bi_reference_count = 1 \<rparr>))"
    using assms(2-4)
    by (auto simp: fb_write_block_def fb_get_block_info_def fb_files_def write_metadata_def
        Let_def fun_eq_iff)
  from fb_files_update[OF assms(1) this] show ?thesis by simp
qed

text \<open>One call: the same answer, and the abstraction is kept.\<close>

lemma fb_call_refines:
  assumes "fb_inv sha fb" and "\<And>bid d n. fb_stored fb bid = Some (d, n) \<Longrightarrow> d \<in> U"
    and "written c \<subseteq> U" and "inj_on sha U" and "fb_call sha c fb = (a, fb')"
  shows "fb_inv sha fb' \<and> spec_call c (fb_stored fb) = (a, fb_stored fb')"
proof (cases c)
  case (WriteBlock bid data)
  obtain info where w: "fb_write_block sha bid data fb = (info, fb')" and a: "a = Wrote"
    using assms(5) WriteBlock by (auto split: prod.splits)
  show ?thesis
  proof (cases "fb_stored fb bid")
    case None
    then show ?thesis using fb_write_new[OF assms(1) None w] WriteBlock a by simp
  next
    case (Some p)
    obtain d n where p: "p = (d, n)" by (cases p)
    show ?thesis
    proof (cases "d = data")
      case True
      then show ?thesis using fb_write_again[OF assms(1) _ w, of n] Some p WriteBlock a by simp
    next
      case False
      then have "sha d \<noteq> sha data"
        using assms(2)[of bid d n] assms(3,4) Some p WriteBlock by (auto dest: inj_onD)
      then show ?thesis
        using fb_write_other[OF assms(1) _ _ w, of d n] Some p False WriteBlock a by simp
    qed
  qed
next
  case (ReadBlock bid)
  obtain r where r: "fb_read_block bid fb = (r, fb')" and a: "a = ReadResult r"
    using assms(5) ReadBlock by (auto split: prod.splits)
  show ?thesis using fb_read[OF assms(1) r] ReadBlock a by simp
next
  case (DeleteBlock bid)
  obtain ok where d: "fb_delete_block bid fb = (ok, fb')" and a: "a = Deleted ok"
    using assms(5) DeleteBlock by (auto split: prod.splits)
  show ?thesis
  proof (cases "fb_stored fb bid")
    case None
    then show ?thesis using fb_delete_missing[OF assms(1) None d] DeleteBlock a by simp
  next
    case (Some p)
    obtain x n where p: "p = (x, n)" by (cases p)
    show ?thesis using fb_delete_present[OF assms(1) _ d, of x n] Some p DeleteBlock a by simp
  qed
qed

lemma spec_call_stored:
  assumes "spec_call c m = (a, m')" and "m' bid = Some (d, n)"
    and "\<And>bid d n. m bid = Some (d, n) \<Longrightarrow> d \<in> U" and "written c \<subseteq> U"
  shows "d \<in> U"
  using assms by (cases c) (auto split: if_splits option.splits)

lemma fb_run_refines:
  assumes "fb_inv sha fb" and "\<And>bid d n. fb_stored fb bid = Some (d, n) \<Longrightarrow> d \<in> U"
    and "\<Union> (written ` set cs) \<subseteq> U" and "inj_on sha U" and "fb_run sha cs fb = (as, fb')"
  shows "fb_inv sha fb' \<and> spec_run cs (fb_stored fb) = (as, fb_stored fb')"
  using assms(1-3,5)
proof (induction cs arbitrary: fb as fb')
  case (Cons c cs)
  obtain a fb1 where c: "fb_call sha c fb = (a, fb1)" by (cases "fb_call sha c fb")
  obtain as1 fb2 where r: "fb_run sha cs fb1 = (as1, fb2)" by (cases "fb_run sha cs fb1")
  have one: "fb_inv sha fb1 \<and> spec_call c (fb_stored fb) = (a, fb_stored fb1)"
    using fb_call_refines[OF Cons.prems(1,2) _ assms(4) c] Cons.prems(3) by simp
  have "d \<in> U" if "fb_stored fb1 bid = Some (d, n)" for bid d n
    using spec_call_stored[of c "fb_stored fb" a "fb_stored fb1"] one that Cons.prems(2,3) by auto
  then have "fb_inv sha fb2 \<and> spec_run cs (fb_stored fb1) = (as1, fb_stored fb2)"
    using Cons.IH[OF conjunct1[OF one] _ _ r] Cons.prems(3) by simp
  then show ?case using one c r Cons.prems(4) by simp
qed simp

text \<open>
  C7. \<^verbatim>\<open>FileBackend\<close> implements the contract of \<^verbatim>\<open>StorageBackend\<close>: over any sequence of calls on a
  fresh directory it behaves as a map from block ids to bytes with a reference count. The
  specification machine and the file backend run side by side: same answers, and the files always
  hold what the machine holds.
\<close>

theorem file_backend_refines_spec:
  assumes "inj_on sha (\<Union> (written ` set calls))"
    and "fb_run sha calls FileBackend = (answers, fb)"
  shows "spec_run calls (\<lambda>_. None) = (answers, fb_stored fb)"
proof -
  have "fb_stored FileBackend = (\<lambda>_. None)" by (rule ext) (rule fb_stored_init)
  then show ?thesis
    using fb_run_refines[OF fb_inv_init _ order_refl assms] fb_stored_init by simp
qed

theorem file_backend_refines_spec_witness:
  "fst (fb_run (\<lambda>d. replicate (length d) CHR ''x'')
     [WriteBlock ''id1'' [1], WriteBlock ''id1'' [1], DeleteBlock ''id1'', ReadBlock ''id1'']
     FileBackend)
   = [Wrote, Wrote, Deleted True, ReadResult (Inr [1])]"
proof -
  let ?sha = "\<lambda>d :: bytes. replicate (length d) CHR ''x''"
  define cs where
    "cs = [WriteBlock ''id1'' [1], WriteBlock ''id1'' [1], DeleteBlock ''id1'', ReadBlock ''id1'']"
  have "inj_on ?sha (\<Union> (written ` set cs))" by (simp add: cs_def)
  from file_backend_refines_spec [OF this, of "fst (fb_run ?sha cs FileBackend)"
      "snd (fb_run ?sha cs FileBackend)"]
  have "fst (fb_run ?sha cs FileBackend) = fst (spec_run cs (\<lambda>_. None))" by simp
  also have "\<dots> = [Wrote, Wrote, Deleted True, ReadResult (Inr [1])]" by (simp add: cs_def)
  finally show ?thesis by (simp only: cs_def)
qed

end
