(* ===== verification/Purity_Engine.thy ===== *)
theory Purity_Engine
  imports Pattern_Removal Compression Deduplication Storage_Backend
begin

text \<open>
  \<^verbatim>\<open>purity/engine.py\<close>, the reduction pipeline: pattern removal, deduplication, compression, storage.
  The engine is generic in its backend, as the source is: its operations take the record of
  backend operations, and what is proved about it is proved in the locale \<open>storage_backend\<close>. A new
  block id (\<^verbatim>\<open>uuid.uuid4()\<close>) is an argument. The main result: as long as the caller holds a
  reference that the engine returned, retrieving the block gives the data that were stored.
\<close>

section \<open>State and operations\<close>

record reduction_result =
  rr_block_id :: string
  rr_original_size :: int
  rr_stored_size :: int
  rr_reduction_ratio :: double
  rr_pattern_result :: pattern_result
  rr_dedupe_result :: dedup_result
  rr_compression_result :: "compression_result option"
  rr_was_pattern_reduced :: bool
  rr_was_deduplicated :: bool
  rr_was_compressed :: bool

record reduction_stats =
  rs_total_bytes_in :: int
  rs_total_bytes_stored :: int
  rs_pattern_bytes_saved :: int
  rs_dedupe_bytes_saved :: int
  rs_compression_bytes_saved :: int

definition ReductionStats :: reduction_stats where
  "ReductionStats = \<lparr> rs_total_bytes_in = 0, rs_total_bytes_stored = 0, rs_pattern_bytes_saved = 0,
                      rs_dedupe_bytes_saved = 0, rs_compression_bytes_saved = 0 \<rparr>"

definition total_reduction_ratio :: "reduction_stats \<Rightarrow> double" where
  "total_reduction_ratio st =
     (if rs_total_bytes_stored st = 0 then 1
      else fdiv (of_int (rs_total_bytes_in st)) (of_int (rs_total_bytes_stored st)))"

record 'b purity_engine =
  pe_settings :: settings
  pe_backend :: 'b
  pe_pattern_removal :: pattern_removal
  pe_deduplication :: dedup_engine
  pe_compression :: compression_engine
  pe_stats :: reduction_stats

definition PurityEngine :: "'b \<Rightarrow> settings \<Rightarrow> 'b purity_engine result" where
  "PurityEngine backend cfg =
     (case CompressionEngine (cfg_compression_algorithm cfg) (cfg_compression_level cfg)
             default_min_ratio of
        Inl e \<Rightarrow> Inl e
      | Inr ce \<Rightarrow>
          Inr \<lparr> pe_settings = cfg, pe_backend = backend,
                pe_pattern_removal = PatternRemoval (cfg_default_block_size cfg),
                pe_deduplication =
                  DeduplicationEngine (cfg_dedupe_block_size_min cfg) (cfg_dedupe_block_size_max cfg),
                pe_compression = ce, pe_stats = ReductionStats \<rparr>)"

text \<open>Stage 1 of \<^verbatim>\<open>reduce_and_store\<close>: pattern removal. The result is the data to go on with.\<close>

definition pattern_stage ::
    "bytes \<Rightarrow> 'b purity_engine
     \<Rightarrow> ('b purity_engine, pattern_result \<times> bytes \<times> bool) outcome" where
  "pattern_stage data pe =
     (case analyze (pe_pattern_removal pe) data of (res, pr) \<Rightarrow>
        let pe = pe\<lparr>pe_pattern_removal := pr\<rparr>
        in if cfg_pattern_removal_enabled (pe_settings pe) \<and>
              (is_zero_block res \<or> is_repeated_pattern res) then
             (case encode pr data of
                (Inl e, pr) \<Rightarrow> (Inl e, pe\<lparr>pe_pattern_removal := pr\<rparr>)
              | (Inr (enc, reduced), pr) \<Rightarrow>
                  let st = pe_stats pe
                  in (Inr (res, enc, reduced),
                      pe\<lparr> pe_pattern_removal := pr,
                          pe_stats := if reduced
                            then st\<lparr>rs_pattern_bytes_saved := rs_pattern_bytes_saved st
                                      + (int (length data) - int (length enc))\<rparr>
                            else st \<rparr>))
           else (Inr (res, data, False), pe))"

text \<open>Stage 3: compression of a block that is neither a pattern nor a duplicate.\<close>

definition compression_stage ::
    "codecs \<Rightarrow> bytes \<Rightarrow> bool \<Rightarrow> 'b purity_engine
     \<Rightarrow> ('b purity_engine, bytes \<times> compression_result option) outcome" where
  "compression_stage cdc current_data was_pattern_reduced pe =
     (if cfg_compression_enabled (pe_settings pe) \<and> \<not> was_pattern_reduced then
        (case compress cdc (pe_compression pe) current_data of
           (Inl e, ce) \<Rightarrow> (Inl e, pe\<lparr>pe_compression := ce\<rparr>)
         | (Inr (out, res), ce) \<Rightarrow>
             let st = pe_stats pe
             in (Inr (out, Some res),
                 pe\<lparr> pe_compression := ce,
                     pe_stats := if cr_was_compressed res
                       then st\<lparr>rs_compression_bytes_saved := rs_compression_bytes_saved st
                                 + (cr_original_size res - cr_compressed_size res)\<rparr>
                       else st \<rparr>))
      else (Inr (current_data, None), pe))"

definition reduction_ratio_of :: "nat \<Rightarrow> nat \<Rightarrow> double" where
  "reduction_ratio_of original_size effective_stored =
     (if 0 < effective_stored then fdiv (of_nat original_size) (of_nat effective_stored)
      else if 0 < original_size then float_of (int original_size) else 1)"

definition reduce_and_store ::
    "'b backend_ops \<Rightarrow> (bytes \<Rightarrow> string) \<Rightarrow> codecs \<Rightarrow> string \<Rightarrow> bytes \<Rightarrow> 'b purity_engine
     \<Rightarrow> ('b purity_engine, reduction_result) outcome" where
  "reduce_and_store ops sha cdc uuid data pe =
     (let original_size = length data;
          pe = pe\<lparr>pe_stats := (pe_stats pe)\<lparr>rs_total_bytes_in :=
                     rs_total_bytes_in (pe_stats pe) + int original_size\<rparr>\<rparr>
      in case pattern_stage data pe of
           (Inl e, pe) \<Rightarrow> (Inl e, pe)
         | (Inr (pattern_result, current_data, was_pattern_reduced), pe) \<Rightarrow>
             let dedupe_result = check_duplicate sha (pe_deduplication pe) current_data
             in case (cfg_dedupe_enabled (pe_settings pe) \<and> dr_is_duplicate dedupe_result,
                      dr_existing_block_id dedupe_result) of
                  (True, Some block_id) \<Rightarrow>
                    let dd = snd (register_block sha (pe_deduplication pe) current_data block_id);
                        st = pe_stats pe
                    in (Inr \<lparr> rr_block_id = block_id, rr_original_size = int original_size,
                              rr_stored_size = 0,
                              rr_reduction_ratio = reduction_ratio_of original_size 0,
                              rr_pattern_result = pattern_result,
                              rr_dedupe_result = dedupe_result, rr_compression_result = None,
                              rr_was_pattern_reduced = was_pattern_reduced,
                              rr_was_deduplicated = True, rr_was_compressed = False \<rparr>,
                        pe\<lparr> pe_deduplication := dd,
                            pe_stats := st\<lparr>rs_dedupe_bytes_saved :=
                              rs_dedupe_bytes_saved st + int (length current_data)\<rparr> \<rparr>)
                | _ \<Rightarrow>
                    (case compression_stage cdc current_data was_pattern_reduced pe of
                       (Inl e, pe) \<Rightarrow> (Inl e, pe)
                     | (Inr (current_data, compression_result), pe) \<Rightarrow>
                         let backend = snd (be_write_block ops uuid current_data (pe_backend pe));
                             dd = snd (register_block sha (pe_deduplication pe) data uuid);
                             st = pe_stats pe;
                             stored_size = length current_data
                         in (Inr \<lparr> rr_block_id = uuid, rr_original_size = int original_size,
                                   rr_stored_size = int stored_size,
                                   rr_reduction_ratio = reduction_ratio_of original_size stored_size,
                                   rr_pattern_result = pattern_result,
                                   rr_dedupe_result = dedupe_result,
                                   rr_compression_result = compression_result,
                                   rr_was_pattern_reduced = was_pattern_reduced,
                                   rr_was_deduplicated = False,
                                   rr_was_compressed =
                                     (case compression_result of
                                        None \<Rightarrow> False | Some c \<Rightarrow> cr_was_compressed c) \<rparr>,
                             pe\<lparr> pe_backend := backend, pe_deduplication := dd,
                                 pe_stats := st\<lparr>rs_total_bytes_stored :=
                                   rs_total_bytes_stored st + int stored_size\<rparr> \<rparr>)))"

text \<open>What \<^verbatim>\<open>retrieve\<close> does with the bytes it has read.\<close>

definition decode_raw :: "codecs \<Rightarrow> pattern_removal \<Rightarrow> bytes \<Rightarrow> bytes result" where
  "decode_raw cdc pr data =
     (case if has_header data then decompress cdc data else Inr data of
        Inl e \<Rightarrow> Inl e
      | Inr data \<Rightarrow> if is_encoded data then decode pr data None else Inr data)"

definition retrieve ::
    "'b backend_ops \<Rightarrow> codecs \<Rightarrow> string \<Rightarrow> 'b purity_engine \<Rightarrow> ('b purity_engine, bytes) outcome" where
  "retrieve ops cdc block_id pe =
     (case be_read_block ops block_id (pe_backend pe) of
        (Inl e, b) \<Rightarrow> (Inl e, pe\<lparr>pe_backend := b\<rparr>)
      | (Inr data, b) \<Rightarrow> (decode_raw cdc (pe_pattern_removal pe) data, pe\<lparr>pe_backend := b\<rparr>))"

definition pe_delete ::
    "'b backend_ops \<Rightarrow> string \<Rightarrow> string \<Rightarrow> 'b purity_engine \<Rightarrow> bool \<times> 'b purity_engine" where
  "pe_delete ops block_id fingerprint pe =
     (case dereference_block (pe_deduplication pe) fingerprint of
        (remaining, dd) \<Rightarrow>
          let pe = pe\<lparr>pe_deduplication := dd\<rparr>
          in if remaining = 0 then
               (case be_delete_block ops block_id (pe_backend pe) of
                  (ok, b) \<Rightarrow> (ok, pe\<lparr>pe_backend := b\<rparr>))
             else (False, pe))"

record 'r pe_statistics =
  pst_overall :: reduction_stats
  pst_total_reduction_ratio :: double
  pst_pattern_removal :: pattern_stats
  pst_deduplication :: "dedup_stats \<times> double \<times> int"
  pst_compression :: "compression_stats \<times> double \<times> string"
  pst_backend :: 'r

text \<open>What the backend reports is the backend's own.\<close>

definition pe_get_stats :: "('b \<Rightarrow> 'r) \<Rightarrow> 'b purity_engine \<Rightarrow> 'r pe_statistics" where
  "pe_get_stats backend_get_stats pe =
     \<lparr> pst_overall = pe_stats pe,
       pst_total_reduction_ratio = total_reduction_ratio (pe_stats pe),
       pst_pattern_removal = pr_get_stats (pe_pattern_removal pe),
       pst_deduplication = dd_get_stats (pe_deduplication pe),
       pst_compression = ce_get_stats (pe_compression pe),
       pst_backend = backend_get_stats (pe_backend pe) \<rparr>"

definition get_reduction_ratio :: "'b purity_engine \<Rightarrow> double" where
  "get_reduction_ratio pe = total_reduction_ratio (pe_stats pe)"

section \<open>Decoding what the pipeline stored\<close>

text \<open>
  The blocks the pipeline can give back: shorter than 4 GiB, not shaped like a marker, and of the
  configured block size when they are all zeros (\<open>zero_block_length_lost\<close> shows why).
\<close>

definition storable :: "int \<Rightarrow> bytes \<Rightarrow> bool" where
  "storable block_size data \<longleftrightarrow>
     \<not> is_encoded data \<and> length data < 2 ^ 32 \<and>
     (all_zero data \<longrightarrow> int (length data) = block_size)"

lemma is_encoded_length: "is_encoded data \<Longrightarrow> 10 \<le> length data"
  using length_ZERO_BLOCK_MARKER length_PATTERN_BLOCK_PREFIX
  by (auto simp: is_encoded_def starts_with_def min_def dest!: arg_cong[of _ _ length] split: if_splits)

lemma storable_short:
  assumes "length data < 10" and "data \<noteq> []" and "hd data \<noteq> 0"
  shows "storable bs data"
proof -
  have "\<not> is_encoded data" using assms(1) is_encoded_length by fastforce
  moreover have "\<not> all_zero data" using assms(2,3) by (cases data) (simp_all add: all_zero_def)
  ultimately show ?thesis using assms(1) by (simp add: storable_def)
qed

lemma hd_pattern_code: "hd (pattern_code data) = 95"
  by (simp add: pattern_code_def ZERO_BLOCK_MARKER_def PATTERN_BLOCK_PREFIX_def ascii_def of_char_def
      horner_sum_simps)

lemma no_header_pattern_code [simp]: "\<not> has_header (pattern_code data)"
  by (simp add: has_header_def hd_pattern_code bytes_to_algorithm_def)

lemma decode_raw_pattern:
  assumes "is_pattern data" and "storable (pr_min_block_size pr) data"
  shows "decode_raw cdc pr (pattern_code data) = Inr data"
proof (cases "all_zero data")
  case True
  then have "decode pr (pattern_code data) None = zero_bytes (pr_min_block_size pr)"
    by (simp add: pattern_code_def decode_zero_marker)
  then show ?thesis
    using True assms zero_bytes_length[OF True] by (simp add: decode_raw_def storable_def)
next
  case False
  then show ?thesis using assms by (simp add: decode_raw_def decode_pattern_code storable_def)
qed

lemma decode_raw_compressed:
  assumes "storable bs data" and "codecs_ok cdc" and "ce_algorithm ce \<noteq> Alg_NONE"
  shows "decode_raw cdc pr (stored_form cdc ce data) = Inr data"
  using assms by (simp add: decode_raw_def decompress_stored_form storable_def)

section \<open>References\<close>

text \<open>
  A reference is what a caller keeps of a stored block: the block id and the fingerprint that
  \<^verbatim>\<open>reduce_and_store\<close> returned, with the data it stands for. \<open>pe_inv\<close> relates the engine to the
  multiset of references its callers hold.
\<close>

type_synonym block_ref = "string \<times> string \<times> bytes"

definition current_form :: "bytes \<Rightarrow> bytes" where
  "current_form data = (if is_pattern data then pattern_code data else data)"

definition refs_to :: "bytes \<Rightarrow> block_ref multiset \<Rightarrow> block_ref multiset" where
  "refs_to data R = filter_mset (\<lambda>(bid, fp, d). d = data) R"

definition refs_at :: "string \<Rightarrow> block_ref multiset \<Rightarrow> block_ref multiset" where
  "refs_at bid R = filter_mset (\<lambda>(b, fp, d). b = bid) R"

text \<open>Block \<open>bid\<close> is stored once and decodes to \<open>data\<close>.\<close>

definition readable ::
    "(string \<Rightarrow> (bytes \<times> int) option) \<Rightarrow> codecs \<Rightarrow> pattern_removal \<Rightarrow> string \<Rightarrow> bytes \<Rightarrow> bool" where
  "readable st cdc pr bid data \<longleftrightarrow> (\<exists>raw. st bid = Some (raw, 1) \<and> decode_raw cdc pr raw = Inr data)"

text \<open>The configuration under which the engine promises to give data back: all stages on.\<close>

definition pe_config :: "codecs \<Rightarrow> 'b purity_engine \<Rightarrow> bool" where
  "pe_config cdc pe \<longleftrightarrow>
     codecs_ok cdc \<and> ce_algorithm (pe_compression pe) \<noteq> Alg_NONE \<and>
     cfg_pattern_removal_enabled (pe_settings pe) \<and> cfg_dedupe_enabled (pe_settings pe) \<and>
     cfg_compression_enabled (pe_settings pe)"

text \<open>
  \<open>sha\<close> does not collide on the blocks of \<open>U\<close> and the markers made from them.
\<close>

definition collision_free :: "(bytes \<Rightarrow> string) \<Rightarrow> bytes set \<Rightarrow> bool" where
  "collision_free sha U \<longleftrightarrow> inj_on sha (U \<union> pattern_code ` U)"

text \<open>What the table says about a block of \<open>U\<close> that is not a pattern.\<close>

definition entry_ok ::
    "(string \<Rightarrow> (bytes \<times> int) option) \<Rightarrow> (bytes \<Rightarrow> string) \<Rightarrow> codecs \<Rightarrow> 'b purity_engine
     \<Rightarrow> block_ref multiset \<Rightarrow> bytes \<Rightarrow> bool" where
  "entry_ok st sha cdc pe R data \<longleftrightarrow>
     (case dict_get (dd_table (pe_deduplication pe)) (sha data) of
        None \<Rightarrow> refs_to data R = {#}
      | Some e \<Rightarrow>
          readable st cdc (pe_pattern_removal pe) (de_block_id e) data \<and>
          int (size (refs_to data R)) \<le> de_reference_count e \<and>
          (\<forall>(bid, fp, d) \<in># R. d = data \<longrightarrow> bid = de_block_id e))"

definition ref_ok ::
    "(string \<Rightarrow> (bytes \<times> int) option) \<Rightarrow> (bytes \<Rightarrow> string) \<Rightarrow> codecs \<Rightarrow> bytes set \<Rightarrow> 'b purity_engine
     \<Rightarrow> block_ref multiset \<Rightarrow> block_ref \<Rightarrow> bool" where
  "ref_ok st sha cdc U pe R = (\<lambda>(bid, fp, data).
     data \<in> U \<and> fp = sha (current_form data) \<and>
     readable st cdc (pe_pattern_removal pe) bid data \<and>
     (is_pattern data \<longrightarrow> size (refs_at bid R) = 1))"

definition pe_inv ::
    "('b \<Rightarrow> bool) \<Rightarrow> ('b \<Rightarrow> string \<Rightarrow> (bytes \<times> int) option) \<Rightarrow> (bytes \<Rightarrow> string) \<Rightarrow> codecs
     \<Rightarrow> bytes set \<Rightarrow> 'b purity_engine \<Rightarrow> block_ref multiset \<Rightarrow> bool" where
  "pe_inv binv stored sha cdc U pe R \<longleftrightarrow>
     pe_config cdc pe \<and> binv (pe_backend pe) \<and> dd_inv (pe_deduplication pe) \<and>
     collision_free sha U \<and>
     (\<forall>d \<in> U. storable (pr_min_block_size (pe_pattern_removal pe)) d) \<and>
     (\<forall>r \<in># R. ref_ok (stored (pe_backend pe)) sha cdc U pe R r) \<and>
     (\<forall>d \<in> U. if is_pattern d
               then dict_get (dd_table (pe_deduplication pe)) (sha (pattern_code d)) = None
               else entry_ok (stored (pe_backend pe)) sha cdc pe R d)"

lemma pe_invI:
  assumes "pe_config cdc pe" "binv (pe_backend pe)" "dd_inv (pe_deduplication pe)"
    "collision_free sha U"
    "\<And>d. d \<in> U \<Longrightarrow> storable (pr_min_block_size (pe_pattern_removal pe)) d"
    "\<And>r. r \<in># R \<Longrightarrow> ref_ok (stored (pe_backend pe)) sha cdc U pe R r"
    "\<And>d. d \<in> U \<Longrightarrow> is_pattern d \<Longrightarrow>
       dict_get (dd_table (pe_deduplication pe)) (sha (pattern_code d)) = None"
    "\<And>d. d \<in> U \<Longrightarrow> \<not> is_pattern d \<Longrightarrow> entry_ok (stored (pe_backend pe)) sha cdc pe R d"
  shows "pe_inv binv stored sha cdc U pe R"
  using assms by (simp add: pe_inv_def)

lemma pe_invD:
  assumes "pe_inv binv stored sha cdc U pe R"
  shows "pe_config cdc pe" "binv (pe_backend pe)" "dd_inv (pe_deduplication pe)"
    "collision_free sha U"
    "\<And>d. d \<in> U \<Longrightarrow> storable (pr_min_block_size (pe_pattern_removal pe)) d"
    "\<And>r. r \<in># R \<Longrightarrow> ref_ok (stored (pe_backend pe)) sha cdc U pe R r"
    "\<And>d. d \<in> U \<Longrightarrow> is_pattern d \<Longrightarrow>
       dict_get (dd_table (pe_deduplication pe)) (sha (pattern_code d)) = None"
    "\<And>d. d \<in> U \<Longrightarrow> \<not> is_pattern d \<Longrightarrow> entry_ok (stored (pe_backend pe)) sha cdc pe R d"
  using assms by (auto simp: pe_inv_def split: if_splits)

text \<open>Facts about fingerprints of the blocks of \<open>U\<close>.\<close>

lemma sha_eq_U: "collision_free sha U \<Longrightarrow> d \<in> U \<Longrightarrow> d' \<in> U \<Longrightarrow> sha d = sha d' \<longleftrightarrow> d = d'"
  by (auto simp: collision_free_def dest: inj_onD)

lemma sha_marker_neq:
  assumes "collision_free sha U" "d \<in> U" "d' \<in> U" "storable bs d"
  shows "sha d \<noteq> sha (pattern_code d')"
proof -
  have "d \<noteq> pattern_code d'" using assms(4) is_encoded_pattern_code[of d'] by (auto simp: storable_def)
  then show ?thesis using assms(1-3) by (auto simp: collision_free_def dest: inj_onD)
qed

lemma readable_unique: "readable st cdc pr bid d \<Longrightarrow> readable st cdc pr bid d' \<Longrightarrow> d = d'"
  by (auto simp: readable_def)

lemma readable_upd_other: "bid' \<noteq> bid \<Longrightarrow> readable (st(bid := x)) cdc pr bid' d = readable st cdc pr bid' d"
  by (simp add: readable_def)

lemma readable_fresh: "st bid = None \<Longrightarrow> readable st cdc pr bid' d \<Longrightarrow> bid' \<noteq> bid"
  by (auto simp: readable_def)

lemma refs_to_add: "refs_to d (add_mset (bid, fp, d') R)
  = (if d' = d then add_mset (bid, fp, d') (refs_to d R) else refs_to d R)"
  by (simp add: refs_to_def)

lemma refs_at_add: "refs_at b (add_mset (bid, fp, d') R)
  = (if bid = b then add_mset (bid, fp, d') (refs_at b R) else refs_at b R)"
  by (simp add: refs_at_def)

lemma refs_at_empty: "(\<And>r. r \<in># R \<Longrightarrow> fst r \<noteq> bid) \<Longrightarrow> refs_at bid R = {#}"
  by (force simp: refs_at_def simp flip: set_mset_eq_empty_iff)

lemma refs_at_emptyD: "refs_at bid R = {#} \<Longrightarrow> r \<in># R \<Longrightarrow> fst r \<noteq> bid"
  by (metis (mono_tags, lifting) case_prod_beta empty_iff mem_Collect_eq refs_at_def set_mset_empty
      set_mset_filter)

lemma refs_to_emptyD: "refs_to d R = {#} \<Longrightarrow> (bid, fp, d) \<notin># R"
  by (metis (mono_tags, lifting) case_prod_conv empty_iff mem_Collect_eq refs_to_def set_mset_empty
      set_mset_filter)

section \<open>What the pipeline does with a storable block\<close>

text \<open>The part of the engine that decides what is read back; statistics are outside of it.\<close>

definition pe_core :: "'b purity_engine \<Rightarrow> settings \<times> compression_algorithm \<times> int \<times> 'b \<times> dedup_engine" where
  "pe_core pe = (pe_settings pe, ce_algorithm (pe_compression pe),
                 pr_min_block_size (pe_pattern_removal pe), pe_backend pe, pe_deduplication pe)"

lemma decode_raw_cong:
  assumes "pr_min_block_size pr = pr_min_block_size pr'"
  shows "decode_raw cdc pr raw = decode_raw cdc pr' raw"
proof -
  have "decode pr = decode pr'" by (intro ext) (simp only: decode_def assms)
  then show ?thesis by (simp only: decode_raw_def)
qed

lemma readable_cong:
  "pr_min_block_size pr = pr_min_block_size pr' \<Longrightarrow> readable st cdc pr = readable st cdc pr'"
  using decode_raw_cong[of pr pr' cdc] by (simp add: readable_def fun_eq_iff)

lemma pattern_stage_storable:
  assumes "cfg_pattern_removal_enabled (pe_settings pe)" and "storable bs data"
  obtains res pe' where
    "pattern_stage data pe = (Inr (res, current_form data, is_pattern data), pe')"
    "pe_core pe' = pe_core pe"
proof -
  obtain res pr where a: "analyze (pe_pattern_removal pe) data = (res, pr)" by (cases "analyze (pe_pattern_removal pe) data")
  have res: "is_zero_block res = all_zero data" "is_repeated_pattern res = is_pattern data"
    "pr_min_block_size pr = pr_min_block_size (pe_pattern_removal pe)"
    using a analyze_zero[of "pe_pattern_removal pe" data] analyze_repeated[of "pe_pattern_removal pe" data]
      analyze_min_block_size[of "pe_pattern_removal pe" data] by auto
  show thesis
  proof (cases "is_pattern data")
    case True
    obtain pr' where e: "encode pr data = (Inr (pattern_code data, True), pr')"
      using encode_result[of pr data] True assms(2) by (cases "encode pr data") (auto simp: storable_def)
    have "pr_min_block_size pr' = pr_min_block_size pr"
      using encode_min_block_size[of pr data] e by simp
    then show thesis
      using that True assms(1) a e res by (simp add: pattern_stage_def current_form_def pe_core_def Let_def)
  next
    case False
    then have "\<not> all_zero data" using all_zero_pattern by blast
    then show thesis
      using that False a res by (simp add: pattern_stage_def current_form_def pe_core_def Let_def)
  qed
qed

text \<open>The bytes written for a block that is not a duplicate.\<close>

definition raw_form :: "codecs \<Rightarrow> compression_engine \<Rightarrow> bytes \<Rightarrow> bytes" where
  "raw_form cdc ce data = (if is_pattern data then pattern_code data else stored_form cdc ce data)"

lemma compression_stage_storable:
  assumes "cfg_compression_enabled (pe_settings pe)" and "ce_algorithm (pe_compression pe) \<noteq> Alg_NONE"
    and "storable bs data"
  obtains res pe' where
    "compression_stage cdc (current_form data) (is_pattern data) pe
     = (Inr (raw_form cdc (pe_compression pe) data, res), pe')"
    "pe_core pe' = pe_core pe"
proof (cases "is_pattern data")
  case True
  then show thesis
    using that by (simp add: compression_stage_def raw_form_def current_form_def)
next
  case False
  obtain ce' where c: "compress cdc (pe_compression pe) data
      = (Inr (stored_form cdc (pe_compression pe) data, stored_result cdc (pe_compression pe) data), ce')"
    using compress_stored_form[OF assms(2), of data cdc] assms(3)
    by (cases "compress cdc (pe_compression pe) data") (auto simp: storable_def)
  have "ce_algorithm ce' = ce_algorithm (pe_compression pe)"
    using compress_config(1)[of cdc "pe_compression pe" data] c by simp
  then show thesis
    using that False c assms(1)
    by (simp add: compression_stage_def raw_form_def current_form_def pe_core_def Let_def)
qed

text \<open>The outcome of \<^verbatim>\<open>reduce_and_store\<close>: a duplicate of a known block, or a new block.\<close>

lemma reduce_and_store_duplicate:
  assumes "pe_config cdc pe" and "storable bs data"
    and "dict_get (dd_table (pe_deduplication pe)) (sha (current_form data)) = Some e"
  obtains rr pe' where "reduce_and_store ops sha cdc uuid data pe = (Inr rr, pe')"
    "rr_block_id rr = de_block_id e" "rr_was_deduplicated rr" "rr_stored_size rr = 0"
    "dr_fingerprint (rr_dedupe_result rr) = sha (current_form data)"
    "pe_core pe' = pe_core (pe\<lparr>pe_deduplication :=
       snd (register_block sha (pe_deduplication pe) (current_form data) (de_block_id e))\<rparr>)"
proof -
  let ?pe = "pe\<lparr>pe_stats := (pe_stats pe)\<lparr>rs_total_bytes_in :=
               rs_total_bytes_in (pe_stats pe) + int (length data)\<rparr>\<rparr>"
  obtain res pe1 where p: "pattern_stage data ?pe = (Inr (res, current_form data, is_pattern data), pe1)"
    and c: "pe_core pe1 = pe_core ?pe"
    using pattern_stage_storable[of ?pe bs data] assms(1,2) by (auto simp: pe_config_def)
  have "pe_settings pe1 = pe_settings pe" "pe_deduplication pe1 = pe_deduplication pe"
    using c by (simp_all add: pe_core_def)
  then show thesis
    using that p c assms(1,3)
    by (simp add: reduce_and_store_def check_duplicate_def compute_fingerprint_def Let_def
        pe_config_def pe_core_def)
qed

lemma reduce_and_store_new:
  assumes "pe_config cdc pe" and "storable bs data"
    and "dict_get (dd_table (pe_deduplication pe)) (sha (current_form data)) = None"
  obtains rr pe' ce where "reduce_and_store ops sha cdc uuid data pe = (Inr rr, pe')"
    "rr_block_id rr = uuid" "\<not> rr_was_deduplicated rr"
    "dr_fingerprint (rr_dedupe_result rr) = sha (current_form data)"
    "ce_algorithm ce = ce_algorithm (pe_compression pe)"
    "pe_core pe' = pe_core (pe\<lparr>
       pe_backend := snd (be_write_block ops uuid (raw_form cdc ce data) (pe_backend pe)),
       pe_deduplication := snd (register_block sha (pe_deduplication pe) data uuid)\<rparr>)"
proof -
  let ?pe = "pe\<lparr>pe_stats := (pe_stats pe)\<lparr>rs_total_bytes_in :=
               rs_total_bytes_in (pe_stats pe) + int (length data)\<rparr>\<rparr>"
  obtain res pe1 where p: "pattern_stage data ?pe = (Inr (res, current_form data, is_pattern data), pe1)"
    and c: "pe_core pe1 = pe_core ?pe"
    using pattern_stage_storable[of ?pe bs data] assms(1,2) by (auto simp: pe_config_def)
  have same: "pe_settings pe1 = pe_settings pe" "pe_deduplication pe1 = pe_deduplication pe"
    "ce_algorithm (pe_compression pe1) = ce_algorithm (pe_compression pe)"
    "pe_backend pe1 = pe_backend pe"
    using c by (simp_all add: pe_core_def)
  obtain cres pe2 where q: "compression_stage cdc (current_form data) (is_pattern data) pe1
      = (Inr (raw_form cdc (pe_compression pe1) data, cres), pe2)" and c2: "pe_core pe2 = pe_core pe1"
    using compression_stage_storable[of pe1 bs data cdc] assms(1,2) same by (auto simp: pe_config_def)
  show thesis
    using that[of _ _ "pe_compression pe1"] p q c c2 same assms(3)
    by (simp add: reduce_and_store_def check_duplicate_def compute_fingerprint_def Let_def
        pe_core_def)
qed

section \<open>The invariant is kept\<close>

lemma pe_inv_core:
  assumes "pe_core pe' = pe_core pe"
  shows "pe_inv binv stored sha cdc U pe' R = pe_inv binv stored sha cdc U pe R"
proof -
  have c: "pe_settings pe' = pe_settings pe" "pe_backend pe' = pe_backend pe"
    "ce_algorithm (pe_compression pe') = ce_algorithm (pe_compression pe)"
    "pr_min_block_size (pe_pattern_removal pe') = pr_min_block_size (pe_pattern_removal pe)"
    "pe_deduplication pe' = pe_deduplication pe"
    using assms by (simp_all add: pe_core_def)
  then show ?thesis
    by (simp only: pe_inv_def pe_config_def ref_ok_def entry_ok_def readable_cong[OF c(4)])
qed

lemma pe_inv_antimono:
  assumes "pe_inv binv stored sha cdc U pe R" and "R' \<subseteq># R"
  shows "pe_inv binv stored sha cdc U pe R'"
proof (rule pe_invI)
  note inv = pe_invD[OF assms(1)]
  show "ref_ok (stored (pe_backend pe)) sha cdc U pe R' r" if "r \<in># R'" for r
  proof -
    have r: "ref_ok (stored (pe_backend pe)) sha cdc U pe R r"
      using inv(6) that assms(2) by (meson mset_subset_eqD)
    obtain bid fp d where rr: "r = (bid, fp, d)" by (cases r)
    have "size (refs_at bid R') \<le> size (refs_at bid R)"
      unfolding refs_at_def by (intro size_mset_mono multiset_filter_mono assms(2))
    moreover have "r \<in># refs_at bid R'" using that rr by (simp add: refs_at_def)
    then have "size (refs_at bid R') \<noteq> 0" by auto
    ultimately show ?thesis using r rr by (auto simp: ref_ok_def le_Suc_eq)
  qed
  show "entry_ok (stored (pe_backend pe)) sha cdc pe R' d" if "d \<in> U" "\<not> is_pattern d" for d
  proof -
    have "refs_to d R' \<subseteq># refs_to d R" unfolding refs_to_def by (intro multiset_filter_mono assms(2))
    then have "size (refs_to d R') \<le> size (refs_to d R)"
      "refs_to d R = {#} \<Longrightarrow> refs_to d R' = {#}"
      by (auto intro: size_mset_mono)
    then show ?thesis
      using inv(8)[OF that] assms(2) by (fastforce simp: entry_ok_def split: option.splits dest: mset_subset_eqD)
  qed
qed (use pe_invD[OF assms(1)] in auto)

lemma view_backend [simp]:
  "entry_ok st sha cdc (pe\<lparr>pe_backend := b\<rparr>) R = entry_ok st sha cdc pe R"
  "ref_ok st sha cdc U (pe\<lparr>pe_backend := b\<rparr>) R = ref_ok st sha cdc U pe R"
  "pe_config cdc (pe\<lparr>pe_backend := b\<rparr>) = pe_config cdc pe"
  by (simp_all add: entry_ok_def ref_ok_def pe_config_def fun_eq_iff cong: option.case_cong)

lemma table_register:
  "fp \<noteq> sha data \<Longrightarrow>
   dict_get (dd_table (snd (register_block sha dd data bid))) fp = dict_get (dd_table dd) fp"
  "dict_get (dd_table dd) (sha data) = None \<Longrightarrow>
   dict_get (dd_table (snd (register_block sha dd data bid))) (sha data)
   = Some \<lparr> de_fingerprint = sha data, de_block_id = bid, de_size = int (length data),
            de_reference_count = 1 \<rparr>"
  "dict_get (dd_table dd) (sha data) = Some e \<Longrightarrow>
   dict_get (dd_table (snd (register_block sha dd data bid))) (sha data)
   = Some (e\<lparr>de_reference_count := de_reference_count e + 1\<rparr>)"
  by (auto simp: register_block_def compute_fingerprint_def Let_def split: option.splits)

lemma table_dereference:
  "fp' \<noteq> fp \<Longrightarrow>
   dict_get (dd_table (snd (dereference_block dd fp))) fp' = dict_get (dd_table dd) fp'"
  "dict_get (dd_table dd) fp = None \<Longrightarrow> dereference_block dd fp = (0, dd)"
  "dict_get (dd_table dd) fp = Some e \<Longrightarrow> de_reference_count e \<le> 1 \<Longrightarrow>
   fst (dereference_block dd fp) = 0 \<and>
   dict_get (dd_table (snd (dereference_block dd fp))) fp = None"
  "dict_get (dd_table dd) fp = Some e \<Longrightarrow> 1 < de_reference_count e \<Longrightarrow>
   fst (dereference_block dd fp) \<noteq> 0 \<and>
   dict_get (dd_table (snd (dereference_block dd fp))) fp
   = Some (e\<lparr>de_reference_count := de_reference_count e - 1\<rparr>)"
  by (auto simp: dereference_block_def Let_def split: option.splits)

lemma decode_raw_form:
  assumes "storable (pr_min_block_size pr) data" and "codecs_ok cdc" and "ce_algorithm ce \<noteq> Alg_NONE"
  shows "decode_raw cdc pr (raw_form cdc ce data) = Inr data"
  using assms by (simp add: raw_form_def decode_raw_pattern decode_raw_compressed)

section \<open>Histories\<close>

text \<open>
  A caller stores blocks, fetches them and drops references, keeping the references it was given in
  a list. The run stops with \<open>None\<close> as soon as a call raises.
\<close>

datatype pe_call = Store string bytes | Fetch nat | Drop nat

fun pe_step ::
    "'b backend_ops \<Rightarrow> (bytes \<Rightarrow> string) \<Rightarrow> codecs \<Rightarrow> pe_call \<Rightarrow> 'b purity_engine \<times> block_ref list
     \<Rightarrow> ('b purity_engine \<times> block_ref list) option" where
  "pe_step ops sha cdc (Store uuid data) (pe, refs) =
     (case reduce_and_store ops sha cdc uuid data pe of
        (Inl e, pe) \<Rightarrow> None
      | (Inr rr, pe) \<Rightarrow>
          Some (pe, refs @ [(rr_block_id rr, dr_fingerprint (rr_dedupe_result rr), data)]))"
| "pe_step ops sha cdc (Fetch i) (pe, refs) =
     (if i < length refs then
        (case retrieve ops cdc (fst (refs ! i)) pe of
           (Inl e, pe) \<Rightarrow> None | (Inr _, pe) \<Rightarrow> Some (pe, refs))
      else Some (pe, refs))"
| "pe_step ops sha cdc (Drop i) (pe, refs) =
     (if i < length refs then
        Some (snd (pe_delete ops (fst (refs ! i)) (fst (snd (refs ! i))) pe),
              take i refs @ drop (Suc i) refs)
      else Some (pe, refs))"

fun pe_run ::
    "'b backend_ops \<Rightarrow> (bytes \<Rightarrow> string) \<Rightarrow> codecs \<Rightarrow> pe_call list \<Rightarrow> 'b purity_engine \<times> block_ref list
     \<Rightarrow> ('b purity_engine \<times> block_ref list) option" where
  "pe_run ops sha cdc [] s = Some s"
| "pe_run ops sha cdc (c # cs) s =
     (case pe_step ops sha cdc c s of None \<Rightarrow> None | Some s \<Rightarrow> pe_run ops sha cdc cs s)"

fun call_uuids :: "pe_call list \<Rightarrow> string list" where
  "call_uuids [] = []"
| "call_uuids (Store uuid data # cs) = uuid # call_uuids cs"
| "call_uuids (_ # cs) = call_uuids cs"

fun call_data :: "pe_call list \<Rightarrow> bytes list" where
  "call_data [] = []"
| "call_data (Store uuid data # cs) = data # call_data cs"
| "call_data (_ # cs) = call_data cs"

lemma mset_remove_nth: "i < length xs \<Longrightarrow> mset (take i xs @ drop (Suc i) xs) = mset xs - {#xs ! i#}"
  by (metis add_mset_remove_trivial id_take_nth_drop mset.simps(2) mset_append union_mset_add_mset_right)

context storage_backend
begin

lemma inv_store_new:
  assumes inv: "pe_inv binv stored sha cdc U pe R" and data: "data \<in> U"
    and none: "dict_get (dd_table (pe_deduplication pe)) (sha (current_form data)) = None"
    and fresh: "stored (pe_backend pe) uuid = None"
    and alg: "ce_algorithm ce = ce_algorithm (pe_compression pe)"
    and b': "b' = snd (be_write_block ops uuid (raw_form cdc ce data) (pe_backend pe))"
    and dd': "dd' = snd (register_block sha (pe_deduplication pe) data uuid)"
  shows "pe_inv binv stored sha cdc U (pe\<lparr>pe_backend := b', pe_deduplication := dd'\<rparr>)
           (add_mset (uuid, sha (current_form data), data) R)"
    (is "pe_inv _ _ _ _ _ ?pe ?R")
proof (rule pe_invI)
  note I = pe_invD[OF inv]
  let ?st = "stored (pe_backend pe)" and ?pr = "pe_pattern_removal pe"
  have w: "binv b'" "stored b' = ?st(uuid \<mapsto> (raw_form cdc ce data, 1))"
    using write_new[OF I(2) fresh, of "raw_form cdc ce data"] b' by (metis prod.collapse)+
  show "binv (pe_backend ?pe)" using w by simp
  show "pe_config cdc ?pe" using I(1) by (simp add: pe_config_def)
  show "dd_inv (pe_deduplication ?pe)" using I(3) dd' by (simp add: dd_inv_register)
  show "collision_free sha U" by (rule I)
  show "storable (pr_min_block_size (pe_pattern_removal ?pe)) d" if "d \<in> U" for d
    using I(5)[OF that] by simp
  have new: "readable (stored b') cdc ?pr uuid data"
    using decode_raw_form[of ?pr data cdc ce] I(1,5) data alg by (simp add: readable_def w(2) pe_config_def)
  have old: "readable (stored b') cdc ?pr bid d" "bid \<noteq> uuid"
    if "readable ?st cdc ?pr bid d" for bid d
    using readable_fresh[of ?st uuid, OF fresh that] that by (simp_all add: w(2) readable_upd_other)
  have R_uuid: "fst r \<noteq> uuid" if "r \<in># R" for r
  proof -
    obtain bid fp d where r: "r = (bid, fp, d)" by (cases r)
    have "readable ?st cdc ?pr bid d" using I(6)[OF that] r by (simp add: ref_ok_def)
    then show ?thesis using old(2) r by simp
  qed
  have at: "refs_at uuid R = {#}" by (rule refs_at_empty) (rule R_uuid)
  show "ref_ok (stored (pe_backend ?pe)) sha cdc U ?pe ?R r" if "r \<in># ?R" for r
  proof (cases "r \<in># R")
    case True
    obtain bid fp d where r: "r = (bid, fp, d)" by (cases r)
    then have "bid \<noteq> uuid" using R_uuid[OF True] by simp
    then show ?thesis using I(6)[OF True] old(1) r by (simp add: ref_ok_def refs_at_add)
  next
    case False
    then have "r = (uuid, sha (current_form data), data)" using that by auto
    then show ?thesis using new data by (simp add: ref_ok_def refs_at_add at)
  qed
  show "dict_get (dd_table (pe_deduplication ?pe)) (sha (pattern_code d)) = None"
    if "d \<in> U" "is_pattern d" for d
    using sha_marker_neq[OF I(4) data that(1) I(5)[OF data]] I(7)[OF that] dd'
    by (simp add: table_register(1))
  show "entry_ok (stored (pe_backend ?pe)) sha cdc ?pe ?R d" if d: "d \<in> U" "\<not> is_pattern d" for d
  proof (cases "d = data")
    case True
    then have "dict_get (dd_table (pe_deduplication pe)) (sha data) = None"
      using none d by (simp add: current_form_def)
    moreover from this have "refs_to data R = {#}"
      using I(8)[OF d] True by (simp add: entry_ok_def)
    moreover from this have "\<forall>(bid, fp, d') \<in># R. d' \<noteq> data"
      by (auto simp: refs_to_def simp flip: set_mset_eq_empty_iff)
    ultimately show ?thesis
      using True new dd' by (auto simp: entry_ok_def table_register(2) refs_to_add)
  next
    case False
    then have "sha d \<noteq> sha data" using sha_eq_U[OF I(4) d(1) data] by simp
    then show ?thesis
      using I(8)[OF d] False old dd'
      by (auto simp: entry_ok_def table_register(1) refs_to_add split: option.splits)
  qed
qed

lemma inv_store_duplicate:
  assumes inv: "pe_inv binv stored sha cdc U pe R" and data: "data \<in> U"
    and e: "dict_get (dd_table (pe_deduplication pe)) (sha (current_form data)) = Some e"
    and dd': "dd' = snd (register_block sha (pe_deduplication pe) (current_form data) (de_block_id e))"
  shows "pe_inv binv stored sha cdc U (pe\<lparr>pe_deduplication := dd'\<rparr>)
           (add_mset (de_block_id e, sha (current_form data), data) R)"
    (is "pe_inv _ _ _ _ _ ?pe ?R")
proof (rule pe_invI)
  note I = pe_invD[OF inv]
  let ?st = "stored (pe_backend pe)" and ?pr = "pe_pattern_removal pe"
  have np: "\<not> is_pattern data" using I(7)[OF data] e by (auto simp: current_form_def)
  then have cur: "current_form data = data" by (simp add: current_form_def)
  note eo = I(8)[OF data np]
  have rd: "readable ?st cdc ?pr (de_block_id e) data" using eo e cur by (simp add: entry_ok_def)
  show "binv (pe_backend ?pe)" using I(2) by simp
  show "pe_config cdc ?pe" using I(1) by (simp add: pe_config_def)
  show "dd_inv (pe_deduplication ?pe)" using I(3) dd' by (simp add: dd_inv_register)
  show "collision_free sha U" by (rule I)
  show "storable (pr_min_block_size (pe_pattern_removal ?pe)) d" if "d \<in> U" for d
    using I(5)[OF that] by simp
  show "ref_ok (stored (pe_backend ?pe)) sha cdc U ?pe ?R r" if "r \<in># ?R" for r
  proof (cases "r \<in># R")
    case True
    obtain bid fp d where r: "r = (bid, fp, d)" by (cases r)
    note ro = I(6)[OF True, unfolded r ref_ok_def, simplified]
    have "bid \<noteq> de_block_id e" if "is_pattern d"
      using ro rd np that readable_unique by metis
    then show ?thesis using ro r by (auto simp: ref_ok_def refs_at_add)
  next
    case False
    then have "r = (de_block_id e, sha (current_form data), data)" using that by auto
    then show ?thesis using rd data np by (simp add: ref_ok_def)
  qed
  show "dict_get (dd_table (pe_deduplication ?pe)) (sha (pattern_code d)) = None"
    if "d \<in> U" "is_pattern d" for d
    using sha_marker_neq[OF I(4) data that(1) I(5)[OF data]] I(7)[OF that] dd'
    by (simp add: table_register(1) cur)
  show "entry_ok (stored (pe_backend ?pe)) sha cdc ?pe ?R d" if d: "d \<in> U" "\<not> is_pattern d" for d
  proof (cases "d = data")
    case True
    then show ?thesis
      using eo e cur rd dd' table_register(3)[of "pe_deduplication pe" sha data e "de_block_id e"]
      by (auto simp: entry_ok_def refs_to_add)
  next
    case False
    then have "sha d \<noteq> sha data" using sha_eq_U[OF I(4) d(1) data] by simp
    then show ?thesis
      using I(8)[OF d] False dd'
      by (auto simp: entry_ok_def table_register(1) refs_to_add cur split: option.splits)
  qed
qed

lemma inv_drop_entry:
  assumes inv: "pe_inv binv stored sha cdc U pe R" and r: "(bid, fp, data) \<in># R"
    and np: "\<not> is_pattern data"
    and e: "dict_get (dd_table (pe_deduplication pe)) (sha data) = Some e"
    and dd': "dd' = snd (dereference_block (pe_deduplication pe) (sha data))"
  shows "pe_inv binv stored sha cdc U (pe\<lparr>pe_deduplication := dd'\<rparr>) (R - {#(bid, fp, data)#})"
    (is "pe_inv _ _ _ _ _ ?pe ?R")
proof (rule pe_invI)
  have inv': "pe_inv binv stored sha cdc U pe ?R" by (rule pe_inv_antimono[OF inv]) simp
  note I = pe_invD[OF inv] and J = pe_invD[OF inv']
  have data: "data \<in> U" using I(6)[OF r] by (simp add: ref_ok_def)
  have R: "R = add_mset (bid, fp, data) ?R" using r by simp
  show "ref_ok (stored (pe_backend ?pe)) sha cdc U ?pe ?R r'" if "r' \<in># ?R" for r'
    using J(6)[OF that] by (simp add: ref_ok_def)
  show "pe_config cdc ?pe" using I(1) by (simp add: pe_config_def)
  show "dd_inv (pe_deduplication ?pe)" using I(3) dd' by (simp add: dd_inv_dereference)
  show "dict_get (dd_table (pe_deduplication ?pe)) (sha (pattern_code d)) = None"
    if "d \<in> U" "is_pattern d" for d
    using sha_marker_neq[OF I(4) data that(1) I(5)[OF data]] I(7)[OF that] dd'
    by (simp add: table_dereference(1))
  show "entry_ok (stored (pe_backend ?pe)) sha cdc ?pe ?R d" if d: "d \<in> U" "\<not> is_pattern d" for d
  proof (cases "d = data")
    case True
    have "int (size (refs_to data R)) \<le> de_reference_count e"
      using I(8)[OF data np] e by (simp add: entry_ok_def)
    then have "int (size (refs_to data ?R)) \<le> de_reference_count e - 1"
      using refs_to_add[of data bid fp data ?R] R by simp
    moreover from this have "refs_to data ?R = {#}" if "de_reference_count e \<le> 1"
      using that by (subst size_eq_0_iff_empty [symmetric]) linarith
    ultimately show ?thesis
      using J(8)[OF d] e True dd' table_dereference(3,4)[OF e]
      by (cases "de_reference_count e \<le> 1") (simp_all add: entry_ok_def)
  next
    case False
    then have "sha d \<noteq> sha data" using sha_eq_U[OF I(4) d(1) data] by simp
    then show ?thesis
      using J(8)[OF d] dd' by (simp add: entry_ok_def table_dereference(1) cong: option.case_cong)
  qed
qed (use pe_invD[OF inv] in auto)

text \<open>The block is removed from the backend when no other reference needs it.\<close>

lemma inv_drop_block:
  assumes inv: "pe_inv binv stored sha cdc U pe R" and bid: "\<And>r. r \<in># R \<Longrightarrow> fst r \<noteq> bid"
    and table: "\<And>d e. d \<in> U \<Longrightarrow> \<not> is_pattern d \<Longrightarrow>
      dict_get (dd_table (pe_deduplication pe)) (sha d) = Some e \<Longrightarrow> de_block_id e \<noteq> bid"
    and del: "be_delete_block ops bid (pe_backend pe) = (ok, b')"
  shows "pe_inv binv stored sha cdc U (pe\<lparr>pe_backend := b'\<rparr>) R" (is "pe_inv _ _ _ _ _ ?pe _")
proof (rule pe_invI)
  note I = pe_invD[OF inv]
  have s: "binv b'" "\<And>bid'. bid' \<noteq> bid \<Longrightarrow> stored b' bid' = stored (pe_backend pe) bid'"
    using delete_stored[OF I(2) del] by auto
  have rd: "readable (stored b') cdc pr bid' d = readable (stored (pe_backend pe)) cdc pr bid' d"
    if "bid' \<noteq> bid" for bid' d pr
    using s(2)[OF that] by (simp add: readable_def)
  show "binv (pe_backend ?pe)" using s by simp
  show "pe_config cdc ?pe" using I(1) by (simp add: pe_config_def)
  show "ref_ok (stored (pe_backend ?pe)) sha cdc U ?pe R r" if "r \<in># R" for r
    using I(6)[OF that] bid[OF that] by (auto simp: ref_ok_def rd)
  show "entry_ok (stored (pe_backend ?pe)) sha cdc ?pe R d" if d: "d \<in> U" "\<not> is_pattern d" for d
    using I(8)[OF d] table[OF d] by (auto simp: entry_ok_def rd split: option.splits)
qed (use pe_invD[OF inv] in auto)

text \<open>The three operations.\<close>

lemma inv_reduce_and_store:
  assumes inv: "pe_inv binv stored sha cdc U pe R" and data: "data \<in> U"
    and fresh: "stored (pe_backend pe) uuid = None"
  obtains rr pe' where "reduce_and_store ops sha cdc uuid data pe = (Inr rr, pe')"
    "pe_inv binv stored sha cdc U pe'
       (add_mset (rr_block_id rr, dr_fingerprint (rr_dedupe_result rr), data) R)"
    "dom (stored (pe_backend pe')) \<subseteq> insert uuid (dom (stored (pe_backend pe)))"
proof -
  note I = pe_invD[OF inv]
  show thesis
  proof (cases "dict_get (dd_table (pe_deduplication pe)) (sha (current_form data))")
    case None
    obtain rr pe' ce where n: "reduce_and_store ops sha cdc uuid data pe = (Inr rr, pe')"
      "rr_block_id rr = uuid" "dr_fingerprint (rr_dedupe_result rr) = sha (current_form data)"
      "ce_algorithm ce = ce_algorithm (pe_compression pe)"
      and core: "pe_core pe' = pe_core (pe\<lparr>
         pe_backend := snd (be_write_block ops uuid (raw_form cdc ce data) (pe_backend pe)),
         pe_deduplication := snd (register_block sha (pe_deduplication pe) data uuid)\<rparr>)"
      using reduce_and_store_new[OF I(1) I(5)[OF data], of sha] None by metis
    have "pe_backend pe' = snd (be_write_block ops uuid (raw_form cdc ce data) (pe_backend pe))"
      using core by (simp add: pe_core_def)
    then have "stored (pe_backend pe') = (stored (pe_backend pe))(uuid \<mapsto> (raw_form cdc ce data, 1))"
      using write_new[OF I(2) fresh, of "raw_form cdc ce data"] by (metis prod.collapse)
    then show thesis
      using that[OF n(1)] inv_store_new[OF inv data None fresh n(4) refl refl] n(2,3)
        pe_inv_core[OF core] by auto
  next
    case (Some e)
    obtain rr pe' where n: "reduce_and_store ops sha cdc uuid data pe = (Inr rr, pe')"
      "rr_block_id rr = de_block_id e" "dr_fingerprint (rr_dedupe_result rr) = sha (current_form data)"
      and core: "pe_core pe' = pe_core (pe\<lparr>pe_deduplication :=
         snd (register_block sha (pe_deduplication pe) (current_form data) (de_block_id e))\<rparr>)"
      using reduce_and_store_duplicate[OF I(1) I(5)[OF data], of sha e] Some by metis
    have "pe_backend pe' = pe_backend pe" using core by (simp add: pe_core_def)
    then show thesis
      using that[OF n(1)] inv_store_duplicate[OF inv data Some refl] n(2,3) pe_inv_core[OF core] by auto
  qed
qed

lemma inv_retrieve:
  assumes inv: "pe_inv binv stored sha cdc U pe R" and r: "(bid, fp, data) \<in># R"
  obtains pe' where "retrieve ops cdc bid pe = (Inr data, pe')"
    "pe_inv binv stored sha cdc U pe' R" "stored (pe_backend pe') = stored (pe_backend pe)"
proof -
  note I = pe_invD[OF inv]
  obtain raw where raw: "stored (pe_backend pe) bid = Some (raw, 1)"
    "decode_raw cdc (pe_pattern_removal pe) raw = Inr data"
    using I(6)[OF r] by (auto simp: ref_ok_def readable_def)
  obtain x b' where rd: "be_read_block ops bid (pe_backend pe) = (x, b')"
    by (cases "be_read_block ops bid (pe_backend pe)")
  have b: "binv b'" "stored b' = stored (pe_backend pe)" "x = Inr raw"
    using read[OF I(2) rd] raw by auto
  have "pe_inv binv stored sha cdc U (pe\<lparr>pe_backend := b'\<rparr>) R"
    using inv b(1,2) by (simp add: pe_inv_def)
  then show thesis using that rd raw b by (simp add: retrieve_def)
qed

lemma inv_dereference:
  assumes inv: "pe_inv binv stored sha cdc U pe R" and r: "(bid, fp, data) \<in># R"
    and n: "dereference_block (pe_deduplication pe) fp = (n, dd')"
    and pe1_def: "pe1 = pe\<lparr>pe_deduplication := dd'\<rparr>"
  shows "pe_inv binv stored sha cdc U pe1 (R - {#(bid, fp, data)#}) \<and>
    (n = 0 \<longrightarrow> (\<forall>r' \<in># R - {#(bid, fp, data)#}. fst r' \<noteq> bid) \<and>
       (\<forall>d e. d \<in> U \<and> \<not> is_pattern d \<and> dict_get (dd_table dd') (sha d) = Some e \<longrightarrow>
          de_block_id e \<noteq> bid))"
proof -
  note I = pe_invD[OF inv]
  let ?R = "R - {#(bid, fp, data)#}" and ?dd = "pe_deduplication pe" and ?st = "stored (pe_backend pe)"
  have R: "R = add_mset (bid, fp, data) ?R" using r by simp
  have inv': "pe_inv binv stored sha cdc U pe ?R" by (rule pe_inv_antimono[OF inv]) simp
  have data: "data \<in> U" "fp = sha (current_form data)"
    and rd: "readable ?st cdc (pe_pattern_removal pe) bid data"
    using I(6)[OF r] by (auto simp: ref_ok_def)
  have other: "de_block_id e' \<noteq> bid"
    if "d' \<in> U" "\<not> is_pattern d'" "d' \<noteq> data" "dict_get (dd_table ?dd) (sha d') = Some e'" for d' e'
    using I(8)[OF that(1,2)] that(3,4) rd readable_unique by (auto simp: entry_ok_def)
  show ?thesis
  proof (cases "is_pattern data")
    case True
    then have "n = 0" "dd' = ?dd"
      using n I(7)[OF data(1)] data(2) table_dereference(2) by (simp_all add: current_form_def)
    moreover have "refs_at bid ?R = {#}"
      using I(6)[OF r] True refs_at_add[of bid bid fp data ?R] R by (simp add: ref_ok_def)
    ultimately show ?thesis
      using inv' refs_at_emptyD[of bid ?R] other True by (simp add: pe1_def) metis
  next
    case False
    then have fp: "fp = sha data" using data(2) by (simp add: current_form_def)
    have eo: "entry_ok ?st sha cdc pe R data" by (rule I(8)[OF data(1) False])
    moreover have "refs_to data R \<noteq> {#}" using R refs_to_add[of data bid fp data ?R] by auto
    ultimately obtain e where e: "dict_get (dd_table ?dd) (sha data) = Some e"
      by (cases "dict_get (dd_table ?dd) (sha data)") (auto simp: entry_ok_def)
    have dd': "dd' = snd (dereference_block ?dd (sha data))" using n fp by simp
    have inv1: "pe_inv binv stored sha cdc U pe1 ?R"
      unfolding pe1_def using inv_drop_entry[OF inv r False e dd'] .
    have gone: "dict_get (dd_table dd') (sha data) = None" if "n = 0"
      using table_dereference(3,4)[OF e] that n fp by (cases "de_reference_count e \<le> 1") auto
    have "refs_to data ?R = {#}" if "n = 0"
      using pe_invD(8)[OF inv1 data(1) False] gone[OF that] by (simp add: entry_ok_def pe1_def)
    then have "fst r' \<noteq> bid" if "r' \<in># ?R" "n = 0" for r'
    proof -
      obtain b' f' d' where r': "r' = (b', f', d')" by (cases r')
      have "d' \<noteq> data" using \<open>n = 0 \<Longrightarrow> refs_to data ?R = {#}\<close>[OF that(2)] refs_to_emptyD that(1) r' by blast
      moreover have "readable ?st cdc (pe_pattern_removal pe) b' d'"
        using I(6)[OF in_diffD[OF that(1)]] r' by (simp add: ref_ok_def)
      ultimately show ?thesis using rd readable_unique r' by auto
    qed
    moreover have "de_block_id e' \<noteq> bid"
      if "n = 0" "d \<in> U" "\<not> is_pattern d" "dict_get (dd_table dd') (sha d) = Some e'" for d e'
      using other[of d e'] that gone dd' table_dereference(1)[of "sha d" "sha data" ?dd] by fastforce
    ultimately show ?thesis using inv1 by blast
  qed
qed

lemma inv_delete:
  assumes inv: "pe_inv binv stored sha cdc U pe R" and r: "(bid, fp, data) \<in># R"
    and del: "pe_delete ops bid fp pe = (ok, pe')"
  shows "pe_inv binv stored sha cdc U pe' (R - {#(bid, fp, data)#}) \<and>
    dom (stored (pe_backend pe')) \<subseteq> dom (stored (pe_backend pe))"
proof -
  note I = pe_invD[OF inv]
  let ?R = "R - {#(bid, fp, data)#}" and ?dd = "pe_deduplication pe" and ?st = "stored (pe_backend pe)"
  have rd: "readable ?st cdc (pe_pattern_removal pe) bid data"
    using I(6)[OF r] by (simp add: ref_ok_def)
  obtain n dd' where n: "dereference_block ?dd fp = (n, dd')" by (cases "dereference_block ?dd fp")
  define pe1 where "pe1 = pe\<lparr>pe_deduplication := dd'\<rparr>"
  have inv1: "pe_inv binv stored sha cdc U pe1 ?R"
    and sole: "n = 0 \<Longrightarrow> r' \<in># ?R \<Longrightarrow> fst r' \<noteq> bid"
      "n = 0 \<Longrightarrow> d \<in> U \<Longrightarrow> \<not> is_pattern d \<Longrightarrow> dict_get (dd_table dd') (sha d) = Some e \<Longrightarrow>
        de_block_id e \<noteq> bid" for r' d e
    using inv_dereference[OF inv r n pe1_def] by auto
  have pe1: "pe_backend pe1 = pe_backend pe" "pe_deduplication pe1 = dd'" by (simp_all add: pe1_def)
  show ?thesis
  proof (cases "n = 0")
    case True
    obtain ok' b' where b': "be_delete_block ops bid (pe_backend pe1) = (ok', b')"
      by (cases "be_delete_block ops bid (pe_backend pe1)")
    have pe': "pe' = pe1\<lparr>pe_backend := b'\<rparr>"
      using del n True b' by (simp add: pe_delete_def Let_def pe1_def)
    have "pe_inv binv stored sha cdc U (pe1\<lparr>pe_backend := b'\<rparr>) ?R"
      using inv_drop_block[OF inv1 sole(1)[OF True] _ b'] sole(2)[OF True] pe1 by simp
    moreover obtain raw where "stored (pe_backend pe) bid = Some (raw, 1)"
      using rd by (auto simp: readable_def)
    then have "stored b' = ?st(bid := None)"
      using delete_present[OF I(2)] b' pe1 by fastforce
    ultimately show ?thesis using pe' by auto
  next
    case False
    then have "pe' = pe1" using del n by (simp add: pe_delete_def Let_def pe1_def)
    then show ?thesis using inv1 pe1 by simp
  qed
qed

lemma run_inv:
  assumes "pe_inv binv stored sha cdc U pe (mset refs)" and "dom (stored (pe_backend pe)) \<subseteq> used"
    and "distinct (call_uuids calls)" and "set (call_uuids calls) \<inter> used = {}"
    and "set (call_data calls) \<subseteq> U"
  shows "\<exists>pe' refs'. pe_run ops sha cdc calls (pe, refs) = Some (pe', refs') \<and>
           pe_inv binv stored sha cdc U pe' (mset refs')"
  using assms
proof (induction calls arbitrary: pe refs used)
  case (Cons c cs)
  show ?case
  proof (cases c)
    case (Store uuid data)
    then have fresh: "stored (pe_backend pe) uuid = None" using Cons.prems(2,4) by auto
    have data: "data \<in> U" using Cons.prems(5) Store by simp
    obtain rr pe' where rr: "reduce_and_store ops sha cdc uuid data pe = (Inr rr, pe')"
      and inv': "pe_inv binv stored sha cdc U pe'
        (add_mset (rr_block_id rr, dr_fingerprint (rr_dedupe_result rr), data) (mset refs))"
      and dom': "dom (stored (pe_backend pe')) \<subseteq> insert uuid (dom (stored (pe_backend pe)))"
      by (rule inv_reduce_and_store[OF Cons.prems(1) data fresh])
    have "dom (stored (pe_backend pe')) \<subseteq> insert uuid used" using dom' Cons.prems(2) by blast
    then show ?thesis
      using Cons.IH[of pe' "refs @ [(rr_block_id rr, dr_fingerprint (rr_dedupe_result rr), data)]"]
        inv' Cons.prems(3-5) Store rr by simp
  next
    case (Fetch i)
    show ?thesis
    proof (cases "i < length refs")
      case True
      obtain bid fp data where r: "refs ! i = (bid, fp, data)" by (cases "refs ! i")
      then have in_refs: "(bid, fp, data) \<in># mset refs" using True by (metis nth_mem_mset)
      obtain pe' where "retrieve ops cdc bid pe = (Inr data, pe')"
        "pe_inv binv stored sha cdc U pe' (mset refs)" "stored (pe_backend pe') = stored (pe_backend pe)"
        by (rule inv_retrieve[OF Cons.prems(1) in_refs])
      then show ?thesis using Cons.IH[of pe' refs used] Cons.prems(2-5) True Fetch r by simp
    qed (use Cons.IH[of pe refs used] Cons.prems Fetch in simp)
  next
    case (Drop i)
    show ?thesis
    proof (cases "i < length refs")
      case True
      obtain bid fp data where r: "refs ! i = (bid, fp, data)" by (cases "refs ! i")
      then have "(bid, fp, data) \<in># mset refs" using True by (metis nth_mem_mset)
      then have "pe_inv binv stored sha cdc U (snd (pe_delete ops bid fp pe))
           (mset (take i refs @ drop (Suc i) refs))"
        "dom (stored (pe_backend (snd (pe_delete ops bid fp pe)))) \<subseteq> used"
        using inv_delete[OF Cons.prems(1), of bid fp data] mset_remove_nth[OF True] r Cons.prems(2)
        by (metis prod.collapse, metis prod.collapse subset_trans)
      then show ?thesis using Cons.IH Cons.prems(3-5) True Drop r by simp
    qed (use Cons.IH[of pe refs used] Cons.prems Drop in simp)
  qed
qed auto

lemma inv_engine:
  assumes "PurityEngine b cfg = Inr pe" and "binv b" and "stored b = (\<lambda>_. None)"
    and "codecs_ok cdc" and "cfg_compression_algorithm cfg \<noteq> ''none''"
    and "cfg_pattern_removal_enabled cfg" "cfg_dedupe_enabled cfg" "cfg_compression_enabled cfg"
    and "collision_free sha U" and "\<And>d. d \<in> U \<Longrightarrow> storable (cfg_default_block_size cfg) d"
  shows "pe_inv binv stored sha cdc U pe {#}"
proof (rule pe_invI)
  show "dd_inv (pe_deduplication pe)"
    using assms(1) by (auto simp: PurityEngine_def dd_inv_init split: sum.splits)
qed (use assms in \<open>auto simp: PurityEngine_def PatternRemoval_def CompressionEngine_def
       CompressionAlgorithm_def pe_config_def entry_ok_def refs_to_def DeduplicationEngine_def
       split: sum.splits if_splits\<close>)

end

section \<open>The engine on the file backend\<close>

definition all_stages_on :: "settings \<Rightarrow> bool" where
  "all_stages_on cfg \<longleftrightarrow>
     cfg_compression_algorithm cfg \<noteq> ''none'' \<and> cfg_pattern_removal_enabled cfg \<and>
     cfg_dedupe_enabled cfg \<and> cfg_compression_enabled cfg"

lemma engine_run:
  assumes "PurityEngine FileBackend cfg = Inr pe0" and "all_stages_on cfg" and "codecs_ok cdc"
    and "collision_free sha (set (call_data calls))"
    and "\<forall>d \<in> set (call_data calls). storable (cfg_default_block_size cfg) d"
    and "distinct (call_uuids calls)"
  obtains pe refs where "pe_run (file_backend_ops sha) sha cdc calls (pe0, []) = Some (pe, refs)"
    "pe_inv (fb_inv sha) fb_stored sha cdc (set (call_data calls)) pe (mset refs)"
proof -
  have empty: "fb_stored FileBackend = (\<lambda>_. None)" by (rule ext) (rule fb_stored_init)
  have "pe_inv (fb_inv sha) fb_stored sha cdc (set (call_data calls)) pe0 (mset [])"
    using fb.inv_engine[OF assms(1) fb_inv_init empty assms(3) _ _ _ _ assms(4)] assms(2,5)
    by (simp add: all_stages_on_def)
  moreover have "pe_backend pe0 = FileBackend"
    using assms(1) by (auto simp: PurityEngine_def split: sum.splits)
  ultimately show thesis
    using fb.run_inv[of sha sha cdc "set (call_data calls)" pe0 "[]" "{}" calls] that assms(6) empty by auto
qed

text \<open>
  C3. The data reduction pipeline keeps the data it is given. A caller stores, fetches and drops
  blocks in any order, on a fresh \<^verbatim>\<open>PurityEngine\<close> over an empty \<^verbatim>\<open>FileBackend\<close>, with pattern removal,
  deduplication and compression on; all-zero blocks have the configured size and no block is shaped
  like a marker; SHA-256 does not collide on the blocks used, and the codecs decompress what they
  compressed. Then no call raises, and every reference the caller still holds retrieves the bytes it was
  created with, whatever else was deduplicated against it, compressed or deleted in between.
\<close>

theorem purity_engine_keeps_data:
  assumes "PurityEngine FileBackend cfg = Inr pe0" and "all_stages_on cfg" and "codecs_ok cdc"
    and "collision_free sha (set (call_data calls))"
    and "\<forall>d \<in> set (call_data calls). storable (cfg_default_block_size cfg) d"
    and "distinct (call_uuids calls)"
  shows "\<exists>pe refs. pe_run (file_backend_ops sha) sha cdc calls (pe0, []) = Some (pe, refs) \<and>
           (\<forall>(bid, fp, data) \<in> set refs. fst (retrieve (file_backend_ops sha) cdc bid pe) = Inr data)"
proof -
  obtain pe refs where run: "pe_run (file_backend_ops sha) sha cdc calls (pe0, []) = Some (pe, refs)"
    and inv: "pe_inv (fb_inv sha) fb_stored sha cdc (set (call_data calls)) pe (mset refs)"
    by (rule engine_run[OF assms])
  have "fst (retrieve (file_backend_ops sha) cdc bid pe) = Inr data" if "(bid, fp, data) \<in> set refs" for bid fp data
  proof -
    have "(bid, fp, data) \<in># mset refs" using that by simp
    then show ?thesis using fb.inv_retrieve[OF inv] by (metis fst_conv)
  qed
  then show ?thesis using run by blast
qed

definition length_hash :: "bytes \<Rightarrow> string" where
  "length_hash data = replicate (length data) CHR ''x''"

lemma all_stages_on_default: "all_stages_on default_settings"
  by (simp add: all_stages_on_def default_settings_def)

lemma default_engine: "\<exists>pe. PurityEngine b default_settings = Inr pe"
  by (simp add: PurityEngine_def CompressionEngine_def CompressionAlgorithm_def default_settings_def)

text \<open>A history of one store of a short block, for the witnesses.\<close>

lemma demo_hash:
  assumes "length data < 10"
  shows "collision_free length_hash {data}"
proof -
  have "length_hash data \<noteq> length_hash (pattern_code data)"
    using assms by (auto simp: length_hash_def length_pattern_code dest!: arg_cong[of _ _ length]
        split: if_splits)
  then show ?thesis by (auto simp: collision_free_def inj_on_def)
qed

lemma demo_history:
  assumes "length data < 10" and "data \<noteq> []" and "hd data \<noteq> 0"
  obtains pe0 pe bid fp where
    "PurityEngine FileBackend default_settings = Inr pe0"
    "collision_free length_hash (set (call_data [Store ''id1'' data]))"
    "\<forall>d \<in> set (call_data [Store ''id1'' data]). storable (cfg_default_block_size default_settings) d"
    "distinct (call_uuids [Store ''id1'' data])"
    "pe_run (file_backend_ops length_hash) length_hash demo_codecs [Store ''id1'' data] (pe0, [])
     = Some (pe, [(bid, fp, data)])"
proof -
  obtain pe0 where pe0: "PurityEngine FileBackend default_settings = Inr pe0"
    using default_engine[of FileBackend] by (elim exE)
  have c: "collision_free length_hash (set (call_data [Store ''id1'' data]))"
    using demo_hash[OF assms(1)] by simp
  have s: "\<forall>d \<in> set (call_data [Store ''id1'' data]). storable (cfg_default_block_size default_settings) d"
    using storable_short[OF assms] by simp
  have d: "distinct (call_uuids [Store ''id1'' data])" by simp
  obtain pe refs where run: "pe_run (file_backend_ops length_hash) length_hash demo_codecs
      [Store ''id1'' data] (pe0, []) = Some (pe, refs)"
    by (rule engine_run[OF pe0 all_stages_on_default demo_codecs_ok c s d])
  obtain x pe' where x: "reduce_and_store (file_backend_ops length_hash) length_hash demo_codecs
      ''id1'' data pe0 = (x, pe')"
    by (rule prod.exhaust)
  have "\<exists>bid fp. refs = [(bid, fp, data)]" using run x by (cases x) auto
  then show thesis using that[OF pe0 c s d] run by (elim exE) simp
qed

theorem purity_engine_keeps_data_witness:
  "\<exists>pe0 pe refs. PurityEngine FileBackend default_settings = Inr pe0 \<and>
     pe_run (file_backend_ops length_hash) length_hash demo_codecs
       [Store ''id1'' [1, 2], Store ''id2'' [1, 2], Drop 0] (pe0, []) = Some (pe, refs) \<and>
     (\<forall>(bid, fp, data) \<in> set refs.
        fst (retrieve (file_backend_ops length_hash) demo_codecs bid pe) = Inr data)"
proof -
  let ?calls = "[Store ''id1'' [1, 2], Store ''id2'' [1, 2], Drop 0]"
  obtain pe0 where pe0: "PurityEngine FileBackend default_settings = Inr pe0"
    using default_engine[of FileBackend] by (elim exE)
  have data: "set (call_data ?calls) = {[1, 2]}" by simp
  have "collision_free length_hash (set (call_data ?calls))"
    unfolding data by (rule demo_hash) simp
  moreover have "storable (cfg_default_block_size default_settings) [1, 2]"
    by (rule storable_short) simp_all
  then have "\<forall>d \<in> set (call_data ?calls). storable (cfg_default_block_size default_settings) d"
    unfolding data by blast
  moreover have "distinct (call_uuids ?calls)" by simp
  ultimately have "\<exists>pe refs. pe_run (file_backend_ops length_hash) length_hash demo_codecs ?calls (pe0, [])
      = Some (pe, refs) \<and> (\<forall>(bid, fp, data) \<in> set refs.
         fst (retrieve (file_backend_ops length_hash) demo_codecs bid pe) = Inr data)"
    by (intro purity_engine_keeps_data [OF pe0 all_stages_on_default demo_codecs_ok, of length_hash ?calls])
  then obtain pe refs where "pe_run (file_backend_ops length_hash) length_hash demo_codecs ?calls (pe0, [])
      = Some (pe, refs)" "\<forall>(bid, fp, data) \<in> set refs.
         fst (retrieve (file_backend_ops length_hash) demo_codecs bid pe) = Inr data"
    by (elim exE conjE)
  with pe0 show ?thesis by (intro exI[of _ pe0] exI[of _ pe] exI[of _ refs] conjI)
qed

text \<open>
  C24. Deduplication takes effect: after any such history, storing again a block that a caller still
  holds (and that is not a pattern block) writes nothing to the backend and gives out the id of the
  block already stored.
\<close>

theorem duplicate_block_not_stored_again:
  assumes "PurityEngine FileBackend cfg = Inr pe0" and "all_stages_on cfg" and "codecs_ok cdc"
    and "collision_free sha (set (call_data calls))"
    and "\<forall>d \<in> set (call_data calls). storable (cfg_default_block_size cfg) d"
    and "distinct (call_uuids calls)"
    and run: "pe_run (file_backend_ops sha) sha cdc calls (pe0, []) = Some (pe, refs)"
    and held: "(bid, fp, data) \<in> set refs" and np: "\<not> is_pattern data"
  shows "\<exists>rr pe'. reduce_and_store (file_backend_ops sha) sha cdc uuid data pe = (Inr rr, pe') \<and>
           rr_was_deduplicated rr \<and> rr_block_id rr = bid \<and> rr_stored_size rr = 0 \<and>
           pe_backend pe' = pe_backend pe"
proof -
  have inv: "pe_inv (fb_inv sha) fb_stored sha cdc (set (call_data calls)) pe (mset refs)"
    using engine_run[OF assms(1-6)] run by (metis option.inject prod.inject)
  note I = pe_invD[OF inv]
  have r: "(bid, fp, data) \<in># mset refs" using held by simp
  have data: "data \<in> set (call_data calls)" using I(6)[OF r] by (simp add: ref_ok_def)
  have eo: "entry_ok (fb_stored (pe_backend pe)) sha cdc pe (mset refs) data" by (rule I(8)[OF data np])
  obtain e where e: "dict_get (dd_table (pe_deduplication pe)) (sha data) = Some e" "de_block_id e = bid"
    using eo r refs_to_emptyD[of data "mset refs" bid fp]
    by (cases "dict_get (dd_table (pe_deduplication pe)) (sha data)") (auto simp: entry_ok_def)
  have "dict_get (dd_table (pe_deduplication pe)) (sha (current_form data)) = Some e"
    using e np by (simp add: current_form_def)
  from reduce_and_store_duplicate[OF I(1) I(5)[OF data], of sha e, OF this]
  obtain rr pe' where "reduce_and_store (file_backend_ops sha) sha cdc uuid data pe = (Inr rr, pe')"
    "rr_block_id rr = de_block_id e" "rr_was_deduplicated rr" "rr_stored_size rr = 0"
    "pe_core pe' = pe_core (pe\<lparr>pe_deduplication :=
       snd (register_block sha (pe_deduplication pe) (current_form data) (de_block_id e))\<rparr>)"
    by metis
  then show ?thesis using e by (simp add: pe_core_def)
qed

theorem duplicate_block_not_stored_again_witness:
  "\<exists>pe0 pe bid fp rr pe'.
     pe_run (file_backend_ops length_hash) length_hash demo_codecs [Store ''id1'' [1, 2]] (pe0, [])
     = Some (pe, [(bid, fp, [1, 2])]) \<and>
     reduce_and_store (file_backend_ops length_hash) length_hash demo_codecs ''id2'' [1, 2] pe
     = (Inr rr, pe') \<and> rr_block_id rr = bid \<and> pe_backend pe' = pe_backend pe"
proof (rule demo_history[of "[1, 2]"])
  fix pe0 pe bid fp
  assume h: "PurityEngine FileBackend default_settings = Inr pe0"
    "collision_free length_hash (set (call_data [Store ''id1'' [1, 2]]))"
    "\<forall>d \<in> set (call_data [Store ''id1'' [1, 2]]). storable (cfg_default_block_size default_settings) d"
    "distinct (call_uuids [Store ''id1'' [1, 2]])"
    and run: "pe_run (file_backend_ops length_hash) length_hash demo_codecs [Store ''id1'' [1, 2]] (pe0, [])
     = Some (pe, [(bid, fp, [1, 2])])"
  have "(bid, fp, [1, 2]) \<in> set [(bid, fp, [1, 2])]" "\<not> is_pattern [1, 2]"
    by (simp_all add: is_pattern_code)
  from duplicate_block_not_stored_again [OF h(1) all_stages_on_default demo_codecs_ok h(2-4) run this,
      of "''id2''"]
  show ?thesis using run by (elim exE conjE) (intro exI conjI)
qed simp_all

text \<open>
  C39. Pattern blocks are never deduplicated. The table is asked for the fingerprint of the marker
  but filled with the fingerprint of the raw block, so, after any such history, storing a block made
  of one repeated byte writes one more marker block under a new id, however often it is already stored.
\<close>

theorem pattern_block_stored_again:
  assumes "PurityEngine FileBackend cfg = Inr pe0" and "all_stages_on cfg" and "codecs_ok cdc"
    and "collision_free sha (set (call_data calls))"
    and "\<forall>d \<in> set (call_data calls). storable (cfg_default_block_size cfg) d"
    and "distinct (call_uuids calls)"
    and run: "pe_run (file_backend_ops sha) sha cdc calls (pe0, []) = Some (pe, refs)"
    and data: "data \<in> set (call_data calls)" and pat: "is_pattern data"
  shows "\<exists>rr pe'. reduce_and_store (file_backend_ops sha) sha cdc uuid data pe = (Inr rr, pe') \<and>
           \<not> rr_was_deduplicated rr \<and> rr_block_id rr = uuid \<and>
           pe_backend pe' = snd (fb_write_block sha uuid (pattern_code data) (pe_backend pe))"
proof -
  have inv: "pe_inv (fb_inv sha) fb_stored sha cdc (set (call_data calls)) pe (mset refs)"
    using engine_run[OF assms(1-6)] run by (metis option.inject prod.inject)
  note I = pe_invD[OF inv]
  have "dict_get (dd_table (pe_deduplication pe)) (sha (current_form data)) = None"
    using I(7)[OF data pat] pat by (simp add: current_form_def)
  from reduce_and_store_new[OF I(1) I(5)[OF data], of sha, OF this]
  obtain rr pe' ce where "reduce_and_store (file_backend_ops sha) sha cdc uuid data pe = (Inr rr, pe')"
    "rr_block_id rr = uuid" "\<not> rr_was_deduplicated rr"
    "pe_core pe' = pe_core (pe\<lparr>
       pe_backend := snd (be_write_block (file_backend_ops sha) uuid (raw_form cdc ce data) (pe_backend pe)),
       pe_deduplication := snd (register_block sha (pe_deduplication pe) data uuid)\<rparr>)"
    by metis
  then show ?thesis using pat by (simp add: pe_core_def raw_form_def file_backend_ops_def)
qed

theorem pattern_block_stored_again_witness:
  "\<exists>pe0 pe bid fp rr pe'.
     pe_run (file_backend_ops length_hash) length_hash demo_codecs [Store ''id1'' [7, 7]] (pe0, [])
     = Some (pe, [(bid, fp, [7, 7])]) \<and>
     reduce_and_store (file_backend_ops length_hash) length_hash demo_codecs ''id2'' [7, 7] pe
     = (Inr rr, pe') \<and> \<not> rr_was_deduplicated rr \<and> rr_block_id rr = ''id2''"
proof (rule demo_history[of "[7, 7]"])
  fix pe0 pe bid fp
  assume h: "PurityEngine FileBackend default_settings = Inr pe0"
    "collision_free length_hash (set (call_data [Store ''id1'' [7, 7]]))"
    "\<forall>d \<in> set (call_data [Store ''id1'' [7, 7]]). storable (cfg_default_block_size default_settings) d"
    "distinct (call_uuids [Store ''id1'' [7, 7]])"
    and run: "pe_run (file_backend_ops length_hash) length_hash demo_codecs [Store ''id1'' [7, 7]] (pe0, [])
     = Some (pe, [(bid, fp, [7, 7])])"
  have "[7, 7] \<in> set (call_data [Store ''id1'' [7, 7]])" "is_pattern [7, 7]"
    by (simp_all add: is_pattern_code)
  from pattern_block_stored_again [OF h(1) all_stages_on_default demo_codecs_ok h(2-4) run this,
      of "''id2''"]
  show ?thesis using run by (elim exE conjE) (intro exI conjI)
qed simp_all

end
