(* ===== verification/Block_Manager.thy ===== *)
theory Block_Manager
  imports Config
begin

text \<open>
  \<^verbatim>\<open>directflash/block_manager.py\<close>: the logical-to-physical mapping of the flash simulator. Every
  method runs under the manager's \<^verbatim>\<open>asyncio.Lock\<close>, so a method is one step. \<^verbatim>\<open>min\<close> over the set of
  free blocks takes the first least element in the iteration order of the set, which Python does not
  specify: that order is an argument (\<open>iter\<close>) of the operations that need it.
\<close>

section \<open>State and operations\<close>

datatype block_state = FREE | VALID | INVALID | BAD

record physical_block =
  pb_block_id :: int
  pb_state :: block_state
  pb_erase_count :: int
  pb_data :: bytes
  pb_logical_address :: "int option"

definition PhysicalBlock :: "int \<Rightarrow> physical_block" where
  "PhysicalBlock i = \<lparr> pb_block_id = i, pb_state = FREE, pb_erase_count = 0, pb_data = [],
                       pb_logical_address = None \<rparr>"

abbreviation is_free :: "physical_block \<Rightarrow> bool" where
  "is_free b \<equiv> pb_state b = FREE"

abbreviation is_valid :: "physical_block \<Rightarrow> bool" where
  "is_valid b \<equiv> pb_state b = VALID"

abbreviation is_invalid :: "physical_block \<Rightarrow> bool" where
  "is_invalid b \<equiv> pb_state b = INVALID"

record block_manager_stats =
  bs_total_blocks :: int
  bs_free_blocks :: int
  bs_valid_blocks :: int
  bs_invalid_blocks :: int
  bs_bad_blocks :: int
  bs_total_writes :: int
  bs_total_reads :: int
  bs_total_erases :: int

record block_manager =
  bm_total_blocks :: int
  bm_block_size :: int
  bm_page_size :: int
  bm_pages_per_block :: int
  bm_max_erase_count :: int
  bm_blocks :: "(int, physical_block) dict"
  bm_l2p :: "(int, int) dict"
  bm_free :: "int set"
  bm_stats :: block_manager_stats

definition BlockManager :: "int \<Rightarrow> int \<Rightarrow> int \<Rightarrow> int \<Rightarrow> block_manager result" where
  "BlockManager total_blocks block_size page_size max_erase_count =
     (if page_size = 0 then Inl ZeroDivisionError
      else Inr \<lparr> bm_total_blocks = total_blocks, bm_block_size = block_size, bm_page_size = page_size,
                 bm_pages_per_block = block_size div page_size, bm_max_erase_count = max_erase_count,
                 bm_blocks = map (\<lambda>i. (i, PhysicalBlock i)) [0..total_blocks - 1],
                 bm_l2p = [], bm_free = set [0..total_blocks - 1],
                 bm_stats = \<lparr> bs_total_blocks = total_blocks, bs_free_blocks = total_blocks,
                              bs_valid_blocks = 0, bs_invalid_blocks = 0, bs_bad_blocks = 0,
                              bs_total_writes = 0, bs_total_reads = 0, bs_total_erases = 0 \<rparr> \<rparr>)"

text \<open>Assignments to fields of a block and of the statistics.\<close>

definition set_block :: "int \<Rightarrow> physical_block \<Rightarrow> block_manager \<Rightarrow> block_manager" where
  "set_block p b bm = bm\<lparr>bm_blocks := dict_set p b (bm_blocks bm)\<rparr>"

abbreviation count_stats ::
    "(block_manager_stats \<Rightarrow> block_manager_stats) \<Rightarrow> block_manager \<Rightarrow> block_manager" where
  "count_stats f bm \<equiv> bm\<lparr>bm_stats := f (bm_stats bm)\<rparr>"

text \<open>\<^verbatim>\<open>min(self._free_blocks, key=...)\<close> with the removal from the pool that follows it.\<close>

definition take_free :: "(int set \<Rightarrow> int list) \<Rightarrow> block_manager \<Rightarrow> (block_manager, int option) outcome" where
  "take_free iter bm =
     (let free = iter (bm_free bm) in
      if free = [] then (Inr None, bm)
      else if \<not> list_all (has_key (bm_blocks bm)) free then (Inl (KeyError ''block''), bm)
      else let p = arg_min_list (\<lambda>p. pb_erase_count (the (dict_get (bm_blocks bm) p))) free
           in (Inr (Some p),
               count_stats (\<lambda>st. st\<lparr>bs_free_blocks := bs_free_blocks st - 1\<rparr>)
                 (bm\<lparr>bm_free := bm_free bm - {p}\<rparr>)))"

definition bm_allocate_block ::
    "(int set \<Rightarrow> int list) \<Rightarrow> block_manager \<Rightarrow> (block_manager, int option) outcome" where
  "bm_allocate_block iter bm = take_free iter bm"

text \<open>Lines 134-140 of \<^verbatim>\<open>write_block\<close>: an address already mapped gives up its physical block.\<close>

definition invalidate_old :: "int \<Rightarrow> block_manager \<Rightarrow> (block_manager, unit) outcome" where
  "invalidate_old la bm =
     (case dict_get (bm_l2p bm) la of
        None \<Rightarrow> (Inr (), bm)
      | Some old \<Rightarrow>
          (case dict_get (bm_blocks bm) old of
             None \<Rightarrow> (Inl (KeyError ''block''), bm)
           | Some b \<Rightarrow>
               (Inr (), count_stats (\<lambda>st. st\<lparr> bs_valid_blocks := bs_valid_blocks st - 1,
                                              bs_invalid_blocks := bs_invalid_blocks st + 1 \<rparr>)
                  (set_block old (b\<lparr>pb_state := INVALID, pb_logical_address := None\<rparr>) bm))))"

definition bm_write_block ::
    "(int set \<Rightarrow> int list) \<Rightarrow> int \<Rightarrow> bytes \<Rightarrow> block_manager
     \<Rightarrow> (block_manager, int \<times> bool) outcome" where
  "bm_write_block iter la data bm =
     (if bm_block_size bm < int (length data) then (Inl (ValueError ''Data too large''), bm)
      else case invalidate_old la bm of
             (Inl e, bm) \<Rightarrow> (Inl e, bm)
           | (Inr _, bm) \<Rightarrow>
               (case take_free iter bm of
                  (Inl e, bm) \<Rightarrow> (Inl e, bm)
                | (Inr None, bm) \<Rightarrow> (Inr (-1, False), bm)
                | (Inr (Some p), bm) \<Rightarrow>
                    (case dict_get (bm_blocks bm) p of
                       None \<Rightarrow> (Inl (KeyError ''block''), bm)
                     | Some b \<Rightarrow>
                         (Inr (p, True),
                          count_stats (\<lambda>st. st\<lparr> bs_valid_blocks := bs_valid_blocks st + 1,
                                                bs_total_writes := bs_total_writes st + 1 \<rparr>)
                            ((set_block p (b\<lparr> pb_data := data, pb_state := VALID,
                                              pb_logical_address := Some la \<rparr>) bm)
                               \<lparr>bm_l2p := dict_set la p (bm_l2p bm)\<rparr>)))))"

definition bm_read_block :: "int \<Rightarrow> block_manager \<Rightarrow> (block_manager, bytes option) outcome" where
  "bm_read_block la bm =
     (case dict_get (bm_l2p bm) la of
        None \<Rightarrow> (Inr None, bm)
      | Some p \<Rightarrow>
          (case dict_get (bm_blocks bm) p of
             None \<Rightarrow> (Inl (KeyError ''block''), bm)
           | Some b \<Rightarrow>
               if pb_state b \<noteq> VALID then (Inr None, bm)
               else (Inr (Some (pb_data b)),
                     count_stats (\<lambda>st. st\<lparr>bs_total_reads := bs_total_reads st + 1\<rparr>) bm)))"

definition bm_delete_block :: "int \<Rightarrow> block_manager \<Rightarrow> (block_manager, bool) outcome" where
  "bm_delete_block la bm =
     (case dict_get (bm_l2p bm) la of
        None \<Rightarrow> (Inr False, bm)
      | Some p \<Rightarrow>
          (case dict_get (bm_blocks bm) p of
             None \<Rightarrow> (Inl (KeyError ''block''), bm)
           | Some b \<Rightarrow>
               (Inr True,
                count_stats (\<lambda>st. st\<lparr> bs_valid_blocks := bs_valid_blocks st - 1,
                                      bs_invalid_blocks := bs_invalid_blocks st + 1 \<rparr>)
                  ((set_block p (b\<lparr>pb_state := INVALID, pb_logical_address := None\<rparr>) bm)
                     \<lparr>bm_l2p := dict_del la (bm_l2p bm)\<rparr>))))"

text \<open>
  \<^verbatim>\<open>erase_block\<close>. The two tests \<^verbatim>\<open>block.state == BlockState.INVALID\<close> come after the assignment to the
  state, and are written out as the source has them.
\<close>

definition bm_erase_block :: "int \<Rightarrow> block_manager \<Rightarrow> bool \<times> block_manager" where
  "bm_erase_block p bm =
     (case dict_get (bm_blocks bm) p of
        None \<Rightarrow> (False, bm)
      | Some b \<Rightarrow>
          if pb_state b = BAD then (False, bm)
          else let b = b\<lparr>pb_erase_count := pb_erase_count b + 1\<rparr>
               in if bm_max_erase_count bm \<le> pb_erase_count b then
                    let b = b\<lparr>pb_state := BAD\<rparr>
                    in (False, count_stats (\<lambda>st. st\<lparr> bs_bad_blocks := bs_bad_blocks st + 1,
                                  bs_invalid_blocks := (if pb_state b = INVALID
                                    then bs_invalid_blocks st - 1 else bs_invalid_blocks st) \<rparr>)
                          (set_block p b bm))
                  else
                    let b = b\<lparr>pb_data := [], pb_state := FREE, pb_logical_address := None\<rparr>
                    in (True, count_stats (\<lambda>st. st\<lparr>
                                  bs_invalid_blocks := (if pb_state b = INVALID
                                    then bs_invalid_blocks st - 1 else bs_invalid_blocks st),
                                  bs_free_blocks := bs_free_blocks st + 1,
                                  bs_total_erases := bs_total_erases st + 1 \<rparr>)
                          ((set_block p b bm)\<lparr>bm_free := insert p (bm_free bm)\<rparr>)))"

definition bm_get_invalid_blocks :: "block_manager \<Rightarrow> int list" where
  "bm_get_invalid_blocks bm = [p. (p, b) \<leftarrow> bm_blocks bm, pb_state b = INVALID]"

definition bm_get_block_info :: "block_manager \<Rightarrow> int \<Rightarrow> physical_block option" where
  "bm_get_block_info bm p = dict_get (bm_blocks bm) p"

record bm_report =
  br_stats :: block_manager_stats
  br_avg_erase_count :: double
  br_max_erase_count :: int
  br_min_erase_count :: int
  br_utilization :: double

text \<open>
  \<^verbatim>\<open>get_stats\<close>. An empty flash divides by zero; \<^verbatim>\<open>min\<close> raises when every block is bad.
\<close>

definition bm_get_stats :: "block_manager \<Rightarrow> bm_report result" where
  "bm_get_stats bm =
     (let counts = map pb_erase_count (dict_values (bm_blocks bm));
          usable = [pb_erase_count b. b \<leftarrow> dict_values (bm_blocks bm), pb_state b \<noteq> BAD]
      in if bm_total_blocks bm = 0 then Inl ZeroDivisionError
         else if counts = [] then Inl (ValueError ''max() arg is an empty sequence'')
         else if usable = [] then Inl (ValueError ''min() arg is an empty sequence'')
         else if bs_total_blocks (bm_stats bm) = 0 then Inl ZeroDivisionError
         else Inr \<lparr> br_stats = bm_stats bm,
                    br_avg_erase_count =
                      fdiv (of_int (sum_list counts)) (of_int (bm_total_blocks bm)),
                    br_max_erase_count = Max (set counts),
                    br_min_erase_count = Min (set usable),
                    br_utilization = fdiv (of_int (bs_valid_blocks (bm_stats bm)))
                                          (of_int (bs_total_blocks (bm_stats bm))) \<rparr>)"

lemma bm_get_stats_bounds:
  assumes "bm_get_stats bm = Inr r" and "dict_get (bm_blocks bm) p = Some b"
  shows "pb_erase_count b \<le> br_max_erase_count r"
    and "pb_state b \<noteq> BAD \<Longrightarrow> br_min_erase_count r \<le> pb_erase_count b"
proof -
  let ?counts = "map pb_erase_count (dict_values (bm_blocks bm))"
  let ?usable = "[pb_erase_count b. b \<leftarrow> dict_values (bm_blocks bm), pb_state b \<noteq> BAD]"
  have r: "br_max_erase_count r = Max (set ?counts)" "br_min_erase_count r = Min (set ?usable)"
    using assms(1) unfolding bm_get_stats_def Let_def
    by (metis (no_types, lifting) Inl_Inr_False Inr_inject bm_report.select_convs(3,4))+
  have b: "b \<in> set (dict_values (bm_blocks bm))" using map_of_SomeD[OF assms(2)] by force
  then have "pb_erase_count b \<in> set ?counts" unfolding set_map by (rule imageI)
  then show "pb_erase_count b \<le> br_max_erase_count r" unfolding r by (intro Max_ge finite_set)
  have "pb_erase_count b \<in> set ?usable" if "pb_state b \<noteq> BAD"
    using b that unfolding set_concat set_map by auto
  then show "pb_state b \<noteq> BAD \<Longrightarrow> br_min_erase_count r \<le> pb_erase_count b"
    unfolding r by (intro Min_le finite_set)
qed

section \<open>The mapping and its contents\<close>

text \<open>
  The mapping invariant, on the block table \<open>B\<close>, the L2P table \<open>M\<close> and the free pool \<open>F\<close>: the pool
  holds the free blocks, and the valid blocks and the mapped addresses are in bijection.
\<close>

definition maps_ok ::
    "(int \<Rightarrow> physical_block option) \<Rightarrow> (int \<Rightarrow> int option) \<Rightarrow> int set \<Rightarrow> bool" where
  "maps_ok B M F \<longleftrightarrow>
     F = {p. \<exists>b. B p = Some b \<and> is_free b} \<and>
     (\<forall>la p. M la = Some p \<longrightarrow> (\<exists>b. B p = Some b \<and> is_valid b \<and> pb_logical_address b = Some la)) \<and>
     (\<forall>p b. B p = Some b \<and> is_valid b \<longrightarrow> (\<exists>la. pb_logical_address b = Some la \<and> M la = Some p))"

definition content_of ::
    "(int \<Rightarrow> physical_block option) \<Rightarrow> (int \<Rightarrow> int option) \<Rightarrow> int \<Rightarrow> bytes option" where
  "content_of B M la =
     (case M la of
        None \<Rightarrow> None
      | Some p \<Rightarrow> (case B p of None \<Rightarrow> None | Some b \<Rightarrow> if is_valid b then Some (pb_data b) else None))"

lemma maps_okD:
  assumes "maps_ok B M F"
  shows "p \<in> F \<longleftrightarrow> (\<exists>b. B p = Some b \<and> is_free b)"
    and "M la = Some p \<Longrightarrow> \<exists>b. B p = Some b \<and> is_valid b \<and> pb_logical_address b = Some la"
    and "B p = Some b \<Longrightarrow> is_valid b \<Longrightarrow> \<exists>la. pb_logical_address b = Some la \<and> M la = Some p"
  using assms by (auto simp: maps_ok_def)

lemma maps_okI:
  assumes "\<And>p. p \<in> F \<longleftrightarrow> (\<exists>b. B p = Some b \<and> is_free b)"
    and "\<And>la p. M la = Some p \<Longrightarrow> \<exists>b. B p = Some b \<and> is_valid b \<and> pb_logical_address b = Some la"
    and "\<And>p b. B p = Some b \<Longrightarrow> is_valid b \<Longrightarrow> \<exists>la. pb_logical_address b = Some la \<and> M la = Some p"
  shows "maps_ok B M F"
  using assms by (auto simp: maps_ok_def)

lemma content_of_cong: "M la = M' la \<Longrightarrow> (\<And>p. M' la = Some p \<Longrightarrow> B p = B' p) \<Longrightarrow>
  content_of B M la = content_of B' M' la"
  by (simp add: content_of_def split: option.split)

lemma content_None: "maps_ok B M F \<Longrightarrow> content_of B M la = None \<longleftrightarrow> M la = None"
  by (fastforce simp: content_of_def maps_ok_def split: option.splits)

lemma maps_ok_remove:
  assumes ok: "maps_ok B M F" and m: "M la = Some p" and b: "B p = Some b"
    and b': "pb_state b' = INVALID"
  shows "maps_ok (B(p \<mapsto> b')) (M(la := None)) F"
    and "content_of (B(p \<mapsto> b')) (M(la := None)) = (content_of B M)(la := None)"
proof -
  have v: "is_valid b" "pb_logical_address b = Some la" using maps_okD(2)[OF ok m] b by auto
  have other: "M la' \<noteq> Some p" if "la' \<noteq> la" for la'
    using maps_okD(2)[OF ok, of la' p] b v that by auto
  show "maps_ok (B(p \<mapsto> b')) (M(la := None)) F"
  proof (rule maps_okI)
    show "q \<in> F \<longleftrightarrow> (\<exists>c. (B(p \<mapsto> b')) q = Some c \<and> is_free c)" for q
      using maps_okD(1)[OF ok, of q] b b' v by auto
    show "\<exists>c. (B(p \<mapsto> b')) q = Some c \<and> is_valid c \<and> pb_logical_address c = Some la'"
      if "(M(la := None)) la' = Some q" for la' q
      using maps_okD(2)[OF ok, of la' q] other[of la'] that by (auto split: if_splits)
    show "\<exists>la'. pb_logical_address c = Some la' \<and> (M(la := None)) la' = Some q"
      if "(B(p \<mapsto> b')) q = Some c" "is_valid c" for q c
      using maps_okD(3)[OF ok, of q c] that b' m by (fastforce split: if_splits)
  qed
  show "content_of (B(p \<mapsto> b')) (M(la := None)) = (content_of B M)(la := None)"
  proof
    show "content_of (B(p \<mapsto> b')) (M(la := None)) la' = ((content_of B M)(la := None)) la'" for la'
      using other[of la']
      by (cases "la' = la") (simp add: content_of_def, auto intro!: content_of_cong)
  qed
qed

lemma maps_ok_add:
  assumes ok: "maps_ok B M F" and m: "M la = None" and b: "B p = Some b" "is_free b"
    and b': "pb_state b' = VALID" "pb_logical_address b' = Some la"
  shows "maps_ok (B(p \<mapsto> b')) (M(la \<mapsto> p)) (F - {p})"
    and "content_of (B(p \<mapsto> b')) (M(la \<mapsto> p)) = (content_of B M)(la \<mapsto> pb_data b')"
proof -
  have other: "M la' \<noteq> Some p" for la' using maps_okD(2)[OF ok, of la' p] b by auto
  show "maps_ok (B(p \<mapsto> b')) (M(la \<mapsto> p)) (F - {p})"
  proof (rule maps_okI)
    show "q \<in> F - {p} \<longleftrightarrow> (\<exists>c. (B(p \<mapsto> b')) q = Some c \<and> is_free c)" for q
      using maps_okD(1)[OF ok, of q] b' by auto
    show "\<exists>c. (B(p \<mapsto> b')) q = Some c \<and> is_valid c \<and> pb_logical_address c = Some la'"
      if "(M(la \<mapsto> p)) la' = Some q" for la' q
      using maps_okD(2)[OF ok, of la' q] other[of la'] that b' by (auto split: if_splits)
    show "\<exists>la'. pb_logical_address c = Some la' \<and> (M(la \<mapsto> p)) la' = Some q"
      if "(B(p \<mapsto> b')) q = Some c" "is_valid c" for q c
      using maps_okD(3)[OF ok, of q c] that b' m by (fastforce split: if_splits)
  qed
  show "content_of (B(p \<mapsto> b')) (M(la \<mapsto> p)) = (content_of B M)(la \<mapsto> pb_data b')"
  proof
    show "content_of (B(p \<mapsto> b')) (M(la \<mapsto> p)) la' = ((content_of B M)(la \<mapsto> pb_data b')) la'" for la'
      using other[of la'] b'
      by (cases "la' = la") (simp add: content_of_def, auto intro!: content_of_cong)
  qed
qed

lemma maps_ok_clear:
  assumes ok: "maps_ok B M F" and b: "B p = Some b" "is_invalid b"
  shows "pb_state b' = FREE \<Longrightarrow> maps_ok (B(p \<mapsto> b')) M (insert p F)"
    and "pb_state b' = BAD \<Longrightarrow> maps_ok (B(p \<mapsto> b')) M F"
    and "content_of (B(p \<mapsto> b')) M = content_of B M"
proof -
  have other: "M la \<noteq> Some p" for la using maps_okD(2)[OF ok, of la p] b by auto
  have m: "\<exists>c. (B(p \<mapsto> b')) q = Some c \<and> is_valid c \<and> pb_logical_address c = Some la"
    if "M la = Some q" for la q
    using maps_okD(2)[OF ok that] other[of la] that by auto
  have v: "\<exists>la. pb_logical_address c = Some la \<and> M la = Some q"
    if "(B(p \<mapsto> b')) q = Some c" "is_valid c" "pb_state b' \<noteq> VALID" for q c
    using maps_okD(3)[OF ok, of q c] that by (auto split: if_splits)
  show "maps_ok (B(p \<mapsto> b')) M (insert p F)" if "pb_state b' = FREE"
    using maps_okD(1)[OF ok] m v b that by (intro maps_okI) (auto split: if_splits)
  show "maps_ok (B(p \<mapsto> b')) M F" if "pb_state b' = BAD"
    using maps_okD(1)[OF ok] m v b that by (intro maps_okI) (auto split: if_splits)
  show "content_of (B(p \<mapsto> b')) M = content_of B M"
    using other by (intro ext content_of_cong) auto
qed

section \<open>Invariant, contents and counters of the manager\<close>

definition bm_content :: "block_manager \<Rightarrow> int \<Rightarrow> bytes option" where
  "bm_content bm = content_of (dict_get (bm_blocks bm)) (dict_get (bm_l2p bm))"

definition bm_inv :: "block_manager \<Rightarrow> bool" where
  "bm_inv bm \<longleftrightarrow> wf_dict (bm_blocks bm) \<and> wf_dict (bm_l2p bm) \<and>
     maps_ok (dict_get (bm_blocks bm)) (dict_get (bm_l2p bm)) (bm_free bm)"

text \<open>
  What the counters say: \<^verbatim>\<open>free_blocks\<close>, \<^verbatim>\<open>valid_blocks\<close> and \<^verbatim>\<open>bad_blocks\<close> count blocks;
  \<^verbatim>\<open>invalid_blocks\<close> is never decremented. Erase counts are not negative.
\<close>

definition bm_counts :: "block_manager \<Rightarrow> bool" where
  "bm_counts bm \<longleftrightarrow>
     (let st = bm_stats bm; bs = bm_blocks bm in
      bs_total_blocks st = bm_total_blocks bm \<and> bm_total_blocks bm = int (length bs) \<and>
      bs_free_blocks st = count_vals is_free bs \<and>
      bs_valid_blocks st = count_vals is_valid bs \<and>
      bs_bad_blocks st = count_vals (\<lambda>b. pb_state b = BAD) bs \<and>
      bs_invalid_blocks st = count_vals is_invalid bs + bs_total_erases st + bs_bad_blocks st \<and>
      (\<forall>p b. dict_get bs p = Some b \<longrightarrow> 0 \<le> pb_erase_count b))"

definition bm_config :: "block_manager \<Rightarrow> int \<times> int \<times> int" where
  "bm_config bm = (bm_total_blocks bm, bm_block_size bm, bm_max_erase_count bm)"

definition iter_ok :: "(int set \<Rightarrow> int list) \<Rightarrow> bool" where
  "iter_ok iter \<longleftrightarrow> (\<forall>S. finite S \<longrightarrow> set (iter S) = S)"

lemma iter_ok_sorted: "iter_ok sorted_list_of_set"
  by (simp add: iter_ok_def)

lemma bm_free_finite: "bm_inv bm \<Longrightarrow> finite (bm_free bm)"
  by (rule finite_subset[OF _ finite_dom_map_of[of "bm_blocks bm"]])
    (auto simp: bm_inv_def maps_ok_def)

lemma length_dict_set: "dict_get d k \<noteq> None \<Longrightarrow> length (dict_set k v d) = length d"
  by (induction d) (auto split: if_splits)

lemma set_block_simps [simp]:
  "bm_l2p (set_block p b bm) = bm_l2p bm" "bm_free (set_block p b bm) = bm_free bm"
  "bm_stats (set_block p b bm) = bm_stats bm" "bm_total_blocks (set_block p b bm) = bm_total_blocks bm"
  "bm_block_size (set_block p b bm) = bm_block_size bm"
  "bm_max_erase_count (set_block p b bm) = bm_max_erase_count bm"
  "bm_blocks (set_block p b bm) = dict_set p b (bm_blocks bm)"
  by (simp_all add: set_block_def)

lemmas bm_simps = bm_content_def bm_inv_def bm_config_def update_conv' delete_conv'

lemma take_free_ok:
  assumes fr: "bm_free bm = {p. \<exists>b. dict_get (bm_blocks bm) p = Some b \<and> is_free b}"
    and it: "iter_ok iter" and free: "bm_free bm \<noteq> {}"
  obtains p b where "take_free iter bm
      = (Inr (Some p), count_stats (\<lambda>st. st\<lparr>bs_free_blocks := bs_free_blocks st - 1\<rparr>)
                         (bm\<lparr>bm_free := bm_free bm - {p}\<rparr>))"
    "dict_get (bm_blocks bm) p = Some b" "is_free b"
    "\<And>q c. dict_get (bm_blocks bm) q = Some c \<Longrightarrow> is_free c \<Longrightarrow> pb_erase_count b \<le> pb_erase_count c"
proof -
  let ?key = "\<lambda>p. pb_erase_count (the (dict_get (bm_blocks bm) p))"
  define p where "p = arg_min_list ?key (iter (bm_free bm))"
  have fin: "finite (bm_free bm)"
    by (rule finite_subset[OF _ finite_dom_map_of[of "bm_blocks bm"]]) (auto simp: fr)
  then have s: "set (iter (bm_free bm)) = bm_free bm" using it by (simp add: iter_ok_def)
  then have ne: "iter (bm_free bm) \<noteq> []" using free by auto
  have "p \<in> bm_free bm" using arg_min_list_in[OF ne] s by (simp add: p_def)
  then obtain b where b: "dict_get (bm_blocks bm) p = Some b" "is_free b" using fr by blast
  have keys: "list_all (has_key (bm_blocks bm)) (iter (bm_free bm))"
    unfolding list_all_iff s by (auto simp: fr has_key_def)
  have "?key p = Min (?key ` bm_free bm)"
    using f_arg_min_list_f[OF ne, of ?key] s by (simp add: p_def)
  then have least: "?key p \<le> ?key q" if "q \<in> bm_free bm" for q
    using that fin by simp
  have "take_free iter bm
      = (Inr (Some p), count_stats (\<lambda>st. st\<lparr>bs_free_blocks := bs_free_blocks st - 1\<rparr>)
                         (bm\<lparr>bm_free := bm_free bm - {p}\<rparr>))"
    using ne keys by (simp add: take_free_def p_def Let_def)
  moreover have "pb_erase_count b \<le> pb_erase_count c"
    if "dict_get (bm_blocks bm) q = Some c" "is_free c" for q c
    using least[of q] fr that b by simp
  ultimately show thesis using that b by blast
qed

lemma take_free_none:
  assumes "iter_ok iter" and "bm_free bm = {}"
  shows "take_free iter bm = (Inr None, bm)"
proof -
  have "set (iter {}) = {}" using assms(1) unfolding iter_ok_def by blast
  then show ?thesis using assms(2) by (simp add: take_free_def)
qed

lemma bm_counts_erase_count: "bm_counts bm \<Longrightarrow> dict_get (bm_blocks bm) p = Some b \<Longrightarrow> 0 \<le> pb_erase_count b"
  by (auto simp: bm_counts_def Let_def)

lemmas bm_count_simps = bm_counts_def Let_def sum_vals_set length_dict_set

lemma invalidate_old_ok:
  assumes inv: "bm_inv bm"
  obtains bm1 where "invalidate_old la bm = (Inr (), bm1)" "wf_dict (bm_blocks bm1)"
    "maps_ok (dict_get (bm_blocks bm1)) ((dict_get (bm_l2p bm))(la := None)) (bm_free bm)"
    "content_of (dict_get (bm_blocks bm1)) ((dict_get (bm_l2p bm))(la := None))
     = (bm_content bm)(la := None)"
    "bm_l2p bm1 = bm_l2p bm" "bm_free bm1 = bm_free bm" "bm_config bm1 = bm_config bm"
    "bm_counts bm \<Longrightarrow> bm_counts bm1"
    "\<And>q c. is_free c \<Longrightarrow> dict_get (bm_blocks bm1) q = Some c \<longleftrightarrow> dict_get (bm_blocks bm) q = Some c"
proof (cases "dict_get (bm_l2p bm) la")
  case None
  then have same: "(dict_get (bm_l2p bm))(la := None) = dict_get (bm_l2p bm)"
    "(bm_content bm)(la := None) = bm_content bm"
    by (auto simp: bm_content_def content_of_def)
  show thesis
    by (rule that[of bm], unfold same)
      (use inv None in \<open>simp_all add: invalidate_old_def bm_inv_def bm_content_def\<close>)
next
  case (Some old)
  have ok: "maps_ok (dict_get (bm_blocks bm)) (dict_get (bm_l2p bm)) (bm_free bm)"
    and wf: "wf_dict (bm_blocks bm)"
    using inv by (simp_all add: bm_inv_def)
  obtain b where b: "dict_get (bm_blocks bm) old = Some b" "is_valid b"
    using maps_okD(2)[OF ok Some] by blast
  define b' where "b' = b\<lparr>pb_state := INVALID, pb_logical_address := None\<rparr>"
  have b': "pb_state b' = INVALID" by (simp add: b'_def)
  define bm1 where "bm1 = snd (invalidate_old la bm)"
  have f: "bm_blocks bm1 = dict_set old b' (bm_blocks bm)" "bm_l2p bm1 = bm_l2p bm"
    "bm_free bm1 = bm_free bm" "bm_config bm1 = bm_config bm" "bm_total_blocks bm1 = bm_total_blocks bm"
    "bm_stats bm1 = (bm_stats bm)\<lparr>bs_valid_blocks := bs_valid_blocks (bm_stats bm) - 1,
       bs_invalid_blocks := bs_invalid_blocks (bm_stats bm) + 1\<rparr>"
    using Some b by (simp_all add: bm1_def invalidate_old_def b'_def bm_config_def)
  show thesis
  proof (rule that[of bm1])
    show "invalidate_old la bm = (Inr (), bm1)" using Some b by (simp add: bm1_def invalidate_old_def)
    show "bm_counts bm1" if "bm_counts bm"
      using that b b' f bm_counts_erase_count[OF that b(1)] by (simp add: bm_count_simps b'_def)
  qed (use maps_ok_remove[OF ok Some b(1) b'] f wf b b' in \<open>auto simp: bm_content_def update_conv'\<close>)
qed

lemma write_ok:
  assumes inv: "bm_inv bm" and it: "iter_ok iter" and size: "int (length data) \<le> bm_block_size bm"
    and free: "bm_free bm \<noteq> {}"
  obtains p b bm' where "bm_write_block iter la data bm = (Inr (p, True), bm')"
    "bm_inv bm'" "bm_content bm' = (bm_content bm)(la \<mapsto> data)" "bm_config bm' = bm_config bm"
    "bm_counts bm \<Longrightarrow> bm_counts bm'" "dict_get (bm_blocks bm) p = Some b" "is_free b"
    "\<And>q c. dict_get (bm_blocks bm) q = Some c \<Longrightarrow> is_free c \<Longrightarrow> pb_erase_count b \<le> pb_erase_count c"
proof -
  obtain bm1 where old: "invalidate_old la bm = (Inr (), bm1)" and wf1: "wf_dict (bm_blocks bm1)"
    and ok: "maps_ok (dict_get (bm_blocks bm1)) ((dict_get (bm_l2p bm))(la := None)) (bm_free bm)"
    and con: "content_of (dict_get (bm_blocks bm1)) ((dict_get (bm_l2p bm))(la := None))
      = (bm_content bm)(la := None)"
    and same: "bm_l2p bm1 = bm_l2p bm" "bm_free bm1 = bm_free bm" "bm_config bm1 = bm_config bm"
    and cnt: "bm_counts bm \<Longrightarrow> bm_counts bm1"
    and frees: "\<And>q c. is_free c \<Longrightarrow>
      dict_get (bm_blocks bm1) q = Some c \<longleftrightarrow> dict_get (bm_blocks bm) q = Some c"
    by (rule invalidate_old_ok[OF inv, of la]) blast
  have fr: "bm_free bm1 = {p. \<exists>b. dict_get (bm_blocks bm1) p = Some b \<and> is_free b}"
    using ok same by (simp add: maps_ok_def)
  obtain p b where t: "take_free iter bm1
      = (Inr (Some p), count_stats (\<lambda>st. st\<lparr>bs_free_blocks := bs_free_blocks st - 1\<rparr>)
                         (bm1\<lparr>bm_free := bm_free bm1 - {p}\<rparr>))"
    and b: "dict_get (bm_blocks bm1) p = Some b" "is_free b"
    and least: "\<And>q c. dict_get (bm_blocks bm1) q = Some c \<Longrightarrow> is_free c \<Longrightarrow>
      pb_erase_count b \<le> pb_erase_count c"
    by (rule take_free_ok[OF fr it]) (use free same in auto)
  define b' where "b' = b\<lparr>pb_data := data, pb_state := VALID, pb_logical_address := Some la\<rparr>"
  define bm' where "bm' = snd (bm_write_block iter la data bm)"
  have w: "bm_write_block iter la data bm = (Inr (p, True), bm')"
    using size old t b by (simp add: bm'_def bm_write_block_def)
  have f: "bm_blocks bm' = dict_set p b' (bm_blocks bm1)" "bm_l2p bm' = dict_set la p (bm_l2p bm)"
    "bm_free bm' = bm_free bm - {p}" "bm_config bm' = bm_config bm1"
    "bm_stats bm' = (bm_stats bm1)\<lparr>bs_free_blocks := bs_free_blocks (bm_stats bm1) - 1,
       bs_valid_blocks := bs_valid_blocks (bm_stats bm1) + 1,
       bs_total_writes := bs_total_writes (bm_stats bm1) + 1\<rparr>" "bm_total_blocks bm' = bm_total_blocks bm1"
    using size old t b same by (simp_all add: bm'_def bm_write_block_def b'_def bm_config_def)
  have b's: "pb_state b' = VALID" "pb_logical_address b' = Some la" "pb_data b' = data"
    by (simp_all add: b'_def)
  note add = maps_ok_add[OF ok _ b b's(1,2), simplified]
  have "bm_inv bm'" using add(1) inv wf1 f by (simp add: bm_inv_def update_conv')
  moreover have "bm_content bm' = (bm_content bm)(la \<mapsto> data)"
    using add(2) con f b's(3) by (simp add: bm_content_def update_conv')
  moreover have "bm_counts bm'" if "bm_counts bm"
    using cnt[OF that] b b's(1) f bm_counts_erase_count[OF cnt[OF that] b(1)]
    by (simp add: bm_count_simps b'_def)
  ultimately show thesis using that[OF w] f same b least frees by simp
qed

lemma write_full:
  assumes "bm_inv bm" and it: "iter_ok iter" and "int (length data) \<le> bm_block_size bm"
    and "bm_free bm = {}" and "dict_get (bm_l2p bm) la = None"
  shows "bm_write_block iter la data bm = (Inr (-1, False), bm)"
  using assms take_free_none[OF it] by (simp add: bm_write_block_def invalidate_old_def)

text \<open>The state a failed overwrite leaves: the old block is given up, but the address is still mapped to it.\<close>

definition gave_up :: "int \<Rightarrow> physical_block \<Rightarrow> block_manager \<Rightarrow> block_manager" where
  "gave_up p b bm = count_stats (\<lambda>st. st\<lparr> bs_valid_blocks := bs_valid_blocks st - 1,
                                          bs_invalid_blocks := bs_invalid_blocks st + 1 \<rparr>)
     (set_block p (b\<lparr>pb_state := INVALID, pb_logical_address := None\<rparr>) bm)"

lemma gave_up_simps [simp]:
  "bm_l2p (gave_up p b bm) = bm_l2p bm" "bm_free (gave_up p b bm) = bm_free bm"
  "bm_block_size (gave_up p b bm) = bm_block_size bm" "bm_max_erase_count (gave_up p b bm) = bm_max_erase_count bm"
  "bm_blocks (gave_up p b bm) = dict_set p (b\<lparr>pb_state := INVALID, pb_logical_address := None\<rparr>) (bm_blocks bm)"
  by (simp_all add: gave_up_def)

lemma write_full_mapped:
  assumes inv: "bm_inv bm" and it: "iter_ok iter" and size: "int (length data) \<le> bm_block_size bm"
    and full: "bm_free bm = {}" and p: "dict_get (bm_l2p bm) la = Some p"
  obtains b where "dict_get (bm_blocks bm) p = Some b" "is_valid b"
    "bm_write_block iter la data bm = (Inr (-1, False), gave_up p b bm)"
    "bm_content (gave_up p b bm) = (bm_content bm)(la := None)"
    "bm_counts bm \<Longrightarrow> bm_counts (gave_up p b bm)"
proof -
  obtain bm1 where old: "invalidate_old la bm = (Inr (), bm1)"
    and con: "content_of (dict_get (bm_blocks bm1)) ((dict_get (bm_l2p bm))(la := None)) = (bm_content bm)(la := None)"
    and cnt: "bm_counts bm \<Longrightarrow> bm_counts bm1"
    by (rule invalidate_old_ok[OF inv, of la]) blast
  have ok: "maps_ok (dict_get (bm_blocks bm)) (dict_get (bm_l2p bm)) (bm_free bm)" using inv by (simp add: bm_inv_def)
  obtain b where b: "dict_get (bm_blocks bm) p = Some b" "is_valid b" using maps_okD(2)[OF ok p] by blast
  have bm1: "bm1 = gave_up p b bm" using old p b by (simp add: invalidate_old_def gave_up_def)
  have "bm_content bm1 la' = content_of (dict_get (bm_blocks bm1)) ((dict_get (bm_l2p bm))(la := None)) la'" for la'
    using p by (cases "la' = la") (simp_all add: content_of_def bm_content_def bm1)
  then have "bm_content bm1 = (bm_content bm)(la := None)" unfolding con by (rule ext)
  moreover have "bm_write_block iter la data bm = (Inr (-1, False), bm1)"
    using size old take_free_none[OF it, of bm1] full bm1 by (simp add: bm_write_block_def)
  ultimately show thesis using that[OF b] cnt bm1 by simp
qed

lemma read_ok:
  assumes inv: "bm_inv bm"
  obtains bm' where "bm_read_block la bm = (Inr (bm_content bm la), bm')"
    "bm_inv bm'" "bm_content bm' = bm_content bm" "bm_config bm' = bm_config bm"
    "bm_counts bm \<Longrightarrow> bm_counts bm'" "bm_l2p bm' = bm_l2p bm"
proof (cases "dict_get (bm_l2p bm) la")
  case None
  then show thesis using that[of bm] inv by (simp add: bm_read_block_def bm_content_def content_of_def)
next
  case (Some p)
  have "maps_ok (dict_get (bm_blocks bm)) (dict_get (bm_l2p bm)) (bm_free bm)"
    using inv by (simp add: bm_inv_def)
  from maps_okD(2)[OF this Some] obtain b where "dict_get (bm_blocks bm) p = Some b" "is_valid b"
    by blast
  then show thesis
    using that[of "snd (bm_read_block la bm)"] inv Some
    by (simp add: bm_read_block_def bm_content_def content_of_def bm_inv_def bm_config_def
        bm_counts_def Let_def)
qed

lemma delete_ok:
  assumes inv: "bm_inv bm"
  obtains bm' where "bm_delete_block la bm = (Inr (bm_content bm la \<noteq> None), bm')"
    "bm_inv bm'" "bm_content bm' = (bm_content bm)(la := None)" "bm_config bm' = bm_config bm"
    "bm_counts bm \<Longrightarrow> bm_counts bm'" "bm_l2p bm' = dict_del la (bm_l2p bm)"
proof (cases "dict_get (bm_l2p bm) la")
  case None
  then have "(bm_content bm)(la := None) = bm_content bm" "dict_del la (bm_l2p bm) = bm_l2p bm"
    by (auto simp: bm_content_def content_of_def dict_del_notin)
  then show thesis
    using that[of bm] inv None by (simp add: bm_delete_block_def bm_content_def content_of_def)
next
  case (Some p)
  have ok: "maps_ok (dict_get (bm_blocks bm)) (dict_get (bm_l2p bm)) (bm_free bm)"
    using inv by (simp add: bm_inv_def)
  obtain b where b: "dict_get (bm_blocks bm) p = Some b" "is_valid b"
    using maps_okD(2)[OF ok Some] by blast
  define b' where "b' = b\<lparr>pb_state := INVALID, pb_logical_address := None\<rparr>"
  have b': "pb_state b' = INVALID" by (simp add: b'_def)
  define bm' where "bm' = snd (bm_delete_block la bm)"
  have f: "bm_blocks bm' = dict_set p b' (bm_blocks bm)" "bm_l2p bm' = dict_del la (bm_l2p bm)"
    "bm_free bm' = bm_free bm" "bm_config bm' = bm_config bm" "bm_total_blocks bm' = bm_total_blocks bm"
    "bm_stats bm' = (bm_stats bm)\<lparr>bs_valid_blocks := bs_valid_blocks (bm_stats bm) - 1,
       bs_invalid_blocks := bs_invalid_blocks (bm_stats bm) + 1\<rparr>"
    using Some b by (simp_all add: bm'_def bm_delete_block_def b'_def bm_config_def)
  note rem = maps_ok_remove[OF ok Some b(1) b']
  have "bm_delete_block la bm = (Inr (bm_content bm la \<noteq> None), bm')"
    using Some b by (simp add: bm'_def bm_delete_block_def bm_content_def content_of_def)
  moreover have "bm_inv bm'" using rem(1) f inv by (simp add: bm_inv_def update_conv' delete_conv')
  moreover have "bm_content bm' = (bm_content bm)(la := None)"
    using rem(2) f by (simp add: bm_content_def update_conv' delete_conv')
  moreover have "bm_counts bm'" if "bm_counts bm"
    using that b b' f bm_counts_erase_count[OF that b(1)] by (simp add: bm_count_simps b'_def)
  ultimately show thesis using that f by blast
qed

text \<open>Erasing a block that holds stale data.\<close>

lemma erase_ok:
  assumes inv: "bm_inv bm" and b: "dict_get (bm_blocks bm) p = Some b" "is_invalid b"
  obtains b' bm' where
    "bm_erase_block p bm = (pb_erase_count b + 1 < bm_max_erase_count bm, bm')"
    "bm_inv bm'" "bm_content bm' = bm_content bm" "bm_config bm' = bm_config bm"
    "bm_counts bm \<Longrightarrow> bm_counts bm'" "bm_l2p bm' = bm_l2p bm"
    "bm_blocks bm' = dict_set p b' (bm_blocks bm)" "pb_erase_count b' = pb_erase_count b + 1"
    "pb_state b' = (if pb_erase_count b + 1 < bm_max_erase_count bm then FREE else BAD)"
proof -
  have ok: "maps_ok (dict_get (bm_blocks bm)) (dict_get (bm_l2p bm)) (bm_free bm)"
    using inv by (simp add: bm_inv_def)
  define bm' where "bm' = snd (bm_erase_block p bm)"
  define worn where "worn \<longleftrightarrow> bm_max_erase_count bm \<le> pb_erase_count b + 1"
  define b' where "b' = (if worn then b\<lparr>pb_erase_count := pb_erase_count b + 1, pb_state := BAD\<rparr>
    else b\<lparr>pb_erase_count := pb_erase_count b + 1, pb_data := [], pb_state := FREE,
           pb_logical_address := None\<rparr>)"
  have b': "pb_erase_count b' = pb_erase_count b + 1" "pb_state b' = (if worn then BAD else FREE)"
    by (simp_all add: b'_def)
  have f: "bm_blocks bm' = dict_set p b' (bm_blocks bm)" "bm_l2p bm' = bm_l2p bm"
    "bm_free bm' = (if worn then bm_free bm else insert p (bm_free bm))" "bm_config bm' = bm_config bm"
    "bm_total_blocks bm' = bm_total_blocks bm"
    "bm_stats bm' = (if worn then (bm_stats bm)\<lparr>bs_bad_blocks := bs_bad_blocks (bm_stats bm) + 1\<rparr>
       else (bm_stats bm)\<lparr>bs_free_blocks := bs_free_blocks (bm_stats bm) + 1,
              bs_total_erases := bs_total_erases (bm_stats bm) + 1\<rparr>)"
    using b by (simp_all add: bm'_def bm_erase_block_def b'_def worn_def bm_config_def Let_def)
  note clear = maps_ok_clear[OF ok b, of b']
  have "bm_inv bm'" using clear f inv b' by (simp add: bm_inv_def update_conv')
  moreover have "bm_content bm' = bm_content bm" using clear(3) f by (simp add: bm_content_def update_conv')
  moreover have "bm_counts bm'" if "bm_counts bm"
    using that b b' f bm_counts_erase_count[OF that b(1)] by (cases worn) (simp_all add: bm_count_simps)
  moreover have "bm_erase_block p bm = (pb_erase_count b + 1 < bm_max_erase_count bm, bm')"
    using b by (simp add: bm'_def bm_erase_block_def Let_def not_le)
  ultimately show thesis using that[of bm' b'] f b' by (simp add: worn_def not_less)
qed

lemma bm_init:
  assumes "BlockManager n bs ps mx = Inr bm"
  shows "bm_inv bm" "bm_content bm = (\<lambda>_. None)" "bm_config bm = (n, bs, mx)"
    and "0 \<le> n \<Longrightarrow> bm_counts bm"
proof -
  have get: "dict_get (map (\<lambda>i. (i, PhysicalBlock i)) xs) p
      = (if p \<in> set xs then Some (PhysicalBlock p) else None)" for xs :: "int list" and p
    by (induction xs) auto
  have st: "is_free (PhysicalBlock i)" for i by (simp add: PhysicalBlock_def)
  have sum: "sum_vals f (map (\<lambda>i. (i, PhysicalBlock i)) xs) = int (length xs) * f (PhysicalBlock 0)"
    if "\<And>i. f (PhysicalBlock i) = f (PhysicalBlock 0)" for xs :: "int list" and f
  proof (induction xs)
    case (Cons i xs)
    show ?case using Cons that[of i] by (simp add: algebra_simps)
  qed simp
  have bm: "bm_blocks bm = map (\<lambda>i. (i, PhysicalBlock i)) [0..n - 1]" "bm_l2p bm = []"
    "bm_free bm = set [0..n - 1]" "bm_total_blocks bm = n"
    "bm_stats bm = \<lparr> bs_total_blocks = n, bs_free_blocks = n, bs_valid_blocks = 0,
       bs_invalid_blocks = 0, bs_bad_blocks = 0, bs_total_writes = 0, bs_total_reads = 0,
       bs_total_erases = 0 \<rparr>"
    using assms by (auto simp: BlockManager_def split: if_splits)
  have "maps_ok (dict_get (bm_blocks bm)) (dict_get (bm_l2p bm)) (bm_free bm)"
    unfolding bm by (rule maps_okI) (auto simp: get st simp del: set_upto split: if_splits)
  then show "bm_inv bm" by (simp add: bm_inv_def bm wf_dict_def comp_def)
  show "bm_content bm = (\<lambda>_. None)" by (auto simp: bm_content_def content_of_def bm)
  show "bm_config bm = (n, bs, mx)"
    using assms by (auto simp: BlockManager_def bm_config_def split: if_splits)
  show "bm_counts bm" if "0 \<le> n"
    using that by (simp add: bm_counts_def bm sum st Let_def get) (simp add: PhysicalBlock_def)
qed

lemma bm_get_stats_avg:
  assumes "bm_get_stats bm = Inr r" and "bm_inv bm" and "bm_counts bm"
  shows "0 \<le> br_avg_erase_count r"
proof -
  have "br_avg_erase_count r
      = fdiv (of_int (sum_vals pb_erase_count (bm_blocks bm))) (of_int (bm_total_blocks bm))"
    using assms(1) unfolding bm_get_stats_def Let_def sum_vals_def
    by (metis (no_types, lifting) Inl_Inr_False Inr_inject bm_report.select_convs(2))
  moreover have "0 \<le> sum_vals pb_erase_count (bm_blocks bm)"
    using assms(2,3) by (intro sum_vals_nonneg_get) (auto simp: bm_inv_def dest: bm_counts_erase_count)
  moreover have "0 \<le> bm_total_blocks bm" using assms(3) by (simp add: bm_counts_def Let_def)
  ultimately show ?thesis by (simp add: fdiv_nonneg)
qed

section \<open>Erasing garbage is invisible\<close>

text \<open>
  \<open>bm_ok\<close> is the invariant of the manager in the simulator; its clients see the contents and the
  configuration.
\<close>

definition bm_ok :: "block_manager \<Rightarrow> bool" where
  "bm_ok bm \<longleftrightarrow> bm_inv bm \<and> bm_counts bm"

definition bm_view :: "block_manager \<Rightarrow> (int \<Rightarrow> bytes option) \<times> int \<times> int \<times> int" where
  "bm_view bm = (bm_content bm, bm_config bm)"

inductive erase_step :: "block_manager \<Rightarrow> block_manager \<Rightarrow> bool" where
  erase: "dict_get (bm_blocks bm) p = Some b \<Longrightarrow> is_invalid b \<Longrightarrow>
          bm_erase_block p bm = (ok, bm') \<Longrightarrow> erase_step bm bm'"

inductive_cases erase_stepE: "erase_step bm bm'"

lemma erase_step_keeps: "bm_ok bm \<Longrightarrow> erase_step bm bm' \<Longrightarrow> bm_ok bm' \<and> bm_view bm' = bm_view bm"
  by (elim erase_stepE) (metis (no_types, lifting) bm_ok_def bm_view_def erase_ok prod.inject)

interpretation erasing: transparent_steps erase_step bm_ok bm_view
  by unfold_locales (rule erase_step_keeps)

section \<open>What write guarantees\<close>

text \<open>
  C5. \<^verbatim>\<open>write_block\<close> on a consistent manager, for any data and any iteration order of the free set. Data that
  do not fit in a block raise ValueError and change nothing. Data that fit are written when there is a free block: the
  address reads back the new data, every other address is unchanged, the block chosen is a free block of least wear, and
  the mapping stays a bijection between mapped addresses and valid blocks. Without a free block the write reports (-1, False):
  an address that was not mapped leaves the manager as it was; one that was mapped loses its contents and no
  other does, its block is marked invalid, and the stale mapping stays. The counters stay exact on every branch.
\<close>

theorem bm_write_block_spec:
  assumes inv: "bm_inv bm" and it: "iter_ok iter"
  shows "if bm_block_size bm < int (length data)
    then bm_write_block iter la data bm = (Inl (ValueError ''Data too large''), bm)
    else if bm_free bm = {}
    then \<exists>bm'. bm_write_block iter la data bm = (Inr (-1, False), bm') \<and>
           bm_content bm' = (bm_content bm)(la := None) \<and> (bm_counts bm \<longrightarrow> bm_counts bm') \<and>
           (case dict_get (bm_l2p bm) la of
              None \<Rightarrow> bm' = bm
            | Some p \<Rightarrow> \<exists>b. dict_get (bm_blocks bm) p = Some b \<and> is_valid b \<and> bm' = gave_up p b bm)
    else \<exists>p b bm'. bm_write_block iter la data bm = (Inr (p, True), bm') \<and> bm_inv bm' \<and>
           bm_content bm' = (bm_content bm)(la \<mapsto> data) \<and> (bm_counts bm \<longrightarrow> bm_counts bm') \<and>
           dict_get (bm_blocks bm) p = Some b \<and> is_free b \<and>
           (\<forall>q c. dict_get (bm_blocks bm) q = Some c \<and> is_free c \<longrightarrow>
              pb_erase_count b \<le> pb_erase_count c)"
proof (cases "bm_block_size bm < int (length data)")
  case True
  then show ?thesis by (simp add: bm_write_block_def)
next
  case fits: False
  then have size: "int (length data) \<le> bm_block_size bm" by simp
  show ?thesis
  proof (cases "bm_free bm = {}")
    case False
    from write_ok[OF inv it size False] obtain p b bm' where
      "bm_write_block iter la data bm = (Inr (p, True), bm')" "bm_inv bm'" "bm_content bm' = (bm_content bm)(la \<mapsto> data)"
      "bm_counts bm \<longrightarrow> bm_counts bm'" "dict_get (bm_blocks bm) p = Some b" "is_free b"
      "\<forall>q c. dict_get (bm_blocks bm) q = Some c \<and> is_free c \<longrightarrow> pb_erase_count b \<le> pb_erase_count c"
      by metis
    then show ?thesis using False fits by simp
  next
    case full: True
    show ?thesis
    proof (cases "dict_get (bm_l2p bm) la")
      case None
      then have "(bm_content bm)(la := None) = bm_content bm" by (auto simp: bm_content_def content_of_def)
      then show ?thesis using full fits None write_full[OF inv it size full None] by simp
    next
      case (Some p)
      from write_full_mapped[OF inv it size full Some] obtain b where
        "dict_get (bm_blocks bm) p = Some b" "is_valid b"
        "bm_write_block iter la data bm = (Inr (-1, False), gave_up p b bm)"
        "bm_content (gave_up p b bm) = (bm_content bm)(la := None)" "bm_counts bm \<longrightarrow> bm_counts (gave_up p b bm)"
        by metis
      then show ?thesis using full fits Some by simp
    qed
  qed
qed

theorem bm_write_block_spec_witness:
  "\<exists>bm p bm'. BlockManager 2 16 4 10 = Inr bm \<and>
     bm_write_block sorted_list_of_set 7 [1, 2, 3] bm = (Inr (p, True), bm') \<and>
     bm_content bm' = (bm_content bm)(7 \<mapsto> [1, 2, 3])"
proof -
  obtain bm where bm: "BlockManager 2 16 4 10 = Inr bm" by (simp add: BlockManager_def)
  have "bm_free bm \<noteq> {}" "\<not> bm_block_size bm < int (length [1, 2, 3 :: 8 word])"
    using bm by (auto simp: BlockManager_def)
  with bm_write_block_spec [OF bm_init(1)[OF bm] iter_ok_sorted, of "[1, 2, 3]" 7] bm show ?thesis
    by auto
qed

text \<open>The garbage of a full flash is the only block the next write can take.\<close>

lemma take_free_only:
  assumes it: "iter_ok iter" and "bm_free bm = {p}" and "dict_get (bm_blocks bm) p = Some b"
  shows "take_free iter bm = (Inr (Some p),
    count_stats (\<lambda>st. st\<lparr>bs_free_blocks := bs_free_blocks st - 1\<rparr>) (bm\<lparr>bm_free := bm_free bm - {p}\<rparr>))"
proof -
  have s: "set (iter {p}) = {p}" using it by (simp add: iter_ok_def)
  then have ne: "iter {p} \<noteq> []" by auto
  have "list_all (has_key (bm_blocks bm)) (iter {p})" unfolding list_all_iff s using assms(3) by (simp add: has_key_def)
  moreover have "arg_min_list f (iter {p}) = p" for f :: "int \<Rightarrow> int"
    using arg_min_list_in[OF ne, of f] unfolding s by (rule singletonD)
  ultimately show ?thesis using ne unfolding take_free_def assms(2) Let_def by (simp only: if_False not_True_eq_False)
qed

text \<open>
  C38. A failed overwrite loses data and later shows another address's data. On any consistent manager without a free
  block, overwriting a mapped address fails, and the address, which had contents, reads as missing. Its block is
  now garbage, which the collector may erase; when the block is not worn out it becomes the only free block, and the next write,
  to any other address, takes it. From then on the first address, still mapped to the block, reads the data of the other one.
\<close>

theorem failed_overwrite_aliases:
  assumes inv: "bm_inv bm" and it: "iter_ok iter" and full: "bm_free bm = {}"
    and p: "dict_get (bm_l2p bm) la = Some p" and b: "dict_get (bm_blocks bm) p = Some b"
    and wear: "pb_erase_count b + 1 < bm_max_erase_count bm" and ne: "la' \<noteq> la"
    and size: "int (length data) \<le> bm_block_size bm" "int (length data') \<le> bm_block_size bm"
  shows "\<exists>bm1 bm2 bm3. fst (bm_read_block la bm) = Inr (Some (pb_data b)) \<and>
    bm_write_block iter la data bm = (Inr (-1, False), bm1) \<and>
    fst (bm_read_block la bm1) = Inr None \<and> p \<in> set (bm_get_invalid_blocks bm1) \<and>
    bm_erase_block p bm1 = (True, bm2) \<and> bm_write_block iter la' data' bm2 = (Inr (p, True), bm3) \<and>
    fst (bm_read_block la' bm3) = Inr (Some data') \<and> fst (bm_read_block la bm3) = Inr (Some data')"
proof -
  have ok: "maps_ok (dict_get (bm_blocks bm)) (dict_get (bm_l2p bm)) (bm_free bm)" using inv by (simp add: bm_inv_def)
  have v: "is_valid b" "pb_logical_address b = Some la" using maps_okD(2)[OF ok p] b by auto
  have w: "bm_write_block iter la data bm = (Inr (-1, False), gave_up p b bm)"
    using write_full_mapped[OF inv it size(1) full p] b by (metis option.inject)
  define bm2 where "bm2 = snd (bm_erase_block p (gave_up p b bm))"
  define c where "c = b\<lparr>pb_erase_count := pb_erase_count b + 1, pb_data := [], pb_state := FREE, pb_logical_address := None\<rparr>"
  have e: "bm_erase_block p (gave_up p b bm) = (True, bm2)" "bm_free bm2 = {p}" "bm_l2p bm2 = bm_l2p bm"
    "dict_get (bm_blocks bm2) = (dict_get (bm_blocks bm))(p \<mapsto> c)" "bm_block_size bm2 = bm_block_size bm"
    using wear full by (auto simp: bm2_def bm_erase_block_def Let_def c_def fun_eq_iff)
  obtain bm2' where i: "invalidate_old la' bm2 = (Inr (), bm2')" "bm_free bm2' = {p}" "bm_l2p bm2' = bm_l2p bm"
    "dict_get (bm_blocks bm2') p = Some c" "bm_block_size bm2' = bm_block_size bm"
  proof (cases "dict_get (bm_l2p bm) la'")
    case None
    then show thesis using that[of bm2] e by (simp add: invalidate_old_def)
  next
    case (Some q)
    obtain d where d: "dict_get (bm_blocks bm) q = Some d" "pb_logical_address d = Some la'" using maps_okD(2)[OF ok Some] by blast
    then have "q \<noteq> p" using b v ne by auto
    then show thesis using that[of "gave_up q d bm2"] e Some d by (simp add: invalidate_old_def gave_up_def)
  qed
  define bm3 where "bm3 = snd (bm_write_block iter la' data' bm2)"
  have "bm_write_block iter la' data' bm2 = (Inr (p, True), bm3)"
    "dict_get (bm_l2p bm3) = (dict_get (bm_l2p bm))(la' \<mapsto> p)"
    "dict_get (bm_blocks bm3) p = Some (c\<lparr>pb_data := data', pb_state := VALID, pb_logical_address := Some la'\<rparr>)"
    using size(2) e(5) i take_free_only[OF it i(2,4)] by (simp_all add: bm3_def bm_write_block_def fun_eq_iff)
  moreover from this have "fst (bm_read_block la' bm3) = Inr (Some data')" "fst (bm_read_block la bm3) = Inr (Some data')"
    using p ne by (simp_all add: bm_read_block_def)
  moreover have "fst (bm_read_block la bm) = Inr (Some (pb_data b))" "fst (bm_read_block la (gave_up p b bm)) = Inr None"
    using p b v by (simp_all add: bm_read_block_def)
  moreover have "dict_get (bm_blocks (gave_up p b bm)) p = Some (b\<lparr>pb_state := INVALID, pb_logical_address := None\<rparr>)" by simp
  from map_of_SomeD[OF this] have "p \<in> set (bm_get_invalid_blocks (gave_up p b bm))"
    unfolding bm_get_invalid_blocks_def by force
  ultimately show ?thesis using w e(1) by blast
qed

text \<open>A flash of one block, written once.\<close>

theorem failed_overwrite_aliases_witness:
  "\<exists>bm0 bm bm1 bm2 bm3. BlockManager 1 16 4 10 = Inr bm0 \<and>
     bm_write_block sorted_list_of_set 0 [1] bm0 = (Inr (0, True), bm) \<and>
     fst (bm_read_block 0 bm) = Inr (Some [1]) \<and>
     bm_write_block sorted_list_of_set 0 [2] bm = (Inr (-1, False), bm1) \<and> bm_erase_block 0 bm1 = (True, bm2) \<and>
     bm_write_block sorted_list_of_set 5 [9] bm2 = (Inr (0, True), bm3) \<and>
     fst (bm_read_block 0 bm3) = Inr (Some [9])"
proof -
  obtain bm0 where bm0: "BlockManager 1 16 4 10 = Inr bm0" by (simp add: BlockManager_def)
  define bm where "bm = snd (bm_write_block sorted_list_of_set 0 [1] bm0)"
  define b where "b = (PhysicalBlock 0)\<lparr>pb_data := [1], pb_state := VALID, pb_logical_address := Some 0\<rparr>"
  have "bm0 = \<lparr> bm_total_blocks = 1, bm_block_size = 16, bm_page_size = 4, bm_pages_per_block = 4, bm_max_erase_count = 10,
      bm_blocks = [(0, PhysicalBlock 0)], bm_l2p = [], bm_free = {0},
      bm_stats = \<lparr> bs_total_blocks = 1, bs_free_blocks = 1, bs_valid_blocks = 0, bs_invalid_blocks = 0, bs_bad_blocks = 0,
        bs_total_writes = 0, bs_total_reads = 0, bs_total_erases = 0 \<rparr> \<rparr>"
    using bm0 by (simp add: BlockManager_def)
  then have f: "bm_write_block sorted_list_of_set 0 [1] bm0 = (Inr (0, True), bm)" "bm_free bm = {}"
    "dict_get (bm_l2p bm) 0 = Some 0" "dict_get (bm_blocks bm) 0 = Some b" "bm_block_size bm = 16" "bm_max_erase_count bm = 10"
    by (simp_all add: bm_def b_def bm_write_block_def invalidate_old_def take_free_def has_key_def)
  have "bm_inv bm"
    using write_ok[OF bm_init(1)[OF bm0] iter_ok_sorted, of "[1]" 0] f(1) bm0
    by (force simp: BlockManager_def)
  from failed_overwrite_aliases [OF this iter_ok_sorted f(2-4), of 5 "[2]" "[9]"] f bm0
  show ?thesis by (auto simp: b_def PhysicalBlock_def)
qed

end
