(* ===== verification/Garbage_Collection.thy ===== *)
theory Garbage_Collection
  imports Block_Manager
begin

text \<open>
  \<^verbatim>\<open>directflash/garbage_collection.py\<close>. An uncontended \<^verbatim>\<open>asyncio.Lock\<close> does not suspend the
  coroutine, so a cycle is one step unless another task holds a lock; the theorems about a
  cycle follow from facts about its single erasures, which hold in any interleaving. The collector's
  task handle is kept as a flag, and one turn of the background loop is \<open>gc_tick\<close>.
\<close>

section \<open>State and operations\<close>

datatype gc_state = GC_IDLE | GC_RUNNING | GC_STOPPED

record gc_stats =
  gs_gc_runs :: int
  gs_blocks_reclaimed :: int
  gs_pages_migrated :: int
  gs_bytes_reclaimed :: int

record garbage_collector =
  gc_threshold :: double
  gc_target :: double
  gc_state_of :: gc_state
  gc_stats_of :: gc_stats
  gc_task :: bool

definition GarbageCollector :: "double \<Rightarrow> double \<Rightarrow> garbage_collector" where
  "GarbageCollector threshold goal =
     \<lparr> gc_threshold = threshold, gc_target = goal, gc_state_of = GC_IDLE,
       gc_stats_of = \<lparr> gs_gc_runs = 0, gs_blocks_reclaimed = 0, gs_pages_migrated = 0,
                       gs_bytes_reclaimed = 0 \<rparr>,
       gc_task = False \<rparr>"

definition gc_get_utilization :: "block_manager \<Rightarrow> double result" where
  "gc_get_utilization bm =
     (case bm_get_stats bm of
        Inl e \<Rightarrow> Inl e
      | Inr r \<Rightarrow>
          let n = bs_total_blocks (br_stats r); free = bs_free_blocks (br_stats r)
          in Inr (if 0 < n then fdiv (of_int (n - free)) (of_int n) else 0))"

definition gc_should_run :: "garbage_collector \<Rightarrow> block_manager \<Rightarrow> bool result" where
  "gc_should_run gc bm =
     (case gc_get_utilization bm of Inl e \<Rightarrow> Inl e | Inr u \<Rightarrow> Inr (gc_threshold gc \<le> u))"

text \<open>The body of the loop over the invalid blocks (lines 100-106), and the loop.\<close>

definition gc_reclaim ::
    "int \<Rightarrow> garbage_collector \<times> block_manager \<Rightarrow> int \<times> garbage_collector \<times> block_manager" where
  "gc_reclaim p = (\<lambda>(gc, bm).
     (case bm_get_block_info bm p of
        None \<Rightarrow> (0, gc, bm)
      | Some b \<Rightarrow>
          if pb_state b = INVALID then
            (case bm_erase_block p bm of
               (False, bm) \<Rightarrow> (0, gc, bm)
             | (True, bm) \<Rightarrow>
                 let st = gc_stats_of gc
                 in (1, gc\<lparr>gc_stats_of := st\<lparr> gs_blocks_reclaimed := gs_blocks_reclaimed st + 1,
                           gs_bytes_reclaimed := gs_bytes_reclaimed st + bm_block_size bm \<rparr>\<rparr>, bm))
          else (0, gc, bm)))"

fun gc_sweep ::
    "int list \<Rightarrow> int \<Rightarrow> garbage_collector \<times> block_manager
     \<Rightarrow> (garbage_collector \<times> block_manager, int) outcome" where
  "gc_sweep [] reclaimed s = (Inr reclaimed, s)"
| "gc_sweep (p # ps) reclaimed s =
     (if gc_state_of (fst s) = GC_STOPPED then (Inr reclaimed, s)
      else case gc_reclaim p s of (n, s) \<Rightarrow>
             (case gc_get_utilization (snd s) of
                Inl e \<Rightarrow> (Inl e, s)
              | Inr u \<Rightarrow> if u \<le> gc_target (fst s) then (Inr (reclaimed + n), s)
                         else gc_sweep ps (reclaimed + n) s))"

definition run_gc_cycle ::
    "garbage_collector \<Rightarrow> block_manager \<Rightarrow> (garbage_collector \<times> block_manager, int) outcome" where
  "run_gc_cycle gc bm =
     (if gc_state_of gc = GC_STOPPED then (Inr 0, gc, bm)
      else case gc_sweep (bm_get_invalid_blocks bm) 0 (gc\<lparr>gc_state_of := GC_RUNNING\<rparr>, bm) of
             (Inl e, s) \<Rightarrow> (Inl e, s)
           | (Inr reclaimed, gc, bm) \<Rightarrow>
               let st = gc_stats_of gc;
                   gc = gc\<lparr>gc_stats_of := st\<lparr>gs_gc_runs := gs_gc_runs st + 1\<rparr>\<rparr>
               in (Inr reclaimed,
                   if gc_state_of gc \<noteq> GC_STOPPED then gc\<lparr>gc_state_of := GC_IDLE\<rparr> else gc, bm))"

definition start_background_gc :: "garbage_collector \<Rightarrow> garbage_collector" where
  "start_background_gc gc = (if gc_task gc then gc else gc\<lparr>gc_state_of := GC_IDLE, gc_task := True\<rparr>)"

definition gc_tick ::
    "garbage_collector \<Rightarrow> block_manager \<Rightarrow> (garbage_collector \<times> block_manager, unit) outcome" where
  "gc_tick gc bm =
     (if gc_state_of gc = GC_STOPPED then (Inr (), gc, bm)
      else case gc_should_run gc bm of
             Inl e \<Rightarrow> (Inl e, gc, bm)
           | Inr False \<Rightarrow> (Inr (), gc, bm)
           | Inr True \<Rightarrow>
               (case run_gc_cycle gc bm of (Inl e, s) \<Rightarrow> (Inl e, s) | (Inr n, s) \<Rightarrow> (Inr (), s)))"

definition stop_background_gc :: "garbage_collector \<Rightarrow> garbage_collector" where
  "stop_background_gc gc = gc\<lparr>gc_state_of := GC_STOPPED, gc_task := False\<rparr>"

definition trigger_gc ::
    "garbage_collector \<Rightarrow> block_manager \<Rightarrow> (garbage_collector \<times> block_manager, int) outcome" where
  "trigger_gc gc bm = run_gc_cycle gc bm"

record gc_report =
  gr_state :: gc_state
  gr_stats :: gc_stats
  gr_current_utilization :: double
  gr_threshold :: double
  gr_target :: double

definition gc_get_stats :: "garbage_collector \<Rightarrow> block_manager \<Rightarrow> gc_report result" where
  "gc_get_stats gc bm =
     (case gc_get_utilization bm of
        Inl e \<Rightarrow> Inl e
      | Inr u \<Rightarrow> Inr \<lparr> gr_state = gc_state_of gc, gr_stats = gc_stats_of gc,
                      gr_current_utilization = u, gr_threshold = gc_threshold gc,
                      gr_target = gc_target gc \<rparr>)"

section \<open>What a sweep does\<close>

text \<open>One reclaim: an erasure, or nothing.\<close>

lemma gc_reclaim_cases:
  assumes "gc_reclaim p (gc, bm) = (n, gc', bm')"
  obtains (none) "n = 0" "gc' = gc" "bm' = bm"
      "\<And>b. dict_get (bm_blocks bm) p = Some b \<Longrightarrow> \<not> is_invalid b"
    | (worn) b where "n = 0" "gc' = gc" "dict_get (bm_blocks bm) p = Some b" "is_invalid b"
        "bm_erase_block p bm = (False, bm')"
    | (freed) b where "n = 1" "dict_get (bm_blocks bm) p = Some b" "is_invalid b"
        "bm_erase_block p bm = (True, bm')"
        "gc' = gc\<lparr>gc_stats_of := (gc_stats_of gc)\<lparr>
           gs_blocks_reclaimed := gs_blocks_reclaimed (gc_stats_of gc) + 1,
           gs_bytes_reclaimed := gs_bytes_reclaimed (gc_stats_of gc) + bm_block_size bm'\<rparr>\<rparr>"
proof (cases "dict_get (bm_blocks bm) p")
  case None
  then show ?thesis using none assms by (simp add: gc_reclaim_def bm_get_block_info_def)
next
  case (Some b)
  obtain ok bm1 where e: "bm_erase_block p bm = (ok, bm1)" by (cases "bm_erase_block p bm")
  show ?thesis
  proof (cases "is_invalid b")
    case True
    show ?thesis
      using freed worn assms Some True e
      by (cases ok) (auto simp: gc_reclaim_def bm_get_block_info_def Let_def)
  next
    case False
    then show ?thesis using none assms Some by (simp add: gc_reclaim_def bm_get_block_info_def)
  qed
qed

lemma gc_reclaim_erases: "gc_reclaim p (gc, bm) = (n, gc', bm') \<Longrightarrow> erase_step\<^sup>*\<^sup>* bm bm'"
  by (elim gc_reclaim_cases) (auto intro: erase)

lemma gc_reclaim_config:
  "gc_reclaim p (gc, bm) = (n, gc', bm') \<Longrightarrow>
   gc_state_of gc' = gc_state_of gc \<and> gc_target gc' = gc_target gc \<and> gc_threshold gc' = gc_threshold gc \<and>
   gs_gc_runs (gc_stats_of gc') = gs_gc_runs (gc_stats_of gc) \<and> gc_task gc' = gc_task gc"
  by (elim gc_reclaim_cases) auto

lemma erase_invalid_effect:
  assumes "dict_get (bm_blocks bm) p = Some b" and "is_invalid b" and "bm_erase_block p bm = (ok, bm')"
  shows "bs_free_blocks (bm_stats bm') = bs_free_blocks (bm_stats bm) + of_bool ok"
    and "bm_block_size bm' = bm_block_size bm"
    and "\<exists>b'. bm_blocks bm' = dict_set p b' (bm_blocks bm) \<and>
           pb_state b' = (if ok then FREE else BAD) \<and>
           (ok \<longleftrightarrow> pb_erase_count b + 1 < bm_max_erase_count bm)"
    and "bm_free bm' = (if ok then insert p (bm_free bm) else bm_free bm)"
    and "bm_max_erase_count bm' = bm_max_erase_count bm"
  using assms by (auto simp: bm_erase_block_def Let_def split: if_splits)

lemma gc_reclaim_effect:
  assumes "gc_reclaim p (gc, bm) = (n, gc', bm')"
  shows "bs_free_blocks (bm_stats bm') = bs_free_blocks (bm_stats bm) + n"
    and "gs_blocks_reclaimed (gc_stats_of gc') = gs_blocks_reclaimed (gc_stats_of gc) + n"
    and "gs_bytes_reclaimed (gc_stats_of gc')
         = gs_bytes_reclaimed (gc_stats_of gc) + n * bm_block_size bm"
    and "bm_block_size bm' = bm_block_size bm" and "0 \<le> n"
    and "bm_free bm \<subseteq> bm_free bm'"
    and "dict_get (bm_blocks bm') q = Some c \<Longrightarrow> is_invalid c \<Longrightarrow>
         q \<noteq> p \<and> dict_get (bm_blocks bm) q = Some c"
  using assms
  by (auto elim!: gc_reclaim_cases dest: erase_invalid_effect split: if_splits)

lemma gc_sweep_erases:
  "gc_sweep ps m (gc, bm) = (r, gc', bm') \<Longrightarrow> erase_step\<^sup>*\<^sup>* bm bm'"
proof (induction ps arbitrary: m gc bm)
  case (Cons p ps)
  obtain n gc1 bm1 where s: "gc_reclaim p (gc, bm) = (n, gc1, bm1)" by (cases "gc_reclaim p (gc, bm)")
  have "erase_step\<^sup>*\<^sup>* bm1 bm'" if "gc_sweep ps (m + n) (gc1, bm1) = (r, gc', bm')"
    by (rule Cons.IH[OF that])
  then show ?case
    using gc_reclaim_erases[OF s] Cons.prems s
    by (auto split: if_splits sum.splits intro: rtranclp_trans)
qed simp

lemma gc_sweep_effect:
  assumes "gc_sweep ps m (gc, bm) = (r, gc', bm')"
  shows "gc_state_of gc' = gc_state_of gc \<and> gc_target gc' = gc_target gc \<and>
    gs_gc_runs (gc_stats_of gc') = gs_gc_runs (gc_stats_of gc) \<and>
    bm_block_size bm' = bm_block_size bm \<and>
    (\<forall>k. r = Inr k \<longrightarrow>
       bs_free_blocks (bm_stats bm') = bs_free_blocks (bm_stats bm) + (k - m) \<and>
       gs_blocks_reclaimed (gc_stats_of gc') = gs_blocks_reclaimed (gc_stats_of gc) + (k - m) \<and>
       gs_bytes_reclaimed (gc_stats_of gc')
       = gs_bytes_reclaimed (gc_stats_of gc) + (k - m) * bm_block_size bm)"
  using assms
proof (induction ps arbitrary: m gc bm)
  case (Cons p ps)
  obtain n gc1 bm1 where s: "gc_reclaim p (gc, bm) = (n, gc1, bm1)" by (cases "gc_reclaim p (gc, bm)")
  note e = gc_reclaim_effect[OF s] gc_reclaim_config[OF s]
  show ?case
  proof (cases "gc_state_of gc = GC_STOPPED")
    case False
    show ?thesis
    proof (cases "gc_get_utilization bm1")
      case (Inl err)
      then show ?thesis using Cons.prems s False e by auto
    next
      case (Inr u)
      show ?thesis
      proof (cases "u \<le> gc_target gc1")
        case True
        then show ?thesis using Cons.prems s False e Inr by auto
      next
        case go: False
        then have "gc_sweep ps (m + n) (gc1, bm1) = (r, gc', bm')" using Cons.prems s False Inr by simp
        then show ?thesis using Cons.IH[of "m + n" gc1 bm1] e by (auto simp: algebra_simps)
      qed
    qed
  qed (use Cons.prems in auto)
qed auto

text \<open>A sweep that is not interrupted ends below the target, or has dealt with every block it was given.\<close>

lemma erase_step_invalid:
  assumes "erase_step bm bm'" and "dict_get (bm_blocks bm') q = Some c" and "is_invalid c"
  shows "dict_get (bm_blocks bm) q = Some c"
  using assms(1)
proof (cases rule: erase_step.cases)
  case (erase p b ok)
  then obtain b' where "bm_blocks bm' = dict_set p b' (bm_blocks bm)" "pb_state b' = (if ok then FREE else BAD)"
    using erase_invalid_effect(3) by blast
  then show ?thesis using assms(2,3) by (auto split: if_splits)
qed

lemma erase_steps_invalid:
  "erase_step\<^sup>*\<^sup>* bm bm' \<Longrightarrow> dict_get (bm_blocks bm') q = Some c \<Longrightarrow> is_invalid c \<Longrightarrow>
   dict_get (bm_blocks bm) q = Some c"
  by (induction arbitrary: c rule: rtranclp_induct) (auto dest: erase_step_invalid)

lemma gc_sweep_goal:
  assumes "gc_sweep ps m (gc, bm) = (Inr k, gc', bm')" and "gc_state_of gc \<noteq> GC_STOPPED"
    and "\<not> (\<exists>u. gc_get_utilization bm' = Inr u \<and> u \<le> gc_target gc)"
    and "p \<in> set ps" and "dict_get (bm_blocks bm') p = Some c"
  shows "\<not> is_invalid c"
  using assms
proof (induction ps arbitrary: m gc bm)
  case (Cons q ps)
  obtain n gc1 bm1 where s: "gc_reclaim q (gc, bm) = (n, gc1, bm1)" by (cases "gc_reclaim q (gc, bm)")
  note e = gc_reclaim_config[OF s]
  have rest: "gc_sweep ps (m + n) (gc1, bm1) = (Inr k, gc', bm')"
    using Cons.prems s e by (auto split: sum.splits if_splits)
  show ?case
  proof (cases "p \<in> set ps")
    case True
    then show ?thesis using Cons.IH[OF rest] Cons.prems e by auto
  next
    case False
    then have "p = q" using Cons.prems(4) by simp
    then show ?thesis
      using gc_reclaim_effect(7)[OF s] erase_steps_invalid[OF gc_sweep_erases[OF rest]] Cons.prems(5)
      by blast
  qed
qed simp

lemma count_vals_zero: "(\<And>v. v \<in> set (dict_values d) \<Longrightarrow> \<not> P v) \<Longrightarrow> count_vals P d = 0"
  by (induction d) auto

lemma utilization_ok:
  assumes "bm_ok bm" and b: "dict_get (bm_blocks bm) p = Some b" "pb_state b \<noteq> BAD"
  obtains u where "gc_get_utilization bm = Inr u" "bm_free bm = {} \<Longrightarrow> u = 1"
proof -
  have inv: "bm_inv bm" and c: "bm_counts bm" using assms(1) by (simp_all add: bm_ok_def)
  have pb: "(p, b) \<in> set (bm_blocks bm)" using b(1) by (rule map_of_SomeD)
  then have ne: "bm_blocks bm \<noteq> []" by auto
  then have n: "bm_total_blocks bm = int (length (bm_blocks bm))"
    "bs_total_blocks (bm_stats bm) = int (length (bm_blocks bm))" "0 < length (bm_blocks bm)"
    "bs_free_blocks (bm_stats bm) = count_vals is_free (bm_blocks bm)"
    using c by (simp_all add: bm_counts_def Let_def)
  have usable: "[pb_erase_count b. b \<leftarrow> dict_values (bm_blocks bm), pb_state b \<noteq> BAD] \<noteq> []"
  proof -
    have "b \<in> set (dict_values (bm_blocks bm))" using pb by force
    then have "pb_erase_count b
        \<in> set [pb_erase_count b. b \<leftarrow> dict_values (bm_blocks bm), pb_state b \<noteq> BAD]"
      using b(2) unfolding set_concat set_map by auto
    then show ?thesis by (metis empty_iff empty_set)
  qed
  have "map pb_erase_count (dict_values (bm_blocks bm)) \<noteq> []" "bm_total_blocks bm \<noteq> 0"
    "bs_total_blocks (bm_stats bm) \<noteq> 0"
    using ne n by simp_all
  with usable obtain r where r: "bm_get_stats bm = Inr r" "br_stats r = bm_stats bm"
    unfolding bm_get_stats_def Let_def by (simp only: if_False) fastforce
  have "bs_free_blocks (bm_stats bm) = 0" if "bm_free bm = {}"
  proof -
    have "\<not> is_free v" if "v \<in> set (dict_values (bm_blocks bm))" for v
      using that \<open>bm_free bm = {}\<close> inv dict_values_get[of "bm_blocks bm" v]
      by (auto simp: bm_inv_def maps_ok_def)
    then show ?thesis unfolding n(4) by (rule count_vals_zero)
  qed
  then show thesis
    using that r n by (simp add: gc_get_utilization_def Let_def fdiv_def)
qed

lemma free_block:
  assumes "bm_ok bm" and "bm_free bm \<noteq> {}"
  obtains p b where "dict_get (bm_blocks bm) p = Some b" "pb_state b \<noteq> BAD"
  using assms by (auto simp: bm_ok_def bm_inv_def maps_ok_def)

lemma gc_sweep_with_free:
  assumes "bm_ok bm" and "bm_free bm \<noteq> {}"
  shows "\<exists>k gc' bm'. gc_sweep ps m (gc, bm) = (Inr k, gc', bm') \<and> bm_free bm' \<noteq> {}"
  using assms
proof (induction ps arbitrary: m gc bm)
  case (Cons p ps)
  obtain n gc1 bm1 where s: "gc_reclaim p (gc, bm) = (n, gc1, bm1)" by (cases "gc_reclaim p (gc, bm)")
  have ok: "bm_ok bm1" using erasing.run_keeps[OF gc_reclaim_erases[OF s] Cons.prems(1)] by simp
  have fr: "bm_free bm1 \<noteq> {}" using gc_reclaim_effect(6)[OF s] Cons.prems(2) by auto
  obtain q b where "dict_get (bm_blocks bm1) q = Some b" "pb_state b \<noteq> BAD" by (rule free_block[OF ok fr])
  then obtain u where u: "gc_get_utilization bm1 = Inr u" by (rule utilization_ok[OF ok])
  show ?case using Cons.IH[OF ok fr] Cons.prems s u fr by simp
qed simp

lemma gc_sweep_full:
  assumes "bm_ok bm" and "gc_target gc < 1" and "gc_state_of gc \<noteq> GC_STOPPED"
    and "p \<in> set ps" and "dict_get (bm_blocks bm) p = Some b" and "is_invalid b"
    and "pb_erase_count b + 1 < bm_max_erase_count bm"
  shows "\<exists>k gc' bm'. gc_sweep ps m (gc, bm) = (Inr k, gc', bm') \<and> bm_free bm' \<noteq> {}"
  using assms
proof (induction ps arbitrary: m gc bm)
  case (Cons q ps)
  obtain n gc1 bm1 where s: "gc_reclaim q (gc, bm) = (n, gc1, bm1)" by (cases "gc_reclaim q (gc, bm)")
  have keeps: "bm_ok bm1" "bm_view bm1 = bm_view bm"
    using erasing.run_keeps[OF gc_reclaim_erases[OF s] Cons.prems(1)] by simp_all
  note cfg = gc_reclaim_config[OF s]
  show ?case
  proof (cases "bm_free bm1 = {}")
    case False
    obtain r c where "dict_get (bm_blocks bm1) r = Some c" "pb_state c \<noteq> BAD"
      by (rule free_block[OF keeps(1) False])
    then obtain u where "gc_get_utilization bm1 = Inr u" by (rule utilization_ok[OF keeps(1)])
    then show ?thesis using gc_sweep_with_free[OF keeps(1) False] Cons.prems(3) s False by simp
  next
    case True
    have pb: "q \<noteq> p \<and> dict_get (bm_blocks bm1) p = Some b"
      using s
    proof (cases rule: gc_reclaim_cases)
      case none
      then show ?thesis using Cons.prems(5,6) by auto
    next
      case (worn c)
      then show ?thesis using erase_invalid_effect(3)[OF worn(3-5)] Cons.prems(5-7) by auto
    next
      case (freed c)
      then show ?thesis using erase_invalid_effect(4)[OF freed(2-4)] True by auto
    qed
    moreover have "pb_state b \<noteq> BAD" using Cons.prems(6) by simp
    ultimately obtain u where u: "gc_get_utilization bm1 = Inr u" "u = 1"
      using utilization_ok[OF keeps(1), of p b] True by metis
    have "bm_max_erase_count bm1 = bm_max_erase_count bm"
      using keeps(2) by (simp add: bm_view_def bm_config_def)
    then show ?thesis
      using Cons.IH[of bm1 gc1 "m + n"] keeps(1) cfg Cons.prems pb s u by auto
  qed
qed simp

text \<open>A flash of one block whose only block is garbage, for the witnesses.\<close>

definition gc_demo :: block_manager where
  "gc_demo = snd (bm_delete_block 0 (snd (bm_write_block sorted_list_of_set 0 [1]
     (case BlockManager 1 16 4 10 of Inr bm \<Rightarrow> bm | Inl _ \<Rightarrow> undefined))))"

lemma gc_demo_ok: "bm_ok gc_demo"
proof -
  obtain bm where bm: "BlockManager 1 16 4 10 = Inr bm" by (simp add: BlockManager_def)
  have size: "int (length [1 :: 8 word]) \<le> bm_block_size bm" and free: "bm_free bm \<noteq> {}"
    using bm by (auto simp: BlockManager_def)
  obtain p bm1 where w: "bm_write_block sorted_list_of_set 0 [1] bm = (Inr (p, True), bm1)"
    "bm_inv bm1" "bm_counts bm \<Longrightarrow> bm_counts bm1"
    by (rule write_ok[OF bm_init(1)[OF bm] iter_ok_sorted size free, of 0]) blast
  obtain bm2 where "bm_delete_block 0 bm1 = (Inr (bm_content bm1 0 \<noteq> None), bm2)"
    "bm_inv bm2" "bm_counts bm1 \<Longrightarrow> bm_counts bm2"
    by (rule delete_ok[OF w(2), of 0]) blast
  then show ?thesis using w bm bm_init(4)[OF bm] by (simp add: gc_demo_def bm_ok_def)
qed

lemma gc_cycle_keeps:
  assumes "bm_ok bm" and "run_gc_cycle gc bm = (r, gc', bm')"
  shows "bm_ok bm' \<and> bm_view bm' = bm_view bm"
proof -
  obtain r1 gc1 bm1 where s: "gc_sweep (bm_get_invalid_blocks bm) 0
      (gc\<lparr>gc_state_of := GC_RUNNING\<rparr>, bm) = (r1, gc1, bm1)"
    by (metis surj_pair)
  have "bm' = bm \<or> bm' = bm1"
    using assms(2) s by (auto simp: run_gc_cycle_def Let_def split: if_splits sum.splits)
  then show ?thesis
    using erasing.run_keeps[OF gc_sweep_erases[OF s] assms(1)] assms(1) by auto
qed

lemma gc_cycle_frees:
  assumes "bm_ok bm" and "gc_target gc < 1" and "gc_state_of gc \<noteq> GC_STOPPED"
    and b: "dict_get (bm_blocks bm) p = Some b" "is_invalid b" "pb_erase_count b + 1 < bm_max_erase_count bm"
  shows "\<exists>n gc' bm'. run_gc_cycle gc bm = (Inr n, gc', bm') \<and> bm_free bm' \<noteq> {}"
proof -
  have "p \<in> set (bm_get_invalid_blocks bm)"
    using map_of_SomeD[OF b(1)] b(2) by (force simp: bm_get_invalid_blocks_def)
  then obtain k gc' bm' where "gc_sweep (bm_get_invalid_blocks bm) 0 (gc\<lparr>gc_state_of := GC_RUNNING\<rparr>, bm)
      = (Inr k, gc', bm')" "bm_free bm' \<noteq> {}"
    using gc_sweep_full[of bm "gc\<lparr>gc_state_of := GC_RUNNING\<rparr>" p "bm_get_invalid_blocks bm" b 0] assms
    by auto
  then show ?thesis using assms(3) by (simp add: run_gc_cycle_def Let_def)
qed

section \<open>Properties of a cycle\<close>

text \<open>
  C9. A garbage collection cycle is invisible to readers. Whatever it reclaims, and also when it is
  stopped or raises half-way, every logical address keeps its contents and the mapping invariant and
  the counters of the block manager are kept.
\<close>

theorem gc_cycle_transparent:
  assumes "bm_ok bm" and "run_gc_cycle gc bm = (r, gc', bm')"
  shows "bm_ok bm' \<and> bm_content bm' = bm_content bm"
  using gc_cycle_keeps[OF assms] by (simp add: bm_view_def)

theorem gc_cycle_transparent_witness:
  "\<exists>r gc' bm'. run_gc_cycle (GarbageCollector (3 / 4) (1 / 2)) gc_demo = (r, gc', bm') \<and>
     bm_content bm' = bm_content gc_demo"
proof -
  obtain r gc' bm' where run: "run_gc_cycle (GarbageCollector (3 / 4) (1 / 2)) gc_demo = (r, gc', bm')"
    by (metis surj_pair)
  with gc_cycle_transparent [OF gc_demo_ok run] show ?thesis by blast
qed

text \<open>
  C25. The result of a completed cycle: the number it returns is the number of blocks that became
  free and the number added to the statistics; the collector is idle again; and the cycle has
  reached its target utilization or left no invalid block.
\<close>

theorem gc_cycle_result:
  assumes "bm_ok bm" and "gc_state_of gc \<noteq> GC_STOPPED" and "run_gc_cycle gc bm = (Inr n, gc', bm')"
  shows "gc_state_of gc' = GC_IDLE \<and>
    bs_free_blocks (bm_stats bm') = bs_free_blocks (bm_stats bm) + n \<and>
    gs_gc_runs (gc_stats_of gc') = gs_gc_runs (gc_stats_of gc) + 1 \<and>
    gs_blocks_reclaimed (gc_stats_of gc') = gs_blocks_reclaimed (gc_stats_of gc) + n \<and>
    gs_bytes_reclaimed (gc_stats_of gc') = gs_bytes_reclaimed (gc_stats_of gc) + n * bm_block_size bm \<and>
    ((\<exists>u. gc_get_utilization bm' = Inr u \<and> u \<le> gc_target gc) \<or> bm_get_invalid_blocks bm' = [])"
proof -
  let ?ps = "bm_get_invalid_blocks bm" and ?gc = "gc\<lparr>gc_state_of := GC_RUNNING\<rparr>"
  obtain r1 gc1 bm1 where s: "gc_sweep ?ps 0 (?gc, bm) = (r1, gc1, bm1)" by (metis surj_pair)
  have r1: "r1 = Inr n" and bm1: "bm' = bm1"
    using assms(2,3) s by (auto simp: run_gc_cycle_def Let_def split: sum.splits)
  note e = gc_sweep_effect[OF s]
  have gc': "gc' = gc1\<lparr>gc_stats_of := (gc_stats_of gc1)\<lparr>gs_gc_runs := gs_gc_runs (gc_stats_of gc1) + 1\<rparr>,
      gc_state_of := GC_IDLE\<rparr>"
    using assms(2,3) s r1 e by (auto simp: run_gc_cycle_def Let_def)
  have "bm_get_invalid_blocks bm' = []" if "\<not> (\<exists>u. gc_get_utilization bm' = Inr u \<and> u \<le> gc_target gc)"
  proof -
    have wf: "wf_dict (bm_blocks bm')" "wf_dict (bm_blocks bm)"
      using erasing.run_keeps[OF gc_sweep_erases[OF s] assms(1)] assms(1) bm1
      by (simp_all add: bm_ok_def bm_inv_def)
    have "\<not> is_invalid c" if "dict_get (bm_blocks bm') p = Some c" for p c
    proof
      assume c: "is_invalid c"
      then have "dict_get (bm_blocks bm) p = Some c"
        using erase_steps_invalid[OF gc_sweep_erases[OF s]] that bm1 by simp
      then have "(p, c) \<in> set (bm_blocks bm)" by (rule map_of_SomeD)
      then have "p \<in> set ?ps" using c by (force simp: bm_get_invalid_blocks_def)
      then show False
        using gc_sweep_goal[of ?ps 0 ?gc bm n gc1 bm' p c] s r1 bm1 that c
          \<open>\<not> (\<exists>u. gc_get_utilization bm' = Inr u \<and> u \<le> gc_target gc)\<close> by simp
    qed
    then show ?thesis
      using wf(1) by (auto simp: bm_get_invalid_blocks_def wf_dict_map_of)
  qed
  then show ?thesis using e r1 bm1 gc' by auto
qed

theorem gc_cycle_result_witness:
  "\<exists>gc' bm'. run_gc_cycle (GarbageCollector (3 / 4) (1 / 2)) gc_demo = (Inr 1, gc', bm') \<and>
     gs_blocks_reclaimed (gc_stats_of gc') = 1"
proof -
  let ?gc = "GarbageCollector (3 / 4) (1 / 2)"
  have "fst (run_gc_cycle ?gc gc_demo) = Inr 1" by code_simp
  then obtain gc' bm' where run: "run_gc_cycle ?gc gc_demo = (Inr 1, gc', bm')" by (metis prod.collapse)
  have "gc_state_of ?gc \<noteq> GC_STOPPED" by (simp add: GarbageCollector_def)
  from gc_cycle_result [OF gc_demo_ok this run] run show ?thesis by (simp add: GarbageCollector_def)
qed

end
