(* ===== verification/Wear_Leveling.thy ===== *)
theory Wear_Leveling
  imports Block_Manager
begin

text \<open>
  \<^verbatim>\<open>directflash/wear_leveling.py\<close>: moving data from worn valid blocks to fresh free ones. The
  \<^verbatim>\<open>while True\<close> loop of a leveling pass is a total function: each round erases one block once more,
  and no block is erased more often than its endurance allows.
\<close>

section \<open>State and operations\<close>

datatype wear_strategy = DYNAMIC | STATIC

record wear_stats =
  ws_blocks_moved :: int
  ws_hot_to_cold_moves :: int
  ws_cold_to_hot_moves :: int
  ws_wear_variance :: double

record wear_leveling =
  wl_strategy :: wear_strategy
  wl_threshold :: int
  wl_stats :: wear_stats
  wl_write_counts :: "(int, int) dict"

definition WearLeveling :: "wear_strategy \<Rightarrow> int \<Rightarrow> wear_leveling" where
  "WearLeveling strategy threshold =
     \<lparr> wl_strategy = strategy, wl_threshold = threshold,
       wl_stats = \<lparr> ws_blocks_moved = 0, ws_hot_to_cold_moves = 0, ws_cold_to_hot_moves = 0,
                    ws_wear_variance = 0 \<rparr>,
       wl_write_counts = [] \<rparr>"

definition write_count :: "wear_leveling \<Rightarrow> int \<Rightarrow> int" where
  "write_count wl la = (case dict_get (wl_write_counts wl) la of None \<Rightarrow> 0 | Some n \<Rightarrow> n)"

definition wl_record_write :: "int \<Rightarrow> wear_leveling \<Rightarrow> wear_leveling" where
  "wl_record_write la wl =
     wl\<lparr>wl_write_counts := dict_set la (write_count wl la + 1) (wl_write_counts wl)\<rparr>"

definition wl_is_hot_data :: "wear_leveling \<Rightarrow> int \<Rightarrow> int \<Rightarrow> bool" where
  "wl_is_hot_data wl la threshold \<longleftrightarrow> threshold < write_count wl la"

definition wl_should_level :: "wear_leveling \<Rightarrow> block_manager \<Rightarrow> bool result" where
  "wl_should_level wl bm =
     (case bm_get_stats bm of
        Inl e \<Rightarrow> Inl e
      | Inr r \<Rightarrow> Inr (wl_threshold wl < br_max_erase_count r - br_min_erase_count r))"

text \<open>
  The loop of \<^verbatim>\<open>find_candidates\<close> carries \<^verbatim>\<open>most_worn_valid\<close>, \<^verbatim>\<open>max_erase\<close>, and \<^verbatim>\<open>least_worn_free\<close> with
  \<^verbatim>\<open>min_erase\<close>, which is infinite (\<open>None\<close>) until a free block is seen.
\<close>

type_synonym candidates = "int option \<times> int \<times> (int \<times> int) option"

definition scan_block :: "int \<times> physical_block \<Rightarrow> candidates \<Rightarrow> candidates" where
  "scan_block = (\<lambda>(p, b) (most_worn, max_erase, least_worn).
     if pb_state b = VALID then
       (if max_erase < pb_erase_count b then (Some p, pb_erase_count b, least_worn)
        else (most_worn, max_erase, least_worn))
     else if pb_state b = FREE then
       (case least_worn of
          None \<Rightarrow> (most_worn, max_erase, Some (p, pb_erase_count b))
        | Some (q, min_erase) \<Rightarrow>
            if pb_erase_count b < min_erase then (most_worn, max_erase, Some (p, pb_erase_count b))
            else (most_worn, max_erase, least_worn))
     else (most_worn, max_erase, least_worn))"

definition wl_find_candidates :: "wear_leveling \<Rightarrow> block_manager \<Rightarrow> (int \<times> int) option" where
  "wl_find_candidates wl bm =
     (case fold scan_block (bm_blocks bm) (None, -1, None) of
        (Some s, max_erase, Some (d, min_erase)) \<Rightarrow>
          if wl_threshold wl < max_erase - min_erase then Some (s, d) else None
      | _ \<Rightarrow> None)"

definition wl_level_block ::
    "int \<Rightarrow> int \<Rightarrow> wear_leveling \<times> block_manager \<Rightarrow> bool \<times> wear_leveling \<times> block_manager" where
  "wl_level_block s d = (\<lambda>(wl, bm).
     (case (dict_get (bm_blocks bm) s, dict_get (bm_blocks bm) d) of
        (Some source, Some dest) \<Rightarrow>
          if pb_state source \<noteq> VALID \<or> pb_state dest \<noteq> FREE then (False, wl, bm)
          else
            let bm = set_block d (dest\<lparr> pb_data := pb_data source, pb_state := VALID,
                                        pb_logical_address := pb_logical_address source \<rparr>) bm;
                bm = (case pb_logical_address source of
                        None \<Rightarrow> bm | Some la \<Rightarrow> bm\<lparr>bm_l2p := dict_set la d (bm_l2p bm)\<rparr>);
                bm = set_block s (source\<lparr> pb_state := INVALID, pb_logical_address := None \<rparr>) bm;
                bm = count_stats (\<lambda>st. st\<lparr> bs_free_blocks := bs_free_blocks st - 1,
                                           bs_invalid_blocks := bs_invalid_blocks st + 1 \<rparr>)
                       (bm\<lparr>bm_free := bm_free bm - {d}\<rparr>);
                st = wl_stats wl
            in (True, wl\<lparr>wl_stats := st\<lparr>ws_blocks_moved := ws_blocks_moved st + 1\<rparr>\<rparr>, bm)
      | _ \<Rightarrow> (False, wl, bm)))"

text \<open>What is left of the endurance of the flash; a leveling round uses some of it up.\<close>

definition erasures_left :: "int \<Rightarrow> physical_block \<Rightarrow> int" where
  "erasures_left mx b = (if pb_state b = BAD then 0 else 1 + max 0 (mx - pb_erase_count b))"

definition endurance_left :: "block_manager \<Rightarrow> int" where
  "endurance_left bm = sum_vals (erasures_left (bm_max_erase_count bm)) (bm_blocks bm)"

lemma level_block_True:
  assumes "wl_level_block s d (wl, bm) = (True, wl', bm')"
  obtains source dest where "dict_get (bm_blocks bm) s = Some source" "is_valid source"
    "dict_get (bm_blocks bm) d = Some dest" "is_free dest" "s \<noteq> d"
    "bm_blocks bm' = dict_set s (source\<lparr>pb_state := INVALID, pb_logical_address := None\<rparr>)
       (dict_set d (dest\<lparr>pb_data := pb_data source, pb_state := VALID,
                         pb_logical_address := pb_logical_address source\<rparr>) (bm_blocks bm))"
    "bm_l2p bm' = (case pb_logical_address source of
       None \<Rightarrow> bm_l2p bm | Some la \<Rightarrow> dict_set la d (bm_l2p bm))"
    "bm_free bm' = bm_free bm - {d}" "bm_config bm' = bm_config bm"
    "bm_stats bm' = (bm_stats bm)\<lparr> bs_free_blocks := bs_free_blocks (bm_stats bm) - 1,
       bs_invalid_blocks := bs_invalid_blocks (bm_stats bm) + 1 \<rparr>"
    "wl' = wl\<lparr>wl_stats := (wl_stats wl)\<lparr>ws_blocks_moved := ws_blocks_moved (wl_stats wl) + 1\<rparr>\<rparr>"
proof -
  obtain source dest where "dict_get (bm_blocks bm) s = Some source" "is_valid source"
    "dict_get (bm_blocks bm) d = Some dest" "is_free dest"
    using assms by (auto simp: wl_level_block_def split: option.splits if_splits)
  moreover from this have "s \<noteq> d" by auto
  ultimately show thesis
    using assms
    by (intro that[of source dest])
      (auto simp: wl_level_block_def Let_def bm_config_def split: option.splits)
qed

lemma endurance_erase:
  assumes "dict_get (bm_blocks bm) p = Some b" and "pb_state b \<noteq> BAD"
  shows "endurance_left (snd (bm_erase_block p bm)) < endurance_left bm"
proof -
  define b' where "b' = (if bm_max_erase_count bm \<le> pb_erase_count b + 1
    then b\<lparr>pb_erase_count := pb_erase_count b + 1, pb_state := BAD\<rparr>
    else b\<lparr>pb_erase_count := pb_erase_count b + 1, pb_data := [], pb_state := FREE,
           pb_logical_address := None\<rparr>)"
  have "bm_blocks (snd (bm_erase_block p bm)) = dict_set p b' (bm_blocks bm)"
    "bm_max_erase_count (snd (bm_erase_block p bm)) = bm_max_erase_count bm"
    using assms by (simp_all add: bm_erase_block_def Let_def b'_def)
  moreover have "erasures_left (bm_max_erase_count bm) b' < erasures_left (bm_max_erase_count bm) b"
    using assms(2) by (auto simp: erasures_left_def b'_def)
  ultimately show ?thesis using assms(1) by (simp add: endurance_left_def sum_vals_set)
qed

lemma endurance_level:
  assumes "wl_level_block s d (wl, bm) = (True, wl', bm')"
  shows "endurance_left (snd (bm_erase_block s bm')) < endurance_left bm"
proof -
  obtain source dest where h: "dict_get (bm_blocks bm) s = Some source" "is_valid source"
    "dict_get (bm_blocks bm) d = Some dest" "is_free dest" "s \<noteq> d"
    "bm_blocks bm' = dict_set s (source\<lparr>pb_state := INVALID, pb_logical_address := None\<rparr>)
       (dict_set d (dest\<lparr>pb_data := pb_data source, pb_state := VALID,
                         pb_logical_address := pb_logical_address source\<rparr>) (bm_blocks bm))"
    "bm_config bm' = bm_config bm"
    by (rule level_block_True[OF assms])
  have "endurance_left bm' = endurance_left bm"
    using h by (simp add: endurance_left_def sum_vals_set bm_config_def erasures_left_def)
  moreover have "endurance_left (snd (bm_erase_block s bm')) < endurance_left bm'"
    by (rule endurance_erase) (use h in auto)
  ultimately show ?thesis by simp
qed

lemma endurance_nonneg: "0 \<le> endurance_left bm"
  unfolding endurance_left_def by (rule sum_vals_nonneg) (simp add: erasures_left_def)

function leveling_loop ::
    "int \<Rightarrow> wear_leveling \<times> block_manager \<Rightarrow> int \<times> wear_leveling \<times> block_manager" where
  "leveling_loop moved (wl, bm) =
     (case wl_find_candidates wl bm of
        None \<Rightarrow> (moved, wl, bm)
      | Some (s, d) \<Rightarrow>
          (case wl_level_block s d (wl, bm) of
             (True, wl', bm') \<Rightarrow> leveling_loop (moved + 1) (wl', snd (bm_erase_block s bm'))
           | (False, wl', bm') \<Rightarrow> (moved, wl', bm')))"
  by pat_completeness auto
termination
proof (relation "measure (\<lambda>(_, _, bm). nat (endurance_left bm))")
  fix moved wl bm x s d ok z wl' bm'
  assume "wl_find_candidates wl bm = Some x" "(s, d) = x"
    and "(ok, z) = wl_level_block s d (wl, bm)" "ok = True" "(wl', bm') = z"
  then have "endurance_left (snd (bm_erase_block s bm')) < endurance_left bm"
    using endurance_level[of s d wl bm wl' bm'] by simp
  then show "((moved + 1, wl', snd (bm_erase_block s bm')), moved, wl, bm)
      \<in> measure (\<lambda>(_, _, bm). nat (endurance_left bm))"
    using endurance_nonneg[of "snd (bm_erase_block s bm')"] by auto
qed simp

definition run_leveling_pass ::
    "wear_leveling \<Rightarrow> block_manager \<Rightarrow> (wear_leveling \<times> block_manager, int) outcome" where
  "run_leveling_pass wl bm =
     (case wl_should_level wl bm of
        Inl e \<Rightarrow> (Inl e, wl, bm)
      | Inr False \<Rightarrow> (Inr 0, wl, bm)
      | Inr True \<Rightarrow> (case leveling_loop 0 (wl, bm) of (moved, s) \<Rightarrow> (Inr moved, s)))"

definition get_wear_distribution :: "block_manager \<Rightarrow> (int, int) dict" where
  "get_wear_distribution bm =
     sort_key fst (fold (\<lambda>b dist. let bucket = (pb_erase_count b div 100) * 100
                                  in dict_set bucket
                                       ((case dict_get dist bucket of None \<Rightarrow> 0 | Some n \<Rightarrow> n) + 1) dist)
                     (dict_values (bm_blocks bm)) [])"

fun strategy_value :: "wear_strategy \<Rightarrow> string" where
  "strategy_value DYNAMIC = ''dynamic''"
| "strategy_value STATIC = ''static''"

definition wear_variance :: "int list \<Rightarrow> double" where
  "wear_variance erase_counts =
     (if erase_counts = [] then 0
      else let mean = fdiv (of_int (sum_list erase_counts)) (of_nat (length erase_counts))
           in fdiv (fsum (map (\<lambda>x. fsquare (fsub (float_of x) mean)) erase_counts)) (of_nat (length erase_counts)))"

record wl_report =
  lr_blocks_moved :: int
  lr_strategy :: string
  lr_threshold :: int
  lr_wear_variance :: double
  lr_wear_distribution :: "(int, int) dict"

definition wl_get_stats :: "wear_leveling \<Rightarrow> block_manager \<Rightarrow> wl_report" where
  "wl_get_stats wl bm =
     \<lparr> lr_blocks_moved = ws_blocks_moved (wl_stats wl), lr_strategy = strategy_value (wl_strategy wl),
       lr_threshold = wl_threshold wl,
       lr_wear_variance = wear_variance (map pb_erase_count (dict_values (bm_blocks bm))),
       lr_wear_distribution = get_wear_distribution bm \<rparr>"

section \<open>Leveling is invisible\<close>

inductive level_step :: "block_manager \<Rightarrow> block_manager \<Rightarrow> bool" where
  level: "wl_level_block s d (wl, bm) = (True, wl', bm') \<Longrightarrow> level_step bm bm'"
| level_erase: "erase_step bm bm' \<Longrightarrow> level_step bm bm'"

lemma level_block_keeps:
  assumes "bm_ok bm" and "wl_level_block s d (wl, bm) = (True, wl', bm')"
  shows "bm_ok bm' \<and> bm_view bm' = bm_view bm"
proof -
  obtain source dest where h: "dict_get (bm_blocks bm) s = Some source" "is_valid source"
    "dict_get (bm_blocks bm) d = Some dest" "is_free dest" "s \<noteq> d"
    "bm_blocks bm' = dict_set s (source\<lparr>pb_state := INVALID, pb_logical_address := None\<rparr>)
       (dict_set d (dest\<lparr>pb_data := pb_data source, pb_state := VALID,
                         pb_logical_address := pb_logical_address source\<rparr>) (bm_blocks bm))"
    "bm_l2p bm' = (case pb_logical_address source of
       None \<Rightarrow> bm_l2p bm | Some la \<Rightarrow> dict_set la d (bm_l2p bm))"
    "bm_free bm' = bm_free bm - {d}" "bm_config bm' = bm_config bm"
    "bm_stats bm' = (bm_stats bm)\<lparr> bs_free_blocks := bs_free_blocks (bm_stats bm) - 1,
       bs_invalid_blocks := bs_invalid_blocks (bm_stats bm) + 1 \<rparr>"
    by (rule level_block_True[OF assms(2)])
  have inv: "bm_inv bm" and cnt: "bm_counts bm" using assms(1) by (simp_all add: bm_ok_def)
  let ?B = "dict_get (bm_blocks bm)" and ?M = "dict_get (bm_l2p bm)"
  have ok: "maps_ok ?B ?M (bm_free bm)" using inv by (simp add: bm_inv_def)
  obtain la where la: "pb_logical_address source = Some la" "?M la = Some s"
    using maps_okD(3)[OF ok h(1,2)] by blast
  define s' where "s' = source\<lparr>pb_state := INVALID, pb_logical_address := None\<rparr>"
  define d' where "d' = dest\<lparr>pb_data := pb_data source, pb_state := VALID,
    pb_logical_address := Some la\<rparr>"
  have st: "pb_state s' = INVALID" "pb_state d' = VALID" "pb_logical_address d' = Some la"
    by (simp_all add: s'_def d'_def)
  note rem = maps_ok_remove[OF ok la(2) h(1) st(1)]
  have dest: "(?B(s \<mapsto> s')) d = Some dest" using h(3,5) by simp
  have "(?M(la := None)) la = None" by simp
  note add = maps_ok_add[OF rem(1) this dest h(4) st(2,3), unfolded fun_upd_upd]
  have B: "dict_get (bm_blocks bm') = ?B(s \<mapsto> s', d \<mapsto> d')"
    using h(5,6) la by (simp add: update_conv' s'_def d'_def fun_upd_twist)
  have M: "dict_get (bm_l2p bm') = ?M(la \<mapsto> d)" using h(7) la by (simp add: update_conv')
  have "wf_dict (bm_blocks bm')" "wf_dict (bm_l2p bm')"
    using inv h(6,7) la by (simp_all add: bm_inv_def)
  then have "bm_inv bm'" unfolding bm_inv_def B M h(8) using add(1) by (intro conjI)
  moreover have "bm_content bm' = bm_content bm"
  proof -
    have "bm_content bm la = Some (pb_data d')"
      using la h(1,2) by (simp add: bm_content_def content_of_def d'_def)
    then show ?thesis
      using add(2) rem(2) unfolding bm_content_def B M by (simp only: fun_upd_upd fun_upd_idem)
  qed
  moreover have "bm_counts bm'"
    using cnt h bm_counts_erase_count[OF cnt h(1)] bm_counts_erase_count[OF cnt h(3)]
    by (simp add: bm_count_simps bm_config_def)
  ultimately show ?thesis using h(9) by (simp add: bm_ok_def bm_view_def)
qed

interpretation leveling: transparent_steps level_step bm_ok bm_view
  by unfold_locales (auto elim!: level_step.cases dest: level_block_keeps erase_step_keeps)

lemma level_block_False: "wl_level_block s d (wl, bm) = (False, wl', bm') \<Longrightarrow> wl' = wl \<and> bm' = bm"
  by (auto simp: wl_level_block_def Let_def split: option.splits if_splits)

lemma erase_source:
  assumes "wl_level_block s d (wl, bm) = (True, wl', bm')"
  shows "erase_step bm' (snd (bm_erase_block s bm'))"
proof (rule level_block_True[OF assms])
  fix source dest
  assume "bm_blocks bm' = dict_set s (source\<lparr>pb_state := INVALID, pb_logical_address := None\<rparr>)
       (dict_set d (dest\<lparr>pb_data := pb_data source, pb_state := VALID,
                         pb_logical_address := pb_logical_address source\<rparr>) (bm_blocks bm))"
  then show ?thesis
    by (intro erase[of _ s "source\<lparr>pb_state := INVALID, pb_logical_address := None\<rparr>"
          "fst (bm_erase_block s bm')"]) auto
qed

lemma leveling_round:
  assumes "wl_level_block s d (wl, bm) = (True, wl', bm')"
  shows "level_step\<^sup>*\<^sup>* bm (snd (bm_erase_block s bm'))"
  using level[OF assms] level_erase[OF erase_source[OF assms]] by auto

lemma leveling_loop_steps: "leveling_loop moved (wl, bm) = (n, wl', bm') \<Longrightarrow> level_step\<^sup>*\<^sup>* bm bm'"
proof (induction moved "(wl, bm)" arbitrary: wl bm rule: leveling_loop.induct)
  case (1 moved wl bm)
  show ?case
  proof (cases "wl_find_candidates wl bm")
    case (Some sd)
    obtain s d where sd: "sd = (s, d)" by (cases sd)
    obtain ok wl1 bm1 where lv: "wl_level_block s d (wl, bm) = (ok, wl1, bm1)"
      by (cases "wl_level_block s d (wl, bm)")
    show ?thesis
    proof (cases ok)
      case True
      then have "level_step\<^sup>*\<^sup>* (snd (bm_erase_block s bm1)) bm'"
        using "1.hyps"[OF Some sd[symmetric] lv[symmetric]] "1.prems" Some sd lv by simp
      moreover have "level_step\<^sup>*\<^sup>* bm (snd (bm_erase_block s bm1))"
        using leveling_round lv True by simp
      ultimately show ?thesis by (rule rtranclp_trans[rotated])
    next
      case False
      then show ?thesis using "1.prems" Some sd lv level_block_False[of s d wl bm] by simp
    qed
  qed (use 1 in simp)
qed

section \<open>The candidates\<close>

definition scan_ok :: "(int \<times> physical_block) list \<Rightarrow> candidates \<Rightarrow> bool" where
  "scan_ok xs = (\<lambda>(most_worn, max_erase, least_worn).
     (\<forall>(p, b) \<in> set xs. is_valid b \<longrightarrow> pb_erase_count b \<le> max_erase) \<and>
     (case most_worn of
        None \<Rightarrow> max_erase = -1
      | Some s \<Rightarrow> \<exists>b. (s, b) \<in> set xs \<and> is_valid b \<and> pb_erase_count b = max_erase) \<and>
     (case least_worn of
        None \<Rightarrow> \<forall>(p, b) \<in> set xs. \<not> is_free b
      | Some (d, min_erase) \<Rightarrow>
          (\<exists>b. (d, b) \<in> set xs \<and> is_free b \<and> pb_erase_count b = min_erase) \<and>
          (\<forall>(p, b) \<in> set xs. is_free b \<longrightarrow> min_erase \<le> pb_erase_count b)))"

lemma scan_ok_step: "scan_ok xs c \<Longrightarrow> scan_ok (xs @ [x]) (scan_block x c)"
proof -
  assume ok: "scan_ok xs c"
  obtain p b where x: "x = (p, b)" by (cases x)
  obtain mw mx lw where c: "c = (mw, mx, lw)" by (cases c)
  have "scan_ok (xs @ [(p, b)]) (scan_block (p, b) (mw, mx, lw))"
  proof (cases "pb_state b")
    case FREE
    then show ?thesis using ok c
      by (cases lw) (fastforce simp: scan_ok_def scan_block_def split: option.splits)+
  next
    case VALID
    then show ?thesis using ok c
      by (cases "mx < pb_erase_count b") (fastforce simp: scan_ok_def scan_block_def split: option.splits)+
  qed (use ok c in \<open>fastforce simp: scan_ok_def scan_block_def split: option.splits\<close>)+
  then show ?thesis using x c by simp
qed

lemma scan_ok_fold: "scan_ok xs (fold scan_block xs (None, -1, None))"
proof (induction xs rule: rev_induct)
  case Nil
  show ?case by (simp add: scan_ok_def)
next
  case (snoc x xs)
  then show ?case using scan_ok_step by simp
qed

lemma find_candidates_Some:
  assumes "wl_find_candidates wl bm = Some (s, d)" and "wf_dict (bm_blocks bm)"
  obtains b f where "dict_get (bm_blocks bm) s = Some b" "is_valid b"
    "dict_get (bm_blocks bm) d = Some f" "is_free f"
    "wl_threshold wl < pb_erase_count b - pb_erase_count f"
proof -
  obtain mx mn where f: "fold scan_block (bm_blocks bm) (None, -1, None) = (Some s, mx, Some (d, mn))"
    "wl_threshold wl < mx - mn"
    using assms(1) by (auto simp: wl_find_candidates_def split: option.splits if_splits prod.splits)
  then obtain b f where "(s, b) \<in> set (bm_blocks bm)" "is_valid b" "pb_erase_count b = mx"
    "(d, f) \<in> set (bm_blocks bm)" "is_free f" "pb_erase_count f = mn"
    using scan_ok_fold[of "bm_blocks bm"] by (auto simp: scan_ok_def)
  then show thesis using that f(2) assms(2) by (auto simp: wf_dict_map_of)
qed

lemma find_candidates_None:
  assumes "wl_find_candidates wl bm = None" and "bm_ok bm"
    and b: "dict_get (bm_blocks bm) p = Some b" "is_valid b"
    and f: "dict_get (bm_blocks bm) q = Some f" "is_free f"
  shows "pb_erase_count b - pb_erase_count f \<le> wl_threshold wl"
proof -
  obtain mw mx lw where s: "fold scan_block (bm_blocks bm) (None, -1, None) = (mw, mx, lw)"
    by (metis surj_pair)
  have ok: "scan_ok (bm_blocks bm) (mw, mx, lw)" using scan_ok_fold[of "bm_blocks bm"] s by simp
  note pb = map_of_SomeD[OF b(1)] and qf = map_of_SomeD[OF f(1)]
  have mx: "pb_erase_count b \<le> mx" using ok pb b(2) by (auto simp: scan_ok_def)
  have "0 \<le> pb_erase_count b" using assms(2) b(1) bm_counts_erase_count by (auto simp: bm_ok_def)
  then obtain s where "mw = Some s" using ok mx by (cases mw) (auto simp: scan_ok_def)
  moreover obtain d mn where "lw = Some (d, mn)" "mn \<le> pb_erase_count f"
    using ok qf f(2) by (cases lw) (auto simp: scan_ok_def)
  ultimately show ?thesis using assms(1) s mx by (auto simp: wl_find_candidates_def split: if_splits)
qed

lemma level_candidates:
  assumes "wl_find_candidates wl bm = Some (s, d)" and "wf_dict (bm_blocks bm)"
  shows "fst (wl_level_block s d (wl, bm))"
  by (rule find_candidates_Some[OF assms]) (simp add: wl_level_block_def Let_def)

lemma level_block_wl:
  "wl_level_block s d (wl, bm) = (True, wl', bm') \<Longrightarrow>
   wl_threshold wl' = wl_threshold wl \<and>
   ws_blocks_moved (wl_stats wl') = ws_blocks_moved (wl_stats wl) + 1"
  by (erule level_block_True) simp

lemma leveling_loop_result:
  "leveling_loop moved (wl, bm) = (n, wl', bm') \<Longrightarrow> bm_ok bm \<Longrightarrow>
   wl_find_candidates wl' bm' = None \<and> wl_threshold wl' = wl_threshold wl \<and> moved \<le> n \<and>
   ws_blocks_moved (wl_stats wl') = ws_blocks_moved (wl_stats wl) + (n - moved)"
proof (induction moved "(wl, bm)" arbitrary: wl bm rule: leveling_loop.induct)
  case (1 moved wl bm)
  show ?case
  proof (cases "wl_find_candidates wl bm")
    case (Some sd)
    obtain s d where sd: "sd = (s, d)" by (cases sd)
    have wf: "wf_dict (bm_blocks bm)" using "1.prems"(2) by (simp add: bm_ok_def bm_inv_def)
    obtain wl1 bm1 where lv: "wl_level_block s d (wl, bm) = (True, wl1, bm1)"
      using level_candidates[OF _ wf] Some sd by (metis prod.collapse)
    have "bm_ok (snd (bm_erase_block s bm1))"
      using leveling.run_keeps[OF leveling_round[OF lv] "1.prems"(2)] by simp
    then show ?thesis
      using "1.hyps"[OF Some sd[symmetric] lv[symmetric]] "1.prems"(1) Some sd lv level_block_wl[OF lv]
      by auto
  qed (use 1 in simp)
qed

text \<open>A flash of two blocks, the worn one in use, for the witnesses.\<close>

definition wear_demo :: block_manager where
  "wear_demo =
     \<lparr> bm_total_blocks = 2, bm_block_size = 16, bm_page_size = 4, bm_pages_per_block = 4,
       bm_max_erase_count = 10,
       bm_blocks = [(0, \<lparr> pb_block_id = 0, pb_state = VALID, pb_erase_count = 5, pb_data = [1, 2],
                          pb_logical_address = Some 7 \<rparr>), (1, PhysicalBlock 1)],
       bm_l2p = [(7, 0)], bm_free = {1},
       bm_stats = \<lparr> bs_total_blocks = 2, bs_free_blocks = 1, bs_valid_blocks = 1,
                    bs_invalid_blocks = 5, bs_bad_blocks = 0, bs_total_writes = 1,
                    bs_total_reads = 0, bs_total_erases = 5 \<rparr> \<rparr>"

lemma wear_demo_ok: "bm_ok wear_demo"
proof -
  have "maps_ok (dict_get (bm_blocks wear_demo)) (dict_get (bm_l2p wear_demo)) (bm_free wear_demo)"
    by (rule maps_okI) (auto simp: wear_demo_def PhysicalBlock_def split: if_splits)
  then show ?thesis
    by (simp add: bm_ok_def bm_inv_def bm_counts_def wf_dict_def wear_demo_def PhysicalBlock_def)
qed

lemma leveling_pass_keeps:
  assumes "bm_ok bm" and "run_leveling_pass wl bm = (r, wl', bm')"
  shows "bm_ok bm' \<and> bm_view bm' = bm_view bm"
proof -
  obtain n wl1 bm1 where l: "leveling_loop 0 (wl, bm) = (n, wl1, bm1)" by (metis surj_pair)
  have "bm' = bm \<or> bm' = bm1"
    using assms(2) l by (auto simp: run_leveling_pass_def split: sum.splits bool.splits)
  then show ?thesis
    using leveling.run_keeps[OF leveling_loop_steps[OF l] assms(1)] assms(1) by auto
qed

section \<open>Properties of a leveling pass\<close>

text \<open>
  C13. A wear-leveling pass moves data without anyone noticing: it terminates, every logical address
  keeps its contents, and the mapping invariant and the counters of the block manager are kept.
\<close>

theorem leveling_pass_transparent:
  assumes "bm_ok bm" and "run_leveling_pass wl bm = (r, wl', bm')"
  shows "bm_ok bm' \<and> bm_content bm' = bm_content bm"
  using leveling_pass_keeps[OF assms] by (simp add: bm_view_def)

theorem leveling_pass_transparent_witness:
  "\<exists>r wl' bm'. run_leveling_pass (WearLeveling DYNAMIC 2) wear_demo = (r, wl', bm') \<and>
     bm_content bm' 7 = Some [1, 2]"
proof -
  obtain r wl' bm' where run: "run_leveling_pass (WearLeveling DYNAMIC 2) wear_demo = (r, wl', bm')"
    by (metis surj_pair)
  have "bm_content wear_demo 7 = Some [1, 2]" by code_simp
  with leveling_pass_transparent [OF wear_demo_ok run] run show ?thesis by auto
qed

text \<open>
  C26. A completed pass reaches its goal: afterwards no valid block is worn more than the threshold
  beyond any free block, and the number returned is the number of blocks moved. (When
  \<^verbatim>\<open>should_level\<close> says no, the goal holds already.)
\<close>

theorem leveling_pass_balances:
  assumes ok: "bm_ok bm" and run: "run_leveling_pass wl bm = (Inr n, wl', bm')"
  shows "(\<forall>p b q f. dict_get (bm_blocks bm') p = Some b \<and> is_valid b \<and>
            dict_get (bm_blocks bm') q = Some f \<and> is_free f \<longrightarrow>
            pb_erase_count b - pb_erase_count f \<le> wl_threshold wl) \<and>
         0 \<le> n \<and> ws_blocks_moved (wl_stats wl') = ws_blocks_moved (wl_stats wl) + n"
proof -
  obtain m wl1 bm1 where l: "leveling_loop 0 (wl, bm) = (m, wl1, bm1)" by (metis surj_pair)
  obtain go where go: "wl_should_level wl bm = Inr go"
    using run by (auto simp: run_leveling_pass_def split: sum.splits)
  show ?thesis
  proof (cases go)
    case True
    then have r: "n = m" "wl' = wl1" "bm' = bm1" using run l go by (simp_all add: run_leveling_pass_def)
    have "bm_ok bm'" using leveling.run_keeps[OF leveling_loop_steps[OF l] ok] r by simp
    then show ?thesis
      using leveling_loop_result[OF l ok] r find_candidates_None[of wl' bm'] by auto
  next
    case False
    then have r: "n = 0" "wl' = wl" "bm' = bm" using run go by (simp_all add: run_leveling_pass_def)
    obtain rep where rep: "bm_get_stats bm = Inr rep"
      "br_max_erase_count rep - br_min_erase_count rep \<le> wl_threshold wl"
      using go False by (auto simp: wl_should_level_def split: sum.splits)
    have "pb_erase_count b - pb_erase_count f \<le> wl_threshold wl"
      if "dict_get (bm_blocks bm) p = Some b" "dict_get (bm_blocks bm) q = Some f" "is_free f" for p b q f
      using bm_get_stats_bounds(1)[OF rep(1) that(1)] bm_get_stats_bounds(2)[OF rep(1) that(2)] that(3)
        rep(2) by simp
    then show ?thesis using r by auto
  qed
qed

theorem leveling_pass_balances_witness:
  "\<exists>wl' bm'. run_leveling_pass (WearLeveling DYNAMIC 2) wear_demo = (Inr 1, wl', bm') \<and>
     ws_blocks_moved (wl_stats wl') = 1"
proof -
  have "fst (run_leveling_pass (WearLeveling DYNAMIC 2) wear_demo) = Inr 1" by code_simp
  then obtain wl' bm' where run: "run_leveling_pass (WearLeveling DYNAMIC 2) wear_demo = (Inr 1, wl', bm')"
    by (metis prod.collapse)
  with leveling_pass_balances [OF wear_demo_ok run] show ?thesis by (simp add: WearLeveling_def)
qed

end
