(* ===== verification/Flash_Simulator.thy ===== *)
theory Flash_Simulator
  imports Garbage_Collection Wear_Leveling
begin

text \<open>
  \<^verbatim>\<open>directflash/simulator.py\<close>: the flash as its users see it. The simulator composes the block manager,
  the garbage collector and wear leveling; its specification is a map from addresses to bytes, and the
  main theorem says that every answer agrees with that map over any history, with collection and
  leveling going on in between.
\<close>

section \<open>State and operations\<close>

record flash =
  fs_settings :: settings
  fs_bm :: block_manager
  fs_wl :: wear_leveling
  fs_gc :: garbage_collector
  fs_initialized :: bool
  fs_next :: int

definition DEFAULT_MAX_ERASE_COUNT :: int where
  "DEFAULT_MAX_ERASE_COUNT = 100000"

definition DirectFlashSimulator :: "settings \<Rightarrow> flash result" where
  "DirectFlashSimulator cfg =
     (case BlockManager (cfg_total_flash_blocks cfg) (cfg_flash_block_size cfg) (cfg_flash_page_size cfg)
             DEFAULT_MAX_ERASE_COUNT of
        Inl e \<Rightarrow> Inl e
      | Inr bm \<Rightarrow>
          Inr \<lparr> fs_settings = cfg, fs_bm = bm,
                fs_wl = WearLeveling DYNAMIC (cfg_wear_leveling_threshold cfg),
                fs_gc = GarbageCollector (cfg_gc_threshold cfg) (cfg_gc_target cfg),
                fs_initialized = False, fs_next = 0 \<rparr>)"

definition flash_initialize :: "flash \<Rightarrow> flash" where
  "flash_initialize fs =
     (if fs_initialized fs then fs
      else fs\<lparr>fs_gc := start_background_gc (fs_gc fs), fs_initialized := True\<rparr>)"

definition flash_shutdown :: "flash \<Rightarrow> flash" where
  "flash_shutdown fs = fs\<lparr>fs_gc := stop_background_gc (fs_gc fs), fs_initialized := False\<rparr>"

text \<open>The end of \<^verbatim>\<open>write\<close>, after the block is written (lines 109-116).\<close>

definition flash_wrote :: "int \<Rightarrow> flash \<Rightarrow> (flash, int) outcome" where
  "flash_wrote la fs =
     (let wl = wl_record_write la (fs_wl fs); fs = fs\<lparr>fs_wl := wl\<rparr>
      in case wl_should_level wl (fs_bm fs) of
           Inl e \<Rightarrow> (Inl e, fs)
         | Inr False \<Rightarrow> (Inr la, fs)
         | Inr True \<Rightarrow>
             (case run_leveling_pass wl (fs_bm fs) of
                (Inl e, wl, bm) \<Rightarrow> (Inl e, fs\<lparr>fs_wl := wl, fs_bm := bm\<rparr>)
              | (Inr n, wl, bm) \<Rightarrow> (Inr la, fs\<lparr>fs_wl := wl, fs_bm := bm\<rparr>)))"

definition flash_write :: "(int set \<Rightarrow> int list) \<Rightarrow> bytes \<Rightarrow> flash \<Rightarrow> (flash, int) outcome" where
  "flash_write iter data fs =
     (let la = fs_next fs; fs = fs\<lparr>fs_next := fs_next fs + 1\<rparr>
      in case bm_write_block iter la data (fs_bm fs) of
           (Inl e, bm) \<Rightarrow> (Inl e, fs\<lparr>fs_bm := bm\<rparr>)
         | (Inr (_, True), bm) \<Rightarrow> flash_wrote la (fs\<lparr>fs_bm := bm\<rparr>)
         | (Inr (_, False), bm) \<Rightarrow>
             (case trigger_gc (fs_gc fs) bm of
                (Inl e, gc, bm) \<Rightarrow> (Inl e, fs\<lparr>fs_gc := gc, fs_bm := bm\<rparr>)
              | (Inr _, gc, bm) \<Rightarrow>
                  let fs = fs\<lparr>fs_gc := gc\<rparr>
                  in case bm_write_block iter la data bm of
                       (Inl e, bm) \<Rightarrow> (Inl e, fs\<lparr>fs_bm := bm\<rparr>)
                     | (Inr (_, True), bm) \<Rightarrow> flash_wrote la (fs\<lparr>fs_bm := bm\<rparr>)
                     | (Inr (_, False), bm) \<Rightarrow>
                         (Inl (IOError ''Failed to write data: no free blocks''), fs\<lparr>fs_bm := bm\<rparr>)))"

definition flash_read :: "int \<Rightarrow> flash \<Rightarrow> (flash, bytes option) outcome" where
  "flash_read la fs = (case bm_read_block la (fs_bm fs) of (r, bm) \<Rightarrow> (r, fs\<lparr>fs_bm := bm\<rparr>))"

definition flash_delete :: "int \<Rightarrow> flash \<Rightarrow> (flash, bool) outcome" where
  "flash_delete la fs = (case bm_delete_block la (fs_bm fs) of (r, bm) \<Rightarrow> (r, fs\<lparr>fs_bm := bm\<rparr>))"

definition flash_trim :: "int \<Rightarrow> flash \<Rightarrow> (flash, bool) outcome" where
  "flash_trim la fs = flash_delete la fs"

definition flash_get_capacity :: "flash \<Rightarrow> (int \<times> int) result" where
  "flash_get_capacity fs =
     (case bm_get_stats (fs_bm fs) of
        Inl e \<Rightarrow> Inl e
      | Inr r \<Rightarrow> Inr (bs_total_blocks (br_stats r) * bm_block_size (fs_bm fs),
                     bs_free_blocks (br_stats r) * bm_block_size (fs_bm fs)))"

definition flash_get_health :: "flash \<Rightarrow> double result" where
  "flash_get_health fs =
     (case bm_get_stats (fs_bm fs) of
        Inl e \<Rightarrow> Inl e
      | Inr r \<Rightarrow>
          let max_endurance = bm_max_erase_count (fs_bm fs);
              remaining = max 0 (fsub (float_of max_endurance) (br_avg_erase_count r))
          in if max_endurance = 0 then Inl ZeroDivisionError
             else Inr (fmul (fdiv remaining (float_of max_endurance)) 100))"

definition flash_force_gc :: "flash \<Rightarrow> (flash, int) outcome" where
  "flash_force_gc fs =
     (case trigger_gc (fs_gc fs) (fs_bm fs) of (r, gc, bm) \<Rightarrow> (r, fs\<lparr>fs_gc := gc, fs_bm := bm\<rparr>))"

definition flash_force_wear_leveling :: "flash \<Rightarrow> (flash, int) outcome" where
  "flash_force_wear_leveling fs =
     (case run_leveling_pass (fs_wl fs) (fs_bm fs) of
        (r, wl, bm) \<Rightarrow> (r, fs\<lparr>fs_wl := wl, fs_bm := bm\<rparr>))"

record flash_report =
  fr_total_capacity_bytes :: int
  fr_used_bytes :: int
  fr_free_bytes :: int
  fr_utilization :: double
  fr_health_percentage :: double
  fr_blocks :: bm_report
  fr_wear_leveling :: wl_report
  fr_garbage_collection :: gc_report

definition flash_get_stats :: "flash \<Rightarrow> flash_report result" where
  "flash_get_stats fs =
     (case (bm_get_stats (fs_bm fs), gc_get_stats (fs_gc fs) (fs_bm fs), flash_get_capacity fs, flash_get_health fs) of
        (Inr blocks, Inr gc, Inr (total_bytes, free_bytes), Inr health) \<Rightarrow>
          Inr \<lparr> fr_total_capacity_bytes = total_bytes, fr_used_bytes = total_bytes - free_bytes,
                fr_free_bytes = free_bytes, fr_utilization = br_utilization blocks,
                fr_health_percentage = health, fr_blocks = blocks,
                fr_wear_leveling = wl_get_stats (fs_wl fs) (fs_bm fs), fr_garbage_collection = gc \<rparr>
      | (Inl e, _) \<Rightarrow> Inl e
      | (Inr _, Inl e, _) \<Rightarrow> Inl e
      | (Inr _, Inr _, Inl e, _) \<Rightarrow> Inl e
      | (Inr _, Inr _, Inr _, Inl e) \<Rightarrow> Inl e)"

text \<open>One turn of the background collector.\<close>

definition flash_tick :: "flash \<Rightarrow> (flash, unit) outcome" where
  "flash_tick fs =
     (case gc_tick (fs_gc fs) (fs_bm fs) of (r, gc, bm) \<Rightarrow> (r, fs\<lparr>fs_gc := gc, fs_bm := bm\<rparr>))"

section \<open>Invariant\<close>

text \<open>Addresses are handed out in order, so those still to come are unmapped.\<close>

definition fs_inv :: "flash \<Rightarrow> bool" where
  "fs_inv fs \<longleftrightarrow> bm_ok (fs_bm fs) \<and> 0 < bm_max_erase_count (fs_bm fs) \<and>
     (\<forall>la \<ge> fs_next fs. bm_content (fs_bm fs) la = None)"

abbreviation fs_content :: "flash \<Rightarrow> int \<Rightarrow> bytes option" where
  "fs_content fs \<equiv> bm_content (fs_bm fs)"

lemma stats_ok:
  assumes "bm_ok bm" and "dict_get (bm_blocks bm) p = Some b" and "pb_state b \<noteq> BAD"
  obtains r where "bm_get_stats bm = Inr r"
proof -
  obtain u where "gc_get_utilization bm = Inr u" by (rule utilization_ok[OF assms])
  then show thesis using that by (auto simp: gc_get_utilization_def split: sum.splits)
qed

lemma should_level_ok:
  assumes "bm_ok bm" and "bm_content bm la \<noteq> None"
  obtains go where "wl_should_level wl bm = Inr go"
proof -
  obtain p b where b: "dict_get (bm_blocks bm) p = Some b" "pb_state b \<noteq> BAD"
    using assms(2) by (auto simp: bm_content_def content_of_def split: option.splits if_splits)
  obtain r where "bm_get_stats bm = Inr r" by (rule stats_ok[OF assms(1) b])
  then show thesis using that by (simp add: wl_should_level_def)
qed

lemma flash_wrote_ok:
  assumes "bm_ok (fs_bm fs)" and "bm_content (fs_bm fs) la' \<noteq> None"
  obtains fs' where "flash_wrote la fs = (Inr la, fs')" "bm_ok (fs_bm fs')"
    "bm_view (fs_bm fs') = bm_view (fs_bm fs)" "fs_next fs' = fs_next fs"
    "fs_gc fs' = fs_gc fs" "fs_settings fs' = fs_settings fs"
proof -
  let ?wl = "wl_record_write la (fs_wl fs)"
  obtain go where go: "wl_should_level ?wl (fs_bm fs) = Inr go" by (rule should_level_ok[OF assms])
  obtain r wl' bm' where p: "run_leveling_pass ?wl (fs_bm fs) = (r, wl', bm')" by (metis surj_pair)
  have "\<exists>n. r = Inr n" using p go by (auto simp: run_leveling_pass_def split: bool.splits prod.splits)
  then show thesis
    using that go p leveling_pass_keeps[OF assms(1) p] assms(1)
    by (cases go) (auto simp: flash_wrote_def Let_def)
qed

text \<open>What \<^verbatim>\<open>write\<close> promises, whatever its outcome.\<close>

definition write_post :: "bytes \<Rightarrow> flash \<Rightarrow> int result \<Rightarrow> flash \<Rightarrow> bool" where
  "write_post data fs r fs' \<longleftrightarrow>
     fs_inv fs' \<and> fs_next fs' = fs_next fs + 1 \<and> bm_config (fs_bm fs') = bm_config (fs_bm fs) \<and>
     (case r of
        Inl e \<Rightarrow> fs_content fs' = fs_content fs
      | Inr la \<Rightarrow> la = fs_next fs \<and> fs_content fs' = (fs_content fs)(la \<mapsto> data))"

lemma next_unmapped:
  assumes "fs_inv fs" and "bm_ok bm" and "bm_view bm = bm_view (fs_bm fs)"
  shows "dict_get (bm_l2p bm) (fs_next fs) = None"
proof -
  have "maps_ok (dict_get (bm_blocks bm)) (dict_get (bm_l2p bm)) (bm_free bm)"
    using assms(2) by (simp add: bm_ok_def bm_inv_def)
  moreover have "bm_content bm (fs_next fs) = None"
    using assms(1,3) by (simp add: fs_inv_def bm_view_def)
  ultimately show ?thesis using content_None by (simp add: bm_content_def)
qed

lemma write_post_failed:
  assumes "fs_inv fs" and "bm_ok (fs_bm fs')" and "bm_view (fs_bm fs') = bm_view (fs_bm fs)"
    and "fs_next fs' = fs_next fs + 1"
  shows "write_post data fs (Inl e) fs'"
  using assms by (simp add: write_post_def fs_inv_def bm_view_def bm_config_def)

lemma write_free:
  assumes inv: "fs_inv fs" and it: "iter_ok iter" and bm: "bm_ok bm" "bm_view bm = bm_view (fs_bm fs)"
    and free: "bm_free bm \<noteq> {}" and size: "int (length data) \<le> bm_block_size bm"
  obtains p bm1 fs' where "bm_write_block iter (fs_next fs) data bm = (Inr (p, True), bm1)"
    "flash_wrote (fs_next fs) (fs\<lparr>fs_next := fs_next fs + 1, fs_gc := gc, fs_bm := bm1\<rparr>)
     = (Inr (fs_next fs), fs')" "write_post data fs (Inr (fs_next fs)) fs'"
proof -
  let ?la = "fs_next fs"
  have binv: "bm_inv bm" using bm by (simp add: bm_ok_def)
  obtain p bm1 where w: "bm_write_block iter ?la data bm = (Inr (p, True), bm1)" "bm_inv bm1"
    "bm_content bm1 = (bm_content bm)(?la \<mapsto> data)" "bm_config bm1 = bm_config bm"
    "bm_counts bm \<Longrightarrow> bm_counts bm1"
    by (rule write_ok[OF binv it size free, of ?la]) blast
  let ?fs1 = "fs\<lparr>fs_next := ?la + 1, fs_gc := gc, fs_bm := bm1\<rparr>"
  have ok1: "bm_ok (fs_bm ?fs1)" using bm(1) w by (simp add: bm_ok_def)
  have has: "bm_content (fs_bm ?fs1) ?la \<noteq> None" using w(3) by simp
  obtain fs' where f: "flash_wrote ?la ?fs1 = (Inr ?la, fs')" "bm_ok (fs_bm fs')"
    "bm_view (fs_bm fs') = bm_view (fs_bm ?fs1)" "fs_next fs' = fs_next ?fs1"
    by (rule flash_wrote_ok[OF ok1 has])
  have "write_post data fs (Inr ?la) fs'"
    using f(2-4) w(3,4) bm(2) inv by (simp add: write_post_def fs_inv_def bm_view_def bm_config_def)
  then show thesis using that[OF w(1) f(1)] by blast
qed

text \<open>The second attempt, after a collection.\<close>

lemma flash_write_retry:
  assumes inv: "fs_inv fs" and it: "iter_ok iter" and size: "int (length data) \<le> bm_block_size (fs_bm fs)"
    and full: "bm_free (fs_bm fs) = {}"
    and gc: "trigger_gc (fs_gc fs) (fs_bm fs) = (g, gc1, bm1)"
  shows "bm_ok bm1" "bm_view bm1 = bm_view (fs_bm fs)"
    and "bm_free bm1 \<noteq> {} \<Longrightarrow> g = Inr n \<Longrightarrow>
      \<exists>fs'. flash_write iter data fs = (Inr (fs_next fs), fs') \<and> write_post data fs (Inr (fs_next fs)) fs'"
    and "bm_free bm1 = {} \<or> g = Inl e \<Longrightarrow>
      \<exists>e fs'. flash_write iter data fs = (Inl e, fs') \<and> write_post data fs (Inl e) fs'"
proof -
  let ?la = "fs_next fs" and ?fs = "fs\<lparr>fs_next := fs_next fs + 1\<rparr>"
  have ok: "bm_ok (fs_bm fs)" using inv by (simp add: fs_inv_def)
  show k: "bm_ok bm1" "bm_view bm1 = bm_view (fs_bm fs)"
    using gc_cycle_keeps[OF ok, of "fs_gc fs" g gc1 bm1] gc by (simp_all add: trigger_gc_def)
  then have size1: "int (length data) \<le> bm_block_size bm1"
    using size by (simp add: bm_view_def bm_config_def)
  have "bm_write_block iter ?la data (fs_bm fs) = (Inr (-1, False), fs_bm fs)"
    using write_full[OF _ it size full next_unmapped[OF inv ok refl]] ok by (simp add: bm_ok_def)
  then have w: "flash_write iter data fs = (case g of
      Inl e \<Rightarrow> (Inl e, ?fs\<lparr>fs_gc := gc1, fs_bm := bm1\<rparr>)
    | Inr _ \<Rightarrow> (case bm_write_block iter ?la data bm1 of
        (Inl e, bm) \<Rightarrow> (Inl e, ?fs\<lparr>fs_gc := gc1, fs_bm := bm\<rparr>)
      | (Inr (_, True), bm) \<Rightarrow> flash_wrote ?la (?fs\<lparr>fs_gc := gc1, fs_bm := bm\<rparr>)
      | (Inr (_, False), bm) \<Rightarrow>
          (Inl (IOError ''Failed to write data: no free blocks''), ?fs\<lparr>fs_gc := gc1, fs_bm := bm\<rparr>)))"
    using gc by (cases g) (simp_all add: flash_write_def Let_def)
  show "\<exists>fs'. flash_write iter data fs = (Inr ?la, fs') \<and> write_post data fs (Inr ?la) fs'"
    if "bm_free bm1 \<noteq> {}" "g = Inr n"
    by (rule write_free[OF inv it k that(1) size1, of gc1]) (use w that in simp)
  have "write_post data fs (Inl e) (?fs\<lparr>fs_gc := gc1, fs_bm := bm1\<rparr>)" for e
    using write_post_failed[OF inv] k by simp
  moreover have "bm_write_block iter ?la data bm1 = (Inr (-1, False), bm1)" if "bm_free bm1 = {}"
    using write_full[OF _ it size1 that next_unmapped[OF inv k]] k by (simp add: bm_ok_def)
  ultimately show "\<exists>e fs'. flash_write iter data fs = (Inl e, fs') \<and> write_post data fs (Inl e) fs'"
    if "bm_free bm1 = {} \<or> g = Inl e"
    using that w by (cases g) auto
qed

lemma flash_write_ok:
  assumes inv: "fs_inv fs" and it: "iter_ok iter" and run: "flash_write iter data fs = (r, fs')"
  shows "write_post data fs r fs'"
proof (cases "int (length data) \<le> bm_block_size (fs_bm fs)")
  case False
  then show ?thesis
    using write_post_failed[OF inv, of fs'] run inv
    by (auto simp: flash_write_def bm_write_block_def fs_inv_def)
next
  case size: True
  have ok: "bm_ok (fs_bm fs)" using inv by (simp add: fs_inv_def)
  show ?thesis
  proof (cases "bm_free (fs_bm fs) = {}")
    case False
    show ?thesis
      by (rule write_free[OF inv it ok refl False size, of "fs_gc fs"])
        (use run in \<open>simp add: flash_write_def\<close>)
  next
    case True
    obtain g gc1 bm1 where gc: "trigger_gc (fs_gc fs) (fs_bm fs) = (g, gc1, bm1)" by (metis surj_pair)
    show ?thesis
      using flash_write_retry[OF inv it size True gc] run by (cases g; cases "bm_free bm1 = {}") auto
  qed
qed

section \<open>Histories\<close>

text \<open>
  The calls a user of the simulator can make, with the background collector's turns among them. A
  write carries the order in which the free set happens to be iterated.
\<close>

datatype flash_call =
    FWrite "int set \<Rightarrow> int list" bytes
  | FRead int
  | FDelete int
  | FTrim int
  | FForceGC
  | FForceLeveling
  | FInitialize
  | FShutdown
  | FTick

datatype flash_answer =
    Address "int result"
  | Contents "bytes option result"
  | Removed "bool result"
  | Done

fun flash_step :: "flash_call \<Rightarrow> flash \<Rightarrow> flash_answer \<times> flash" where
  "flash_step (FWrite iter data) fs = (case flash_write iter data fs of (r, fs) \<Rightarrow> (Address r, fs))"
| "flash_step (FRead la) fs = (case flash_read la fs of (r, fs) \<Rightarrow> (Contents r, fs))"
| "flash_step (FDelete la) fs = (case flash_delete la fs of (r, fs) \<Rightarrow> (Removed r, fs))"
| "flash_step (FTrim la) fs = (case flash_trim la fs of (r, fs) \<Rightarrow> (Removed r, fs))"
| "flash_step FForceGC fs = (case flash_force_gc fs of (r, fs) \<Rightarrow> (Done, fs))"
| "flash_step FForceLeveling fs = (case flash_force_wear_leveling fs of (r, fs) \<Rightarrow> (Done, fs))"
| "flash_step FInitialize fs = (Done, flash_initialize fs)"
| "flash_step FShutdown fs = (Done, flash_shutdown fs)"
| "flash_step FTick fs = (case flash_tick fs of (r, fs) \<Rightarrow> (Done, fs))"

fun flash_run :: "flash_call list \<Rightarrow> flash \<Rightarrow> flash_answer list \<times> flash" where
  "flash_run [] fs = ([], fs)"
| "flash_run (c # cs) fs =
     (case flash_step c fs of (a, fs) \<Rightarrow> (case flash_run cs fs of (as, fs) \<Rightarrow> (a # as, fs)))"

text \<open>
  The specification: a map from addresses to bytes. It says which answers are right and how they
  change the map; a failed write changes nothing, a successful one uses an address that was not in
  use.
\<close>

fun spec_answer :: "flash_call \<Rightarrow> flash_answer \<Rightarrow> (int \<Rightarrow> bytes option) \<Rightarrow> (int \<Rightarrow> bytes option) option" where
  "spec_answer (FWrite iter data) (Address (Inr la)) m =
     (if m la = None then Some (m(la \<mapsto> data)) else None)"
| "spec_answer (FWrite iter data) (Address (Inl e)) m = Some m"
| "spec_answer (FRead la) (Contents r) m = (if r = Inr (m la) then Some m else None)"
| "spec_answer (FDelete la) (Removed r) m =
     (if r = Inr (m la \<noteq> None) then Some (m(la := None)) else None)"
| "spec_answer (FTrim la) (Removed r) m =
     (if r = Inr (m la \<noteq> None) then Some (m(la := None)) else None)"
| "spec_answer _ Done m = Some m"
| "spec_answer _ _ m = None"

fun spec_answers ::
    "flash_call list \<Rightarrow> flash_answer list \<Rightarrow> (int \<Rightarrow> bytes option) \<Rightarrow> (int \<Rightarrow> bytes option) option" where
  "spec_answers [] [] m = Some m"
| "spec_answers (c # cs) (a # as) m =
     (case spec_answer c a m of None \<Rightarrow> None | Some m \<Rightarrow> spec_answers cs as m)"
| "spec_answers _ _ m = None"

definition call_ok :: "flash_call \<Rightarrow> bool" where
  "call_ok c \<longleftrightarrow> (case c of FWrite iter data \<Rightarrow> iter_ok iter | _ \<Rightarrow> True)"

lemma fs_inv_view:
  "fs_inv fs \<Longrightarrow> bm_ok (fs_bm fs') \<Longrightarrow> bm_view (fs_bm fs') = bm_view (fs_bm fs) \<Longrightarrow>
   fs_next fs' = fs_next fs \<Longrightarrow> fs_inv fs' \<and> fs_content fs' = fs_content fs"
  by (simp add: fs_inv_def bm_view_def bm_config_def)

lemma gc_tick_keeps:
  assumes "bm_ok bm" and "gc_tick gc bm = (r, gc', bm')"
  shows "bm_ok bm' \<and> bm_view bm' = bm_view bm"
proof -
  obtain r1 gc1 bm1 where c: "run_gc_cycle gc bm = (r1, gc1, bm1)" by (metis surj_pair)
  have "bm' = bm \<or> bm' = bm1"
    using assms(2) c by (auto simp: gc_tick_def split: if_splits sum.splits bool.splits)
  then show ?thesis using gc_cycle_keeps[OF assms(1) c] assms(1) by auto
qed

lemma flash_read_ok:
  assumes "fs_inv fs"
  obtains fs' where "flash_read la fs = (Inr (fs_content fs la), fs')" "fs_inv fs'"
    "fs_content fs' = fs_content fs"
proof -
  have "bm_inv (fs_bm fs)" using assms by (simp add: fs_inv_def bm_ok_def)
  then obtain bm' where "bm_read_block la (fs_bm fs) = (Inr (fs_content fs la), bm')" "bm_inv bm'"
    "bm_content bm' = fs_content fs" "bm_config bm' = bm_config (fs_bm fs)"
    "bm_counts (fs_bm fs) \<Longrightarrow> bm_counts bm'"
    by (rule read_ok[of _ la]) blast
  then show thesis
    using that[of "fs\<lparr>fs_bm := bm'\<rparr>"] assms by (simp add: flash_read_def fs_inv_def bm_ok_def bm_config_def)
qed

lemma flash_delete_ok:
  assumes "fs_inv fs"
  obtains fs' where "flash_delete la fs = (Inr (fs_content fs la \<noteq> None), fs')" "fs_inv fs'"
    "fs_content fs' = (fs_content fs)(la := None)"
proof -
  have "bm_inv (fs_bm fs)" using assms by (simp add: fs_inv_def bm_ok_def)
  then obtain bm' where "bm_delete_block la (fs_bm fs) = (Inr (fs_content fs la \<noteq> None), bm')" "bm_inv bm'"
    "bm_content bm' = (fs_content fs)(la := None)" "bm_config bm' = bm_config (fs_bm fs)"
    "bm_counts (fs_bm fs) \<Longrightarrow> bm_counts bm'"
    by (rule delete_ok[of _ la]) blast
  then show thesis
    using that[of "fs\<lparr>fs_bm := bm'\<rparr>"] assms by (simp add: flash_delete_def fs_inv_def bm_ok_def bm_config_def)
qed

lemma flash_step_refines:
  assumes inv: "fs_inv fs" and ok: "call_ok c" and run: "flash_step c fs = (a, fs')"
  shows "fs_inv fs' \<and> spec_answer c a (fs_content fs) = Some (fs_content fs')"
proof (cases c)
  case (FWrite iter data)
  obtain r where r: "flash_write iter data fs = (r, fs')" "a = Address r"
    using run FWrite by (auto split: prod.splits)
  have "write_post data fs r fs'"
    using flash_write_ok[OF inv _ r(1)] ok FWrite by (simp add: call_ok_def)
  then show ?thesis using FWrite r(2) inv by (cases r) (auto simp: write_post_def fs_inv_def)
next
  case (FRead la)
  show ?thesis by (rule flash_read_ok[OF inv, of la]) (use run FRead in auto)
next
  case (FDelete la)
  show ?thesis by (rule flash_delete_ok[OF inv, of la]) (use run FDelete in auto)
next
  case (FTrim la)
  show ?thesis by (rule flash_delete_ok[OF inv, of la]) (use run FTrim in \<open>auto simp: flash_trim_def\<close>)
next
  case FForceGC
  obtain r gc bm where g: "run_gc_cycle (fs_gc fs) (fs_bm fs) = (r, gc, bm)" by (metis surj_pair)
  then have "a = Done" "fs' = fs\<lparr>fs_gc := gc, fs_bm := bm\<rparr>"
    using run FForceGC by (simp_all add: flash_force_gc_def trigger_gc_def)
  then show ?thesis using fs_inv_view[OF inv, of fs'] gc_cycle_keeps[OF _ g] inv FForceGC
    by (simp add: fs_inv_def)
next
  case FForceLeveling
  obtain r wl bm where g: "run_leveling_pass (fs_wl fs) (fs_bm fs) = (r, wl, bm)" by (metis surj_pair)
  then have "a = Done" "fs' = fs\<lparr>fs_wl := wl, fs_bm := bm\<rparr>"
    using run FForceLeveling by (simp_all add: flash_force_wear_leveling_def)
  then show ?thesis using fs_inv_view[OF inv, of fs'] leveling_pass_keeps[OF _ g] inv FForceLeveling
    by (simp add: fs_inv_def)
next
  case FTick
  obtain r gc bm where g: "gc_tick (fs_gc fs) (fs_bm fs) = (r, gc, bm)" by (metis surj_pair)
  then have "a = Done" "fs' = fs\<lparr>fs_gc := gc, fs_bm := bm\<rparr>"
    using run FTick by (simp_all add: flash_tick_def)
  then show ?thesis using fs_inv_view[OF inv, of fs'] gc_tick_keeps[OF _ g] inv FTick
    by (simp add: fs_inv_def)
qed (use run inv in \<open>auto simp: flash_initialize_def flash_shutdown_def fs_inv_def split: if_splits\<close>)

lemma flash_run_refines:
  "fs_inv fs \<Longrightarrow> list_all call_ok cs \<Longrightarrow> flash_run cs fs = (as, fs') \<Longrightarrow>
   fs_inv fs' \<and> spec_answers cs as (fs_content fs) = Some (fs_content fs')"
proof (induction cs arbitrary: fs as)
  case (Cons c cs)
  obtain a fs1 where c: "flash_step c fs = (a, fs1)" by (cases "flash_step c fs")
  obtain as1 fs2 where r: "flash_run cs fs1 = (as1, fs2)" by (cases "flash_run cs fs1")
  then show ?case
    using flash_step_refines[OF Cons.prems(1) _ c] Cons.IH[of fs1 as1] Cons.prems c by auto
qed simp

lemma fs_inv_init:
  assumes "DirectFlashSimulator cfg = Inr fs" and "0 \<le> cfg_total_flash_blocks cfg"
  shows "fs_inv fs" "fs_content fs = (\<lambda>_. None)"
proof -
  obtain bm where bm: "BlockManager (cfg_total_flash_blocks cfg) (cfg_flash_block_size cfg)
      (cfg_flash_page_size cfg) DEFAULT_MAX_ERASE_COUNT = Inr bm"
    and fs: "fs_bm fs = bm"
    using assms(1) by (auto simp: DirectFlashSimulator_def split: sum.splits)
  have "bm_max_erase_count bm = DEFAULT_MAX_ERASE_COUNT"
    using bm_init(3)[OF bm] by (simp add: bm_config_def)
  then show "fs_inv fs" "fs_content fs = (\<lambda>_. None)"
    using bm_init[OF bm] assms(2) fs by (simp_all add: fs_inv_def bm_ok_def DEFAULT_MAX_ERASE_COUNT_def)
qed

section \<open>Properties\<close>

text \<open>
  C4. The flash simulator behaves as a map from addresses to bytes. For any history of writes, reads,
  deletes, trims, collections, leveling passes, start-ups and shutdowns on a fresh simulator, and any
  iteration order of the free set: a successful write uses an address that was not in use, a read
  returns what the last write to the address stored unless it was deleted since, a delete says
  whether there was something to delete, and failed writes, garbage collection and wear leveling
  change nothing a reader can see.
\<close>

theorem flash_refines_map:
  assumes "DirectFlashSimulator cfg = Inr fs0" and "0 \<le> cfg_total_flash_blocks cfg"
    and "list_all call_ok calls" and "flash_run calls fs0 = (answers, fs)"
  shows "spec_answers calls answers (\<lambda>_. None) = Some (bm_content (fs_bm fs))"
  using flash_run_refines[OF fs_inv_init(1)[OF assms(1,2)] assms(3,4)] fs_inv_init(2)[OF assms(1,2)]
  by simp

definition demo_flash :: settings where
  "demo_flash = default_settings\<lparr>cfg_total_flash_blocks := 2\<rparr>"

lemma demo_flash_init: "\<exists>fs0. DirectFlashSimulator demo_flash = Inr fs0"
  by (simp add: DirectFlashSimulator_def BlockManager_def demo_flash_def default_settings_def)

lemma demo_flash_blocks: "0 \<le> cfg_total_flash_blocks demo_flash"
  by (simp add: demo_flash_def)

lemma write_call_ok: "call_ok (FWrite sorted_list_of_set data)"
  by (simp add: call_ok_def iter_ok_sorted)

theorem flash_refines_map_witness:
  "\<exists>fs0 answers fs. DirectFlashSimulator demo_flash = Inr fs0 \<and>
     flash_run [FWrite sorted_list_of_set [1], FDelete 0, FForceGC, FRead 0] fs0 = (answers, fs) \<and>
     spec_answers [FWrite sorted_list_of_set [1], FDelete 0, FForceGC, FRead 0] answers (\<lambda>_. None)
     = Some (bm_content (fs_bm fs))"
proof -
  let ?calls = "[FWrite sorted_list_of_set [1], FDelete 0, FForceGC, FRead 0]"
  obtain fs0 where fs0: "DirectFlashSimulator demo_flash = Inr fs0" using demo_flash_init by (elim exE)
  obtain answers fs where run: "flash_run ?calls fs0 = (answers, fs)" by (metis surj_pair)
  have "list_all call_ok ?calls" using write_call_ok by (simp add: call_ok_def)
  from flash_refines_map [OF fs0 demo_flash_blocks this run] fs0 run show ?thesis by (intro exI conjI)
qed

text \<open>
  C8. Writes succeed as long as there is room. After any such history, data that fit in a block are
  written if a block is free, or if a block holds garbage and can still be erased and the collector is not
  stopped (with a target below 100%).
\<close>

theorem flash_write_succeeds:
  assumes "DirectFlashSimulator cfg = Inr fs0" and "0 \<le> cfg_total_flash_blocks cfg"
    and "list_all call_ok calls" and "flash_run calls fs0 = (answers, fs)"
    and size: "int (length data) \<le> bm_block_size (fs_bm fs)" and it: "iter_ok iter"
    and room: "(\<exists>p b. dict_get (bm_blocks (fs_bm fs)) p = Some b \<and> is_free b) \<or>
      gc_state_of (fs_gc fs) \<noteq> GC_STOPPED \<and> gc_target (fs_gc fs) < 1 \<and>
      (\<exists>p b. dict_get (bm_blocks (fs_bm fs)) p = Some b \<and> is_invalid b \<and>
             pb_erase_count b + 1 < bm_max_erase_count (fs_bm fs))"
  shows "\<exists>la fs'. flash_write iter data fs = (Inr la, fs')"
proof -
  have inv: "fs_inv fs"
    using flash_run_refines[OF fs_inv_init(1)[OF assms(1,2)] assms(3,4)] by simp
  then have ok: "bm_ok (fs_bm fs)" by (simp add: fs_inv_def)
  show ?thesis
  proof (cases "bm_free (fs_bm fs) = {}")
    case False
    show ?thesis
      by (rule write_free[OF inv it ok refl False size, of "fs_gc fs"]) (simp add: flash_write_def)
  next
    case True
    then have "\<not> (\<exists>p b. dict_get (bm_blocks (fs_bm fs)) p = Some b \<and> is_free b)"
      using ok by (auto simp: bm_ok_def bm_inv_def maps_ok_def)
    then obtain p b where "gc_target (fs_gc fs) < 1" "gc_state_of (fs_gc fs) \<noteq> GC_STOPPED"
      "dict_get (bm_blocks (fs_bm fs)) p = Some b" "is_invalid b"
      "pb_erase_count b + 1 < bm_max_erase_count (fs_bm fs)"
      using room by blast
    from gc_cycle_frees[OF ok this] obtain n gc1 bm1 where
      "trigger_gc (fs_gc fs) (fs_bm fs) = (Inr n, gc1, bm1)" "bm_free bm1 \<noteq> {}"
      by (auto simp: trigger_gc_def)
    from flash_write_retry(3)[OF inv it size True this(1) this(2) refl] show ?thesis by blast
  qed
qed

lemma demo_flash_bm:
  assumes "DirectFlashSimulator demo_flash = Inr fs0"
  shows "BlockManager 2 262144 4096 100000 = Inr (fs_bm fs0)"
  using assms by (auto simp: DirectFlashSimulator_def demo_flash_def default_settings_def
      DEFAULT_MAX_ERASE_COUNT_def split: sum.splits)

lemma demo_flash_block:
  assumes "DirectFlashSimulator demo_flash = Inr fs0"
  shows "dict_get (bm_blocks (fs_bm fs0)) 0 = Some (PhysicalBlock 0)" "pb_state (PhysicalBlock 0) \<noteq> BAD"
    "is_free (PhysicalBlock 0)"
proof -
  have "Inr (fs_bm fs0) = BlockManager 2 262144 4096 100000" using demo_flash_bm[OF assms] by simp
  then show "dict_get (bm_blocks (fs_bm fs0)) 0 = Some (PhysicalBlock 0)"
    "pb_state (PhysicalBlock 0) \<noteq> BAD" "is_free (PhysicalBlock 0)"
    by (simp_all add: BlockManager_def PhysicalBlock_def upto.simps)
qed

theorem flash_write_succeeds_witness:
  "\<exists>fs0 fs la fs'. DirectFlashSimulator demo_flash = Inr fs0 \<and> flash_run [] fs0 = ([], fs) \<and>
     flash_write sorted_list_of_set [1, 2] fs = (Inr la, fs')"
proof -
  obtain fs0 where fs0: "DirectFlashSimulator demo_flash = Inr fs0" using demo_flash_init by (elim exE)
  have run: "flash_run [] fs0 = ([], fs0)" "list_all call_ok []" by simp_all
  have size: "int (length [1, 2 :: 8 word]) \<le> bm_block_size (fs_bm fs0)"
    using bm_init(3)[OF demo_flash_bm[OF fs0]] by (simp add: bm_config_def)
  have "(\<exists>p b. dict_get (bm_blocks (fs_bm fs0)) p = Some b \<and> is_free b) \<or>
      gc_state_of (fs_gc fs0) \<noteq> GC_STOPPED \<and> gc_target (fs_gc fs0) < 1 \<and>
      (\<exists>p b. dict_get (bm_blocks (fs_bm fs0)) p = Some b \<and> is_invalid b \<and>
             pb_erase_count b + 1 < bm_max_erase_count (fs_bm fs0))"
    using demo_flash_block[OF fs0] by blast
  from flash_write_succeeds [OF fs0 demo_flash_blocks run(2,1) size iter_ok_sorted this] fs0 run(1)
  show ?thesis by blast
qed

text \<open>
  C36. What the statistics mean. After any history, \<^verbatim>\<open>free_blocks\<close>, \<^verbatim>\<open>valid_blocks\<close> and \<^verbatim>\<open>bad_blocks\<close>
  are the numbers of free, valid and bad blocks, and the four states together make up
  \<^verbatim>\<open>total_blocks\<close>. \<^verbatim>\<open>invalid_blocks\<close> is not the number of invalid blocks: \<^verbatim>\<open>erase_block\<close> tests for
  \<^verbatim>\<open>INVALID\<close> after overwriting the state, so the counter never goes down and exceeds the true number
  by every erasure and every bad block so far.
\<close>

theorem flash_counters:
  assumes "DirectFlashSimulator cfg = Inr fs0" and "0 \<le> cfg_total_flash_blocks cfg"
    and "list_all call_ok calls" and "flash_run calls fs0 = (answers, fs)"
  shows "let st = bm_stats (fs_bm fs); count = \<lambda>s. count_vals (\<lambda>b. pb_state b = s) (bm_blocks (fs_bm fs))
    in bs_free_blocks st = count FREE \<and> bs_valid_blocks st = count VALID \<and> bs_bad_blocks st = count BAD \<and>
       bs_total_blocks st = count FREE + count VALID + count INVALID + count BAD \<and>
       bs_invalid_blocks st = count INVALID + bs_total_erases st + count BAD"
proof -
  have c: "bm_counts (fs_bm fs)"
    using flash_run_refines[OF fs_inv_init(1)[OF assms(1,2)] assms(3,4)]
    by (simp add: fs_inv_def bm_ok_def)
  have "count_vals is_free d + count_vals is_valid d + count_vals is_invalid d
      + count_vals (\<lambda>b. pb_state b = BAD) d = int (length d)" for d :: "(int, physical_block) dict"
  proof (induction d)
    case (Cons x d)
    then show ?case by (cases "pb_state (snd x)") simp_all
  qed simp
  from this[of "bm_blocks (fs_bm fs)"] c show ?thesis by (simp add: bm_counts_def Let_def)
qed

theorem flash_counters_witness:
  "\<exists>fs0 answers fs. DirectFlashSimulator demo_flash = Inr fs0 \<and>
     flash_run [FWrite sorted_list_of_set [1], FDelete 0, FForceGC] fs0 = (answers, fs) \<and>
     bs_free_blocks (bm_stats (fs_bm fs)) = count_vals is_free (bm_blocks (fs_bm fs))"
proof -
  let ?calls = "[FWrite sorted_list_of_set [1], FDelete 0, FForceGC]"
  obtain fs0 where fs0: "DirectFlashSimulator demo_flash = Inr fs0" using demo_flash_init by (elim exE)
  obtain answers fs where run: "flash_run ?calls fs0 = (answers, fs)" by (metis surj_pair)
  have "list_all call_ok ?calls" using write_call_ok by (simp add: call_ok_def)
  from flash_counters [OF fs0 demo_flash_blocks this run]
  have "bs_free_blocks (bm_stats (fs_bm fs)) = count_vals is_free (bm_blocks (fs_bm fs))"
    unfolding Let_def by (elim conjE)
  with fs0 run show ?thesis by (intro exI conjI)
qed

text \<open>
  The health figure is a percentage: after any history, \<^verbatim>\<open>get_health\<close> is between 0 and 100 when it
  does not raise, also with the rounding of its four floating-point operations.
\<close>

lemma flash_health_percentage:
  assumes "DirectFlashSimulator cfg = Inr fs0" and "0 \<le> cfg_total_flash_blocks cfg"
    and "list_all call_ok calls" and "flash_run calls fs0 = (answers, fs)"
    and h: "flash_get_health fs = Inr h"
  shows "0 \<le> h \<and> h \<le> 100"
proof -
  have inv: "fs_inv fs"
    using flash_run_refines[OF fs_inv_init(1)[OF assms(1,2)] assms(3,4)] by simp
  let ?mx = "bm_max_erase_count (fs_bm fs)"
  obtain r where r: "bm_get_stats (fs_bm fs) = Inr r"
    using h by (auto simp: flash_get_health_def split: sum.splits)
  define rem where "rem = max 0 (fsub (float_of ?mx) (br_avg_erase_count r))"
  have h': "h = fmul (fdiv rem (float_of ?mx)) 100"
    using h r inv by (simp add: flash_get_health_def fs_inv_def rem_def Let_def)
  have M: "0 \<le> float_of ?mx" using inv by (simp add: float_of_def fs_inv_def fl_nonneg)
  have avg: "0 \<le> br_avg_erase_count r" by (rule bm_get_stats_avg[OF r]) (use inv in \<open>auto simp: fs_inv_def bm_ok_def\<close>)
  have "fsub (float_of ?mx) (br_avg_erase_count r) \<le> float_of ?mx"
    using fl_mono[of "float_of ?mx - br_avg_erase_count r" "float_of ?mx"] avg
    by (simp add: fsub_def float_of_def fl_idem)
  then have rem: "0 \<le> rem" "rem \<le> float_of ?mx" using M by (simp_all add: rem_def)
  have d: "0 \<le> fdiv rem (float_of ?mx)" "fdiv rem (float_of ?mx) \<le> 1"
    using rem M by (simp_all add: fdiv_nonneg fdiv_le_1)
  then have "fl (fdiv rem (float_of ?mx) * 100) \<le> fl 100" by (intro fl_mono) simp
  then show ?thesis using h' d by (simp add: fmul_def fl_nonneg fl_numeral)
qed

end
