(* ===== verification/Volume_Manager.thy ===== *)
theory Volume_Manager
  imports Config
begin

text \<open>
  \<^verbatim>\<open>core/volume_manager.py\<close>: volumes and their block maps. Ids (\<^verbatim>\<open>uuid.uuid4()\<close>) and the clock are
  arguments. The manager hands out its \<^verbatim>\<open>Volume\<close> objects; what the callers assign to them is written
  back into the table where the model needs it. Block maps are values here and objects in Block_Objects.
\<close>

section \<open>State and operations\<close>

datatype volume_state = V_CREATING | V_AVAILABLE | V_IN_USE | V_DELETING | V_ERROR

record volume_block =
  vb_offset :: int
  vb_block_id :: string
  vb_fingerprint :: string
  vb_size :: int

type_synonym block_map = "(int, volume_block) dict"
type_synonym tags = "(string, string) dict"

record volume =
  v_id :: string
  v_name :: string
  v_size_bytes :: int
  v_created_at :: int
  v_updated_at :: int
  v_state :: volume_state
  v_description :: string
  v_blocks :: block_map
  v_used_bytes :: int
  v_logical_bytes :: int
  v_physical_bytes :: int
  v_tags :: tags

definition v_reduction_ratio :: "volume \<Rightarrow> double" where
  "v_reduction_ratio v =
     (if v_physical_bytes v = 0 then 1
      else fdiv (of_int (v_logical_bytes v)) (of_int (v_physical_bytes v)))"

record volume_stats =
  vs_total_volumes :: int
  vs_total_provisioned_bytes :: int
  vs_total_used_bytes :: int
  vs_total_logical_bytes :: int
  vs_total_physical_bytes :: int

record volume_manager =
  vm_block_size :: int
  vm_volumes :: "(string, volume) dict"
  vm_stats :: volume_stats

definition VolumeManager :: "int \<Rightarrow> volume_manager" where
  "VolumeManager block_size =
     \<lparr> vm_block_size = block_size, vm_volumes = [],
       vm_stats = \<lparr> vs_total_volumes = 0, vs_total_provisioned_bytes = 0, vs_total_used_bytes = 0,
                    vs_total_logical_bytes = 0, vs_total_physical_bytes = 0 \<rparr> \<rparr>"

definition put_volume :: "volume \<Rightarrow> volume_manager \<Rightarrow> volume_manager" where
  "put_volume v vm = vm\<lparr>vm_volumes := dict_set (v_id v) v (vm_volumes vm)\<rparr>"

definition vm_create_volume ::
    "string \<Rightarrow> int \<Rightarrow> string \<Rightarrow> int \<Rightarrow> string \<Rightarrow> tags option \<Rightarrow> volume_manager
     \<Rightarrow> volume \<times> volume_manager" where
  "vm_create_volume uuid now name size_bytes description tags vm =
     (let v = \<lparr> v_id = uuid, v_name = name, v_size_bytes = size_bytes, v_created_at = now,
                v_updated_at = now, v_state = V_AVAILABLE, v_description = description,
                v_blocks = [], v_used_bytes = 0, v_logical_bytes = 0, v_physical_bytes = 0,
                v_tags = (case tags of None \<Rightarrow> [] | Some t \<Rightarrow> t) \<rparr>;
          st = vm_stats vm
      in (v, (put_volume v vm)\<lparr>vm_stats := st\<lparr> vs_total_volumes := vs_total_volumes st + 1,
               vs_total_provisioned_bytes := vs_total_provisioned_bytes st + size_bytes \<rparr>\<rparr>))"

definition vm_get_volume :: "volume_manager \<Rightarrow> string \<Rightarrow> volume option" where
  "vm_get_volume vm vid = dict_get (vm_volumes vm) vid"

definition vm_get_volume_by_name :: "volume_manager \<Rightarrow> string \<Rightarrow> volume option" where
  "vm_get_volume_by_name vm name = List.find (\<lambda>v. v_name v = name) (dict_values (vm_volumes vm))"

definition vm_list_volumes :: "volume_manager \<Rightarrow> volume list" where
  "vm_list_volumes vm = dict_values (vm_volumes vm)"

definition vm_update_volume ::
    "int \<Rightarrow> string \<Rightarrow> string option \<Rightarrow> string option \<Rightarrow> tags option \<Rightarrow> volume_manager
     \<Rightarrow> volume option \<times> volume_manager" where
  "vm_update_volume now vid name description tags vm =
     (case dict_get (vm_volumes vm) vid of
        None \<Rightarrow> (None, vm)
      | Some v \<Rightarrow>
          let v = (case name of None \<Rightarrow> v | Some n \<Rightarrow> v\<lparr>v_name := n\<rparr>);
              v = (case description of None \<Rightarrow> v | Some d \<Rightarrow> v\<lparr>v_description := d\<rparr>);
              v = (case tags of None \<Rightarrow> v | Some t \<Rightarrow> v\<lparr>v_tags := t\<rparr>);
              v = v\<lparr>v_updated_at := now\<rparr>
          in (Some v, vm\<lparr>vm_volumes := dict_set vid v (vm_volumes vm)\<rparr>))"

definition vm_delete_volume :: "string \<Rightarrow> volume_manager \<Rightarrow> bool \<times> volume_manager" where
  "vm_delete_volume vid vm =
     (case dict_get (vm_volumes vm) vid of
        None \<Rightarrow> (False, vm)
      | Some v \<Rightarrow>
          let st = vm_stats vm
          in (True, vm\<lparr> vm_volumes := dict_del vid (vm_volumes vm),
               vm_stats := st\<lparr> vs_total_volumes := vs_total_volumes st - 1,
                 vs_total_provisioned_bytes := vs_total_provisioned_bytes st - v_size_bytes v,
                 vs_total_used_bytes := vs_total_used_bytes st - v_used_bytes v,
                 vs_total_logical_bytes := vs_total_logical_bytes st - v_logical_bytes v,
                 vs_total_physical_bytes := vs_total_physical_bytes st - v_physical_bytes v \<rparr> \<rparr>))"

definition vm_resize_volume ::
    "int \<Rightarrow> string \<Rightarrow> int \<Rightarrow> volume_manager \<Rightarrow> (volume_manager, volume option) outcome" where
  "vm_resize_volume now vid new_size_bytes vm =
     (case dict_get (vm_volumes vm) vid of
        None \<Rightarrow> (Inr None, vm)
      | Some v \<Rightarrow>
          if new_size_bytes < v_size_bytes v then (Inl (ValueError ''Cannot shrink volume''), vm)
          else let v' = v\<lparr>v_size_bytes := new_size_bytes, v_updated_at := now\<rparr>; st = vm_stats vm
               in (Inr (Some v'),
                   vm\<lparr> vm_volumes := dict_set vid v' (vm_volumes vm),
                       vm_stats := st\<lparr>vs_total_provisioned_bytes := vs_total_provisioned_bytes st
                                        + (new_size_bytes - v_size_bytes v)\<rparr> \<rparr>))"

definition vm_write_block ::
    "int \<Rightarrow> string \<Rightarrow> int \<Rightarrow> string \<Rightarrow> string \<Rightarrow> int \<Rightarrow> int \<Rightarrow> volume_manager
     \<Rightarrow> (volume_manager, bool) outcome" where
  "vm_write_block now vid off block_id fingerprint sz physical_size vm =
     (case dict_get (vm_volumes vm) vid of
        None \<Rightarrow> (Inr False, vm)
      | Some v \<Rightarrow>
          if v_size_bytes v < off + sz then (Inl (ValueError ''Write exceeds volume size''), vm)
          else
            let v = (case dict_get (v_blocks v) off of
                       None \<Rightarrow> v
                     | Some old \<Rightarrow> v\<lparr> v_logical_bytes := v_logical_bytes v - vb_size old,
                                      v_used_bytes := v_used_bytes v - vb_size old \<rparr>);
                v = v\<lparr> v_blocks := dict_set off \<lparr> vb_offset = off, vb_block_id = block_id,
                                     vb_fingerprint = fingerprint, vb_size = sz \<rparr> (v_blocks v),
                       v_used_bytes := v_used_bytes v + sz,
                       v_logical_bytes := v_logical_bytes v + sz,
                       v_physical_bytes := physical_size,
                       v_updated_at := now \<rparr>;
                st = vm_stats vm
            in (Inr True,
                vm\<lparr> vm_volumes := dict_set vid v (vm_volumes vm),
                    vm_stats := st\<lparr> vs_total_used_bytes := vs_total_used_bytes st + sz,
                      vs_total_logical_bytes := vs_total_logical_bytes st + sz \<rparr> \<rparr>))"

definition vm_get_block :: "volume_manager \<Rightarrow> string \<Rightarrow> int \<Rightarrow> volume_block option" where
  "vm_get_block vm vid off =
     (case dict_get (vm_volumes vm) vid of None \<Rightarrow> None | Some v \<Rightarrow> dict_get (v_blocks v) off)"

definition clone_description :: "string \<Rightarrow> string \<Rightarrow> string" where
  "clone_description description source_name =
     (if description = [] then ''Clone of '' @ source_name else description)"

text \<open>\<^verbatim>\<open>dict(source.blocks)\<close> and the loop that fills the clone's map keep the items and their order.\<close>

definition vm_clone_volume ::
    "string \<Rightarrow> int \<Rightarrow> string \<Rightarrow> string \<Rightarrow> string \<Rightarrow> volume_manager \<Rightarrow> volume option \<times> volume_manager" where
  "vm_clone_volume uuid now source_id new_name description vm =
     (case dict_get (vm_volumes vm) source_id of
        None \<Rightarrow> (None, vm)
      | Some source \<Rightarrow>
          (case vm_create_volume uuid now new_name (v_size_bytes source)
                  (clone_description description (v_name source))
                  (Some (v_tags source)) vm of
             (v, vm) \<Rightarrow>
               let clone = v\<lparr> v_blocks := fold (\<lambda>(off, b). dict_set off b) (v_blocks source) (v_blocks v),
                              v_used_bytes := v_used_bytes source,
                              v_logical_bytes := v_logical_bytes source, v_physical_bytes := 0 \<rparr>
               in (Some clone, put_volume clone vm)))"

definition vm_get_stats :: "volume_manager \<Rightarrow> volume_stats" where
  "vm_get_stats vm = vm_stats vm"

section \<open>Accounting\<close>

text \<open>
  A volume is well-formed when its block map is a map from offsets to the blocks at them, each block
  ends inside the volume, and the byte counts are the sizes of the blocks.
\<close>

definition volume_ok :: "volume \<Rightarrow> bool" where
  "volume_ok v \<longleftrightarrow> wf_dict (v_blocks v) \<and>
     (\<forall>off b. dict_get (v_blocks v) off = Some b \<longrightarrow> vb_offset b = off \<and> off + vb_size b \<le> v_size_bytes v) \<and>
     v_used_bytes v = sum_vals vb_size (v_blocks v) \<and> v_logical_bytes v = v_used_bytes v"

definition vm_inv :: "volume_manager \<Rightarrow> bool" where
  "vm_inv vm \<longleftrightarrow> wf_dict (vm_volumes vm) \<and>
     (\<forall>vid v. dict_get (vm_volumes vm) vid = Some v \<longrightarrow> v_id v = vid \<and> volume_ok v) \<and>
     vs_total_volumes (vm_stats vm) = int (length (vm_volumes vm)) \<and>
     vs_total_provisioned_bytes (vm_stats vm) = sum_vals v_size_bytes (vm_volumes vm)"

lemma dict_rebuild:
  "fold (\<lambda>(k, v). dict_set k v) d acc = foldl (\<lambda>acc p. dict_set (fst p) (snd p) acc) acc d"
  by (induction d arbitrary: acc) (auto simp: case_prod_beta)

lemma dict_set_append: "k \<notin> set (dict_keys d) \<Longrightarrow> dict_set k v d = d @ [(k, v)]"
  by (induction d) auto

lemma dict_copy: "wf_dict (acc @ d) \<Longrightarrow> fold (\<lambda>(k, v). dict_set k v) d acc = acc @ d"
proof (induction d arbitrary: acc)
  case (Cons p d)
  then have "fst p \<notin> set (dict_keys acc)" by (auto simp: wf_dict_def)
  then show ?case using Cons by (cases p) (simp add: dict_set_append)
qed simp

lemma sum_vals_one: "sum_vals (\<lambda>_. 1) d = int (length d)"
  by (induction d) auto

lemma length_dict_del: "wf_dict d \<Longrightarrow> dict_get d k = Some v \<Longrightarrow> int (length (dict_del k d)) = int (length d) - 1"
  using sum_vals_del[of d "\<lambda>_. 1" k] by (simp add: sum_vals_one)

lemma length_dict_set': "length (dict_set k v d) = (if dict_get d k = None then Suc (length d) else length d)"
  by (induction d) (auto split: if_splits)

lemma vm_inv_put:
  assumes "vm_inv vm" and "dict_get (vm_volumes vm) (v_id v) = Some old" and "volume_ok v"
    and "vm_volumes vm' = dict_set (v_id v) v (vm_volumes vm)"
    and "vs_total_volumes (vm_stats vm') = vs_total_volumes (vm_stats vm)"
    and "vs_total_provisioned_bytes (vm_stats vm')
         = vs_total_provisioned_bytes (vm_stats vm) + (v_size_bytes v - v_size_bytes old)"
  shows "vm_inv vm'"
  using assms by (auto simp: vm_inv_def sum_vals_set length_dict_set')

lemma vm_inv_init: "vm_inv (VolumeManager bs)"
  by (simp add: vm_inv_def VolumeManager_def)

lemma vm_inv_create:
  assumes "vm_inv vm" and "dict_get (vm_volumes vm) uuid = None"
    and "vm_create_volume uuid now name sz description tags vm = (v, vm')"
  shows "vm_inv vm'"
  using assms
  by (auto simp: vm_create_volume_def put_volume_def vm_inv_def Let_def sum_vals_set length_dict_set'
      volume_ok_def split: if_splits)

lemma vm_inv_update:
  assumes "vm_inv vm" and "vm_update_volume now vid name description tags vm = (r, vm')"
  shows "vm_inv vm'"
proof (cases "dict_get (vm_volumes vm) vid")
  case None
  then show ?thesis using assms by (simp add: vm_update_volume_def)
next
  case (Some v)
  define v' where "v' = the r"
  have r: "v_id v' = v_id v" "v_blocks v' = v_blocks v" "v_size_bytes v' = v_size_bytes v"
    "v_used_bytes v' = v_used_bytes v" "v_logical_bytes v' = v_logical_bytes v"
    "vm_volumes vm' = dict_set vid v' (vm_volumes vm)" "vm_stats vm' = vm_stats vm"
    using assms(2) Some by (auto simp: vm_update_volume_def v'_def Let_def split: option.splits)
  have "v_id v = vid" "volume_ok v" using assms(1) Some by (auto simp: vm_inv_def)
  then show ?thesis
    using vm_inv_put[OF assms(1), of v' v vm'] Some r by (simp add: volume_ok_def)
qed

lemma vm_inv_delete:
  assumes "vm_inv vm" and "vm_delete_volume vid vm = (ok, vm')"
  shows "vm_inv vm'"
  using assms
  by (auto simp: vm_delete_volume_def vm_inv_def Let_def sum_vals_del length_dict_del
      split: option.splits if_splits)

lemma vm_inv_resize:
  assumes "vm_inv vm" and "vm_resize_volume now vid new_size vm = (r, vm')"
  shows "vm_inv vm'"
proof (cases "dict_get (vm_volumes vm) vid")
  case None
  then show ?thesis using assms by (simp add: vm_resize_volume_def)
next
  case (Some v)
  have "v_id v = vid" "volume_ok v" using assms(1) Some by (auto simp: vm_inv_def)
  then show ?thesis
    using vm_inv_put[OF assms(1), of "v\<lparr>v_size_bytes := new_size, v_updated_at := now\<rparr>" v vm'] Some assms
    by (fastforce simp: vm_resize_volume_def Let_def volume_ok_def split: if_splits)
qed

lemma volume_ok_write:
  assumes "volume_ok v" and "off + sz \<le> v_size_bytes v"
    and "old = (case dict_get (v_blocks v) off of None \<Rightarrow> 0 | Some b \<Rightarrow> vb_size b)"
    and "v_blocks v' = dict_set off \<lparr>vb_offset = off, vb_block_id = bid, vb_fingerprint = fp, vb_size = sz\<rparr>
      (v_blocks v)"
    and "v_used_bytes v' = v_used_bytes v - old + sz" "v_logical_bytes v' = v_logical_bytes v - old + sz"
    and "v_size_bytes v' = v_size_bytes v"
  shows "volume_ok v'"
  using assms by (auto simp: volume_ok_def sum_vals_set split: option.splits)

lemma vm_inv_write:
  assumes "vm_inv vm" and "vm_write_block now vid off bid fp sz ps vm = (r, vm')"
  shows "vm_inv vm'"
proof (cases "dict_get (vm_volumes vm) vid")
  case None
  then show ?thesis using assms by (simp add: vm_write_block_def)
next
  case (Some v)
  have v: "v_id v = vid" "volume_ok v" using assms(1) Some by (auto simp: vm_inv_def)
  show ?thesis
  proof (cases "v_size_bytes v < off + sz")
    case True
    then show ?thesis using assms Some by (simp add: vm_write_block_def)
  next
    case False
    let ?old = "case dict_get (v_blocks v) off of None \<Rightarrow> 0 | Some b \<Rightarrow> vb_size b"
    define v' where "v' = the (dict_get (vm_volumes vm') vid)"
    have f: "vm_volumes vm' = dict_set vid v' (vm_volumes vm)" "v_id v' = v_id v"
      "v_blocks v' = dict_set off \<lparr>vb_offset = off, vb_block_id = bid, vb_fingerprint = fp, vb_size = sz\<rparr>
         (v_blocks v)"
      "v_used_bytes v' = v_used_bytes v - ?old + sz" "v_logical_bytes v' = v_logical_bytes v - ?old + sz"
      "v_size_bytes v' = v_size_bytes v" "vs_total_volumes (vm_stats vm') = vs_total_volumes (vm_stats vm)"
      "vs_total_provisioned_bytes (vm_stats vm') = vs_total_provisioned_bytes (vm_stats vm)"
      using assms(2) Some False
      by (auto simp: vm_write_block_def Let_def v'_def split: option.splits)
    have "volume_ok v'" by (rule volume_ok_write[OF v(2) _ refl f(3-6)]) (use False in simp)
    then show ?thesis using vm_inv_put[OF assms(1), of v' v vm'] Some f v(1) by simp
  qed
qed

lemma vm_inv_clone:
  assumes inv: "vm_inv vm" and fresh: "dict_get (vm_volumes vm) uuid = None"
    and run: "vm_clone_volume uuid now src name description vm = (r, vm')"
  shows "vm_inv vm'"
proof (cases "dict_get (vm_volumes vm) src")
  case None
  then show ?thesis using inv run by (simp add: vm_clone_volume_def)
next
  case (Some v)
  have v: "volume_ok v" using inv Some by (auto simp: vm_inv_def)
  let ?descr = "clone_description description (v_name v)"
  obtain c vm1 where c: "vm_create_volume uuid now name (v_size_bytes v) ?descr (Some (v_tags v)) vm = (c, vm1)"
    by (cases "vm_create_volume uuid now name (v_size_bytes v) ?descr (Some (v_tags v)) vm")
  have c1: "v_id c = uuid" "v_blocks c = []" "v_size_bytes c = v_size_bytes v"
    "dict_get (vm_volumes vm1) uuid = Some c"
    using c by (auto simp: vm_create_volume_def put_volume_def Let_def)
  define c' where "c' = c\<lparr>v_blocks := v_blocks v, v_used_bytes := v_used_bytes v,
    v_logical_bytes := v_logical_bytes v, v_physical_bytes := 0\<rparr>"
  have copy: "fold (\<lambda>(off, b). dict_set off b) (v_blocks v) [] = v_blocks v"
    using dict_copy[of "[]" "v_blocks v"] v by (simp add: volume_ok_def)
  have vm': "vm' = put_volume c' vm1"
    using run Some c c1(2) copy by (auto simp: vm_clone_volume_def Let_def c'_def)
  have "volume_ok c'" using v c1 by (simp add: volume_ok_def c'_def)
  then show ?thesis
    using vm_inv_put[OF vm_inv_create[OF inv fresh c], of c' c vm'] c1 vm'
    by (simp add: put_volume_def c'_def)
qed

section \<open>Reachable managers\<close>

inductive vm_step :: "volume_manager \<Rightarrow> volume_manager \<Rightarrow> bool" where
  create: "dict_get (vm_volumes vm) uuid = None \<Longrightarrow>
    vm_create_volume uuid now name sz description tags vm = (v, vm') \<Longrightarrow> vm_step vm vm'"
| update: "vm_update_volume now vid name description' tags vm = (r, vm') \<Longrightarrow> vm_step vm vm'"
| delete: "vm_delete_volume vid vm = (ok, vm') \<Longrightarrow> vm_step vm vm'"
| resize: "vm_resize_volume now vid new_size vm = (res, vm') \<Longrightarrow> vm_step vm vm'"
| write_block: "vm_write_block now vid off bid fp sz ps vm = (out, vm') \<Longrightarrow> vm_step vm vm'"
| clone: "dict_get (vm_volumes vm) uuid = None \<Longrightarrow>
    vm_clone_volume uuid now src name description vm = (c, vm') \<Longrightarrow> vm_step vm vm'"

interpretation volumes: invariant_machine "\<lambda>vm. \<exists>bs. vm = VolumeManager bs" vm_step vm_inv
proof
  show "vm_inv s" if "\<exists>bs. s = VolumeManager bs" for s using that vm_inv_init by blast
  show "vm_inv t" if "vm_inv s" "vm_step s t" for s t
    using that(2,1)
    by cases (blast intro: vm_inv_create vm_inv_update vm_inv_delete vm_inv_resize vm_inv_write vm_inv_clone)+
qed

section \<open>Histories and the byte totals\<close>

text \<open>The calls of a client, each with the id and the clock the manager takes from its environment.\<close>

datatype vm_call =
    VCreate string int string int string "tags option"
  | VUpdate int string "string option" "string option" "tags option"
  | VDelete string
  | VResize int string int
  | VWrite int string int string string int int
  | VClone string int string string string

fun vm_do :: "vm_call \<Rightarrow> volume_manager \<Rightarrow> volume_manager" where
  "vm_do (VCreate uuid now name sz description tags) vm = snd (vm_create_volume uuid now name sz description tags vm)"
| "vm_do (VUpdate now vid name description tags) vm = snd (vm_update_volume now vid name description tags vm)"
| "vm_do (VDelete vid) vm = snd (vm_delete_volume vid vm)"
| "vm_do (VResize now vid new_size) vm = snd (vm_resize_volume now vid new_size vm)"
| "vm_do (VWrite now vid off bid fp sz ps) vm = snd (vm_write_block now vid off bid fp sz ps vm)"
| "vm_do (VClone uuid now src name description) vm = snd (vm_clone_volume uuid now src name description vm)"

fun vm_ids :: "vm_call \<Rightarrow> string list" where
  "vm_ids (VCreate uuid now name sz description tags) = [uuid]"
| "vm_ids (VClone uuid now src name description) = [uuid]"
| "vm_ids _ = []"

text \<open>
  What a call adds to the difference between the totals and the volumes: the bytes of a block that is
  overwritten, minus the bytes of a volume that is cloned. What a deletion takes off \<^verbatim>\<open>total_physical_bytes\<close>.
\<close>

fun call_drift :: "vm_call \<Rightarrow> volume_manager \<Rightarrow> int" where
  "call_drift (VWrite now vid off bid fp sz ps) vm =
     (if fst (vm_write_block now vid off bid fp sz ps vm) = Inr True
      then (case vm_get_block vm vid off of None \<Rightarrow> 0 | Some old \<Rightarrow> vb_size old) else 0)"
| "call_drift (VClone uuid now src name description) vm =
     (case vm_get_volume vm src of None \<Rightarrow> 0 | Some v \<Rightarrow> - v_used_bytes v)"
| "call_drift _ vm = 0"

fun deleted_physical :: "vm_call \<Rightarrow> volume_manager \<Rightarrow> int" where
  "deleted_physical (VDelete vid) vm = (case vm_get_volume vm vid of None \<Rightarrow> 0 | Some v \<Rightarrow> v_physical_bytes v)"
| "deleted_physical _ vm = 0"

fun history_sum :: "(vm_call \<Rightarrow> volume_manager \<Rightarrow> int) \<Rightarrow> vm_call list \<Rightarrow> volume_manager \<Rightarrow> int" where
  "history_sum f [] vm = 0"
| "history_sum f (c # cs) vm = f c vm + history_sum f cs (vm_do c vm)"

lemma vm_do_step:
  assumes "\<And>x. x \<in> set (vm_ids c) \<Longrightarrow> dict_get (vm_volumes vm) x = None"
  shows "vm_step vm (vm_do c vm)"
  using assms by (cases c) (auto intro: vm_step.intros prod.collapse [symmetric])

lemma vm_do_keys: "dom (dict_get (vm_volumes (vm_do c vm))) \<subseteq> dom (dict_get (vm_volumes vm)) \<union> set (vm_ids c)"
  by (cases c) (auto simp: vm_create_volume_def vm_update_volume_def vm_delete_volume_def vm_resize_volume_def
      vm_write_block_def vm_clone_volume_def put_volume_def Let_def split: option.splits if_splits)

abbreviation used_drift :: "volume_manager \<Rightarrow> int" where
  "used_drift vm \<equiv> vs_total_used_bytes (vm_stats vm) - sum_vals v_used_bytes (vm_volumes vm)"

lemma vm_do_totals:
  assumes inv: "vm_inv vm" and fresh: "\<And>x. x \<in> set (vm_ids c) \<Longrightarrow> dict_get (vm_volumes vm) x = None"
  shows "used_drift (vm_do c vm) = used_drift vm + call_drift c vm"
    and "vs_total_logical_bytes (vm_stats (vm_do c vm)) - vs_total_used_bytes (vm_stats (vm_do c vm))
         = vs_total_logical_bytes (vm_stats vm) - vs_total_used_bytes (vm_stats vm)"
    and "vs_total_physical_bytes (vm_stats (vm_do c vm))
         = vs_total_physical_bytes (vm_stats vm) - deleted_physical c vm"
proof -
  have wf: "wf_dict (vm_volumes vm)" and v: "\<And>vid v. dict_get (vm_volumes vm) vid = Some v \<Longrightarrow>
      v_id v = vid \<and> v_logical_bytes v = v_used_bytes v"
    using inv by (auto simp: vm_inv_def volume_ok_def)
  note defs = vm_create_volume_def vm_update_volume_def vm_delete_volume_def vm_resize_volume_def
    vm_write_block_def vm_clone_volume_def put_volume_def vm_get_volume_def vm_get_block_def Let_def
  show "used_drift (vm_do c vm) = used_drift vm + call_drift c vm"
    using fresh v by (cases c) (simp_all add: defs sum_vals_set sum_vals_del[OF wf] split: option.split)
  show "vs_total_logical_bytes (vm_stats (vm_do c vm)) - vs_total_used_bytes (vm_stats (vm_do c vm))
      = vs_total_logical_bytes (vm_stats vm) - vs_total_used_bytes (vm_stats vm)"
    using v by (cases c) (simp_all add: defs split: option.split)
  show "vs_total_physical_bytes (vm_stats (vm_do c vm)) = vs_total_physical_bytes (vm_stats vm) - deleted_physical c vm"
    by (cases c) (simp_all add: defs split: option.split)
qed

lemma history_totals:
  assumes "vm_inv vm" and "distinct (concat (map vm_ids calls))"
    and "set (concat (map vm_ids calls)) \<inter> dom (dict_get (vm_volumes vm)) = {}"
  shows "used_drift (fold vm_do calls vm) = used_drift vm + history_sum call_drift calls vm \<and>
    vs_total_logical_bytes (vm_stats (fold vm_do calls vm)) - vs_total_used_bytes (vm_stats (fold vm_do calls vm))
    = vs_total_logical_bytes (vm_stats vm) - vs_total_used_bytes (vm_stats vm) \<and>
    vs_total_physical_bytes (vm_stats (fold vm_do calls vm))
    = vs_total_physical_bytes (vm_stats vm) - history_sum deleted_physical calls vm \<and>
    vm_inv (fold vm_do calls vm)"
  using assms
proof (induction calls arbitrary: vm)
  case (Cons c cs)
  have fresh: "dict_get (vm_volumes vm) x = None" if "x \<in> set (vm_ids c)" for x
    using Cons.prems(3) that by auto
  have inv: "vm_inv (vm_do c vm)" by (rule volumes.step_inv[OF Cons.prems(1) vm_do_step[OF fresh]])
  have "set (concat (map vm_ids cs)) \<inter> dom (dict_get (vm_volumes (vm_do c vm))) = {}"
    by (rule subset_empty[THEN iffD1], rule order_trans[OF Int_mono[OF order_refl vm_do_keys]])
      (use Cons.prems(2,3) in auto)
  from Cons.IH[OF inv _ this] Cons.prems(2) vm_do_totals[OF Cons.prems(1) fresh] show ?case by simp
qed simp

section \<open>Properties\<close>

text \<open>
  C16. Volume accounting. In every state the manager can reach by its own operations (create, update, delete, resize,
  write_block, clone), \<^verbatim>\<open>total_volumes\<close> and \<^verbatim>\<open>total_provisioned_bytes\<close> of the statistics are those of its table, every volume
  is filed under its id, and in every volume the block map files each block under its offset, no block ends
  beyond the provisioned size, and \<^verbatim>\<open>used_bytes\<close> and \<^verbatim>\<open>logical_bytes\<close> are the total size of its blocks. The
  other totals are not part of it, nor is the assignment of a snapshot's blocks to a volume by the
  controller, which leaves \<^verbatim>\<open>logical_bytes\<close> as it was.
\<close>

theorem volume_accounting:
  assumes "reach (\<lambda>vm. \<exists>bs. vm = VolumeManager bs) vm_step vm"
  shows "vs_total_volumes (vm_stats vm) = int (length (vm_volumes vm)) \<and>
    vs_total_provisioned_bytes (vm_stats vm) = sum_vals v_size_bytes (vm_volumes vm) \<and>
    (\<forall>vid v. dict_get (vm_volumes vm) vid = Some v \<longrightarrow>
       v_id v = vid \<and> v_used_bytes v = sum_vals vb_size (v_blocks v) \<and>
       v_logical_bytes v = v_used_bytes v \<and>
       (\<forall>off b. dict_get (v_blocks v) off = Some b \<longrightarrow>
          vb_offset b = off \<and> off + vb_size b \<le> v_size_bytes v))"
  using volumes.reach_inv[OF assms] by (auto simp: vm_inv_def volume_ok_def)

definition vm_demo :: "volume_manager" where
  "vm_demo = snd (vm_write_block 2 ''v1'' 0 ''b1'' ''f1'' 8 8
     (snd (vm_create_volume ''v1'' 1 ''vol'' 100 [] None (VolumeManager 4096))))"

lemma vm_demo_reach: "reach (\<lambda>vm. \<exists>bs. vm = VolumeManager bs) vm_step vm_demo"
proof -
  have "reach (\<lambda>vm. \<exists>bs. vm = VolumeManager bs) vm_step (VolumeManager 4096)" by (rule reach_init) blast
  moreover have "vm_step (VolumeManager 4096)
      (snd (vm_create_volume ''v1'' 1 ''vol'' 100 [] None (VolumeManager 4096)))"
    by (rule create[of _ "''v1''" 1 "''vol''" 100 "[]" None, OF _ prod.collapse [symmetric]])
      (simp add: VolumeManager_def)
  ultimately have "reach (\<lambda>vm. \<exists>bs. vm = VolumeManager bs) vm_step
      (snd (vm_create_volume ''v1'' 1 ''vol'' 100 [] None (VolumeManager 4096)))"
    by (rule reach_step)
  then show ?thesis
    unfolding vm_demo_def by (rule reach_step) (rule write_block[OF prod.collapse [symmetric]])
qed

theorem volume_accounting_witness:
  "vs_total_volumes (vm_stats vm_demo) = int (length (vm_volumes vm_demo)) \<and> length (vm_volumes vm_demo) = 1"
proof -
  have "length (vm_volumes vm_demo) = 1" by code_simp
  then show ?thesis using volume_accounting [OF vm_demo_reach] by (elim conjE) (intro conjI)
qed

text \<open>
  C40. How the byte totals of the statistics drift away from the volumes, exactly, over any history of calls on a new manager whose
  ids are not reused. \<^verbatim>\<open>total_used_bytes\<close> and \<^verbatim>\<open>total_logical_bytes\<close> are the bytes used by the volumes there are, plus the
  bytes of every block that was overwritten, minus the bytes of every volume at the time it was cloned:
  \<^verbatim>\<open>write_block\<close> does not take off the old block, and a clone's bytes are never added but are taken off when it is
  deleted. \<^verbatim>\<open>total_physical_bytes\<close> counts no write at all: it is minus the physical bytes of the volumes that were deleted.
\<close>

theorem volume_totals_drift:
  assumes "distinct (concat (map vm_ids calls))" and "vm = fold vm_do calls (VolumeManager bs)"
  shows "vs_total_used_bytes (vm_get_stats vm)
      = sum_vals v_used_bytes (vm_volumes vm) + history_sum call_drift calls (VolumeManager bs) \<and>
    vs_total_logical_bytes (vm_get_stats vm) = vs_total_used_bytes (vm_get_stats vm) \<and>
    vs_total_physical_bytes (vm_get_stats vm) = - history_sum deleted_physical calls (VolumeManager bs)"
proof -
  have "set (concat (map vm_ids calls)) \<inter> dom (dict_get (vm_volumes (VolumeManager bs))) = {}"
    "used_drift (VolumeManager bs) = 0" "vs_total_logical_bytes (vm_stats (VolumeManager bs)) = 0"
    "vs_total_used_bytes (vm_stats (VolumeManager bs)) = 0" "vs_total_physical_bytes (vm_stats (VolumeManager bs)) = 0"
    by (simp_all add: VolumeManager_def)
  from history_totals[OF vm_inv_init assms(1) this(1)] this(2-) show ?thesis
    unfolding assms(2) vm_get_stats_def by linarith
qed

text \<open>A block written twice, and a volume cloned and deleted with its clone.\<close>

theorem volume_totals_drift_witness:
  "vs_total_used_bytes (vm_get_stats (fold vm_do [VCreate ''v1'' 1 ''vol'' 100 [] None, VWrite 2 ''v1'' 0 ''b1'' ''f1'' 8 8,
     VWrite 3 ''v1'' 0 ''b2'' ''f2'' 8 8] (VolumeManager 4096))) = 8 + 8 \<and>
   vs_total_used_bytes (vm_get_stats (fold vm_do [VCreate ''v1'' 1 ''vol'' 100 [] None, VWrite 2 ''v1'' 0 ''b1'' ''f1'' 8 8,
     VClone ''v2'' 3 ''v1'' ''copy'' [], VDelete ''v1'', VDelete ''v2''] (VolumeManager 4096))) = - 8"
proof
  let ?c1 = "[VCreate ''v1'' 1 ''vol'' 100 [] None, VWrite 2 ''v1'' 0 ''b1'' ''f1'' 8 8, VWrite 3 ''v1'' 0 ''b2'' ''f2'' 8 8]"
  let ?c2 = "[VCreate ''v1'' 1 ''vol'' 100 [] None, VWrite 2 ''v1'' 0 ''b1'' ''f1'' 8 8,
    VClone ''v2'' 3 ''v1'' ''copy'' [], VDelete ''v1'', VDelete ''v2'']"
  have "history_sum call_drift ?c1 (VolumeManager 4096) = 8"
    "sum_vals v_used_bytes (vm_volumes (fold vm_do ?c1 (VolumeManager 4096))) = 8" by code_simp+
  moreover have "distinct (concat (map vm_ids ?c1))" by simp
  ultimately show "vs_total_used_bytes (vm_get_stats (fold vm_do ?c1 (VolumeManager 4096))) = 8 + 8"
    using volume_totals_drift [of ?c1, OF _ refl, of 4096] by linarith
  have "history_sum call_drift ?c2 (VolumeManager 4096) = - 8"
    "sum_vals v_used_bytes (vm_volumes (fold vm_do ?c2 (VolumeManager 4096))) = 0" by code_simp+
  moreover have "distinct (concat (map vm_ids ?c2))" by simp
  ultimately show "vs_total_used_bytes (vm_get_stats (fold vm_do ?c2 (VolumeManager 4096))) = - 8"
    using volume_totals_drift [of ?c2, OF _ refl, of 4096] by linarith
qed

end
