(* ===== verification/Snapshot_Manager.thy ===== *)
theory Snapshot_Manager
  imports Volume_Manager
begin

text \<open>
  \<^verbatim>\<open>core/snapshot_manager.py\<close>: point-in-time copies of block maps, indexed by volume. The id, the clock
  and the formatting of the clock (\<^verbatim>\<open>strftime\<close>) are arguments. A block map is a value
  here; the theory Block_Objects has the dicts and block objects themselves and shows that this is the same.
\<close>

section \<open>State and operations\<close>

datatype snapshot_state = S_CREATING | S_AVAILABLE | S_DELETING | S_ERROR

record snapshot =
  sn_id :: string
  sn_name :: string
  sn_volume_id :: string
  sn_volume_name :: string
  sn_created_at :: int
  sn_state :: snapshot_state
  sn_description :: string
  sn_blocks :: block_map
  sn_size_bytes :: int
  sn_used_bytes :: int
  sn_tags :: tags

record snapshot_stats =
  ss_total_snapshots :: int
  ss_snapshots_by_volume :: "(string, int) dict"

record snapshot_manager =
  sm_snapshots :: "(string, snapshot) dict"
  sm_volume_snapshots :: "(string, string list) dict"
  sm_stats :: snapshot_stats

definition SnapshotManager :: snapshot_manager where
  "SnapshotManager = \<lparr> sm_snapshots = [], sm_volume_snapshots = [],
     sm_stats = \<lparr> ss_total_snapshots = 0, ss_snapshots_by_volume = [] \<rparr> \<rparr>"

definition snapshot_name :: "(int \<Rightarrow> string) \<Rightarrow> string option \<Rightarrow> string \<Rightarrow> int \<Rightarrow> string" where
  "snapshot_name strftime name volume_name now =
     (if name = None \<or> name = Some [] then volume_name @ ''-snap-'' @ strftime now else the name)"

definition sm_create_snapshot ::
    "(int \<Rightarrow> string) \<Rightarrow> string \<Rightarrow> int \<Rightarrow> volume \<Rightarrow> string option \<Rightarrow> string \<Rightarrow> tags option \<Rightarrow> snapshot_manager
     \<Rightarrow> snapshot \<times> snapshot_manager" where
  "sm_create_snapshot strftime uuid now v name description tags sm =
     (let s = \<lparr> sn_id = uuid, sn_name = snapshot_name strftime name (v_name v) now,
                sn_volume_id = v_id v, sn_volume_name = v_name v, sn_created_at = now,
                sn_state = S_AVAILABLE, sn_description = description,
                sn_blocks = fold (\<lambda>(off, b). dict_set off b) (v_blocks v) [],
                sn_size_bytes = v_size_bytes v, sn_used_bytes = v_used_bytes v,
                sn_tags = (case tags of None \<Rightarrow> [] | Some t \<Rightarrow> t) \<rparr>;
          ids = (case dict_get (sm_volume_snapshots sm) (v_id v) of None \<Rightarrow> [] | Some ids \<Rightarrow> ids) @ [uuid];
          st = sm_stats sm
      in (s, \<lparr> sm_snapshots = dict_set uuid s (sm_snapshots sm),
               sm_volume_snapshots = dict_set (v_id v) ids (sm_volume_snapshots sm),
               sm_stats = \<lparr> ss_total_snapshots = ss_total_snapshots st + 1,
                            ss_snapshots_by_volume =
                              dict_set (v_id v) (int (length ids)) (ss_snapshots_by_volume st) \<rparr> \<rparr>))"

definition sm_get_snapshot :: "snapshot_manager \<Rightarrow> string \<Rightarrow> snapshot option" where
  "sm_get_snapshot sm sid = dict_get (sm_snapshots sm) sid"

definition sm_get_snapshot_by_name :: "snapshot_manager \<Rightarrow> string \<Rightarrow> string \<Rightarrow> snapshot option" where
  "sm_get_snapshot_by_name sm vid name =
     (let ids = (case dict_get (sm_volume_snapshots sm) vid of None \<Rightarrow> [] | Some ids \<Rightarrow> ids)
      in List.find (\<lambda>s. sn_name s = name) (List.map_filter (dict_get (sm_snapshots sm)) ids))"

definition sm_list_snapshots :: "snapshot_manager \<Rightarrow> string option \<Rightarrow> snapshot list" where
  "sm_list_snapshots sm vid =
     (if vid = None \<or> vid = Some [] then dict_values (sm_snapshots sm)
      else List.map_filter (dict_get (sm_snapshots sm))
             (case dict_get (sm_volume_snapshots sm) (the vid) of None \<Rightarrow> [] | Some ids \<Rightarrow> ids))"

text \<open>\<^verbatim>\<open>list.remove\<close> raises when the id is not in the list.\<close>

definition sm_delete_snapshot :: "string \<Rightarrow> snapshot_manager \<Rightarrow> (snapshot_manager, bool) outcome" where
  "sm_delete_snapshot sid sm =
     (case dict_get (sm_snapshots sm) sid of
        None \<Rightarrow> (Inr False, sm)
      | Some s \<Rightarrow>
          let sm = sm\<lparr>sm_snapshots := dict_set sid (s\<lparr>sn_state := S_DELETING\<rparr>) (sm_snapshots sm)\<rparr>;
              st = sm_stats sm;
              total = ss_total_snapshots st - 1
          in case dict_get (sm_volume_snapshots sm) (sn_volume_id s) of
               None \<Rightarrow> (Inr True, sm\<lparr> sm_snapshots := dict_del sid (sm_snapshots sm),
                                      sm_stats := st\<lparr>ss_total_snapshots := total\<rparr> \<rparr>)
             | Some ids \<Rightarrow>
                 if sid \<notin> set ids then (Inl (ValueError ''list.remove(x): x not in list''), sm)
                 else let ids = remove1 sid ids
                      in (Inr True,
                          sm\<lparr> sm_snapshots := dict_del sid (sm_snapshots sm),
                              sm_volume_snapshots :=
                                dict_set (sn_volume_id s) ids (sm_volume_snapshots sm),
                              sm_stats := \<lparr> ss_total_snapshots = total,
                                ss_snapshots_by_volume = dict_set (sn_volume_id s) (int (length ids))
                                  (ss_snapshots_by_volume st) \<rparr> \<rparr>))"

definition sm_get_volume_snapshots :: "snapshot_manager \<Rightarrow> string \<Rightarrow> snapshot list" where
  "sm_get_volume_snapshots sm vid = sort_key sn_created_at (sm_list_snapshots sm (Some vid))"

definition sm_get_latest_snapshot :: "snapshot_manager \<Rightarrow> string \<Rightarrow> snapshot option" where
  "sm_get_latest_snapshot sm vid =
     (let snapshots = sm_get_volume_snapshots sm vid
      in if snapshots = [] then None else Some (last snapshots))"

definition sm_get_snapshot_blocks :: "snapshot_manager \<Rightarrow> string \<Rightarrow> block_map option" where
  "sm_get_snapshot_blocks sm sid =
     (case dict_get (sm_snapshots sm) sid of None \<Rightarrow> None | Some s \<Rightarrow> Some (sn_blocks s))"

definition sm_get_stats :: "snapshot_manager \<Rightarrow> snapshot_stats" where
  "sm_get_stats sm = sm_stats sm"

section \<open>The index\<close>

definition sm_inv :: "snapshot_manager \<Rightarrow> bool" where
  "sm_inv sm \<longleftrightarrow>
     wf_dict (sm_snapshots sm) \<and>
     (\<forall>sid s. dict_get (sm_snapshots sm) sid = Some s \<longrightarrow>
        sn_id s = sid \<and> dict_get (sm_volume_snapshots sm) (sn_volume_id s) \<noteq> None) \<and>
     (\<forall>vid ids. dict_get (sm_volume_snapshots sm) vid = Some ids \<longrightarrow>
        distinct ids \<and>
        set ids = {sid. \<exists>s. dict_get (sm_snapshots sm) sid = Some s \<and> sn_volume_id s = vid}) \<and>
     ss_total_snapshots (sm_stats sm) = int (length (sm_snapshots sm)) \<and>
     (\<forall>vid. dict_get (ss_snapshots_by_volume (sm_stats sm)) vid
            = map_option (int \<circ> length) (dict_get (sm_volume_snapshots sm) vid))"

lemma sm_invD:
  assumes "sm_inv sm"
  shows "wf_dict (sm_snapshots sm)"
    and "dict_get (sm_snapshots sm) sid = Some s \<Longrightarrow>
         sn_id s = sid \<and> (\<exists>ids. dict_get (sm_volume_snapshots sm) (sn_volume_id s) = Some ids \<and> sid \<in> set ids)"
    and "dict_get (sm_volume_snapshots sm) vid = Some ids \<Longrightarrow> distinct ids"
    and "dict_get (sm_volume_snapshots sm) vid = Some ids \<Longrightarrow>
         x \<in> set ids \<longleftrightarrow> (\<exists>s. dict_get (sm_snapshots sm) x = Some s \<and> sn_volume_id s = vid)"
proof -
  note inv = assms[unfolded sm_inv_def]
  have snaps: "sn_id s = sid" "dict_get (sm_volume_snapshots sm) (sn_volume_id s) \<noteq> None"
    if "dict_get (sm_snapshots sm) sid = Some s" for sid s
    using conjunct1[OF conjunct2[OF inv]] that by blast+
  have index: "distinct ids"
    "set ids = {sid. \<exists>s. dict_get (sm_snapshots sm) sid = Some s \<and> sn_volume_id s = vid}"
    if "dict_get (sm_volume_snapshots sm) vid = Some ids" for vid ids
    using conjunct1[OF conjunct2[OF conjunct2[OF inv]]] that by blast+
  show "wf_dict (sm_snapshots sm)" by (rule conjunct1[OF inv])
  show "sn_id s = sid \<and> (\<exists>ids. dict_get (sm_volume_snapshots sm) (sn_volume_id s) = Some ids \<and> sid \<in> set ids)"
    if s: "dict_get (sm_snapshots sm) sid = Some s"
  proof -
    obtain ids where "dict_get (sm_volume_snapshots sm) (sn_volume_id s) = Some ids" using snaps(2)[OF s] by blast
    then show ?thesis using index(2) snaps(1)[OF s] s by blast
  qed
  show "distinct ids" if "dict_get (sm_volume_snapshots sm) vid = Some ids" by (rule index(1)[OF that])
  show "x \<in> set ids \<longleftrightarrow> (\<exists>s. dict_get (sm_snapshots sm) x = Some s \<and> sn_volume_id s = vid)"
    if "dict_get (sm_volume_snapshots sm) vid = Some ids" unfolding index(2)[OF that] by blast
qed

lemma sm_by_volume:
  "sm_inv sm \<Longrightarrow> dict_get (ss_snapshots_by_volume (sm_stats sm)) vid
   = map_option (int \<circ> length) (dict_get (sm_volume_snapshots sm) vid)"
  unfolding sm_inv_def by blast

lemma sm_total: "sm_inv sm \<Longrightarrow> ss_total_snapshots (sm_stats sm) = int (length (sm_snapshots sm))"
  unfolding sm_inv_def by blast

lemma sm_invI:
  assumes "wf_dict (sm_snapshots sm)"
    and "\<And>sid s. dict_get (sm_snapshots sm) sid = Some s \<Longrightarrow> sn_id s = sid"
    and "\<And>sid s. dict_get (sm_snapshots sm) sid = Some s \<Longrightarrow>
         dict_get (sm_volume_snapshots sm) (sn_volume_id s) \<noteq> None"
    and "\<And>vid ids. dict_get (sm_volume_snapshots sm) vid = Some ids \<Longrightarrow> distinct ids"
    and "\<And>vid ids x. dict_get (sm_volume_snapshots sm) vid = Some ids \<Longrightarrow>
         x \<in> set ids \<longleftrightarrow> (\<exists>s. dict_get (sm_snapshots sm) x = Some s \<and> sn_volume_id s = vid)"
    and "ss_total_snapshots (sm_stats sm) = int (length (sm_snapshots sm))"
    and "\<And>vid. dict_get (ss_snapshots_by_volume (sm_stats sm)) vid
         = map_option (int \<circ> length) (dict_get (sm_volume_snapshots sm) vid)"
  shows "sm_inv sm"
  unfolding sm_inv_def using assms by blast

lemma sm_inv_init: "sm_inv SnapshotManager"
  by (simp add: sm_inv_def SnapshotManager_def)

lemma sm_inv_create:
  assumes inv: "sm_inv sm" and fresh: "dict_get (sm_snapshots sm) uuid = None"
    and run: "sm_create_snapshot strftime uuid now v name description tags sm = (s, sm')"
  shows "sm_inv sm'"
proof -
  define ids where
    "ids = (case dict_get (sm_volume_snapshots sm) (v_id v) of None \<Rightarrow> [] | Some ids \<Rightarrow> ids)"
  have f: "sm_snapshots sm' = dict_set uuid s (sm_snapshots sm)"
    "sm_volume_snapshots sm' = dict_set (v_id v) (ids @ [uuid]) (sm_volume_snapshots sm)"
    "ss_total_snapshots (sm_stats sm') = ss_total_snapshots (sm_stats sm) + 1"
    "ss_snapshots_by_volume (sm_stats sm')
     = dict_set (v_id v) (int (length (ids @ [uuid]))) (ss_snapshots_by_volume (sm_stats sm))"
    "sn_id s = uuid" "sn_volume_id s = v_id v"
    using run by (auto simp: sm_create_snapshot_def Let_def ids_def)
  have ids: "distinct ids \<and>
      (\<forall>x. x \<in> set ids \<longleftrightarrow> (\<exists>s. dict_get (sm_snapshots sm) x = Some s \<and> sn_volume_id s = v_id v))"
  proof (cases "dict_get (sm_volume_snapshots sm) (v_id v)")
    case None
    then show ?thesis using sm_invD(2)[OF inv] by (fastforce simp: ids_def)
  next
    case (Some xs)
    then show ?thesis using sm_invD(3,4)[OF inv Some] by (simp add: ids_def)
  qed
  then have new: "uuid \<notin> set ids" using fresh by auto
  show ?thesis
  proof (rule sm_invI)
    show "wf_dict (sm_snapshots sm')" using sm_invD(1)[OF inv] f by simp
    show "sn_id t = sid" if "dict_get (sm_snapshots sm') sid = Some t" for sid t
      using that f sm_invD(2)[OF inv, of sid t] by (auto split: if_splits)
    show "dict_get (sm_volume_snapshots sm') (sn_volume_id t) \<noteq> None"
      if "dict_get (sm_snapshots sm') sid = Some t" for sid t
      using that f sm_invD(2)[OF inv, of sid t] by (auto split: if_splits)
    show "distinct xs" if "dict_get (sm_volume_snapshots sm') vid = Some xs" for vid xs
      using that f ids new sm_invD(3)[OF inv, of vid xs] by (auto split: if_splits)
    show "x \<in> set xs \<longleftrightarrow> (\<exists>t. dict_get (sm_snapshots sm') x = Some t \<and> sn_volume_id t = vid)"
      if "dict_get (sm_volume_snapshots sm') vid = Some xs" for vid xs x
      using that f ids fresh sm_invD(4)[OF inv, of vid xs x] by (auto split: if_splits)
    show "ss_total_snapshots (sm_stats sm') = int (length (sm_snapshots sm'))"
      using f sm_total[OF inv] fresh by (simp add: length_dict_set')
    show "dict_get (ss_snapshots_by_volume (sm_stats sm')) vid
        = map_option (int \<circ> length) (dict_get (sm_volume_snapshots sm') vid)" for vid
      using f sm_by_volume[OF inv, of vid] by simp
  qed
qed

lemma sm_delete_Some:
  assumes inv: "sm_inv sm" and s: "dict_get (sm_snapshots sm) sid = Some s"
  obtains ids sm' where "sm_delete_snapshot sid sm = (Inr True, sm')"
    "dict_get (sm_volume_snapshots sm) (sn_volume_id s) = Some ids" "sid \<in> set ids"
    "sm_snapshots sm' = dict_del sid (dict_set sid (s\<lparr>sn_state := S_DELETING\<rparr>) (sm_snapshots sm))"
    "sm_volume_snapshots sm' = dict_set (sn_volume_id s) (remove1 sid ids) (sm_volume_snapshots sm)"
    "ss_total_snapshots (sm_stats sm') = ss_total_snapshots (sm_stats sm) - 1"
    "ss_snapshots_by_volume (sm_stats sm')
     = dict_set (sn_volume_id s) (int (length (remove1 sid ids))) (ss_snapshots_by_volume (sm_stats sm))"
proof -
  obtain ids where ids: "dict_get (sm_volume_snapshots sm) (sn_volume_id s) = Some ids" "sid \<in> set ids"
    using sm_invD(2)[OF inv s] by blast
  show thesis
    by (rule that[of "snd (sm_delete_snapshot sid sm)", OF _ ids])
      (use s ids in \<open>simp_all add: sm_delete_snapshot_def Let_def\<close>)
qed

lemma sm_inv_delete:
  assumes inv: "sm_inv sm" and run: "sm_delete_snapshot sid sm = (r, sm')"
  shows "sm_inv sm'"
proof (cases "dict_get (sm_snapshots sm) sid")
  case None
  then show ?thesis using inv run by (simp add: sm_delete_snapshot_def)
next
  case (Some s)
  obtain ids where ids: "dict_get (sm_volume_snapshots sm) (sn_volume_id s) = Some ids" "sid \<in> set ids"
    and f: "sm_snapshots sm' = dict_del sid (dict_set sid (s\<lparr>sn_state := S_DELETING\<rparr>) (sm_snapshots sm))"
    "sm_volume_snapshots sm' = dict_set (sn_volume_id s) (remove1 sid ids) (sm_volume_snapshots sm)"
    "ss_total_snapshots (sm_stats sm') = ss_total_snapshots (sm_stats sm) - 1"
    "ss_snapshots_by_volume (sm_stats sm')
     = dict_set (sn_volume_id s) (int (length (remove1 sid ids))) (ss_snapshots_by_volume (sm_stats sm))"
    using sm_delete_Some[OF inv Some] run by (metis prod.inject)
  note d = sm_invD(3)[OF inv ids(1)]
  have get: "dict_get (sm_snapshots sm') x = (if x = sid then None else dict_get (sm_snapshots sm) x)" for x
    using f by simp
  show ?thesis
  proof (rule sm_invI)
    show "wf_dict (sm_snapshots sm')" using sm_invD(1)[OF inv] f by simp
    show "sn_id t = x" if "dict_get (sm_snapshots sm') x = Some t" for x t
      using that get sm_invD(2)[OF inv, of x t] by (auto split: if_splits)
    show "dict_get (sm_volume_snapshots sm') (sn_volume_id t) \<noteq> None"
      if "dict_get (sm_snapshots sm') x = Some t" for x t
      using that get f(2) sm_invD(2)[OF inv, of x t] by (auto split: if_splits)
    show "distinct xs" if "dict_get (sm_volume_snapshots sm') vid = Some xs" for vid xs
      using that f(2) d sm_invD(3)[OF inv, of vid xs] by (auto split: if_splits)
    show "x \<in> set xs \<longleftrightarrow> (\<exists>t. dict_get (sm_snapshots sm') x = Some t \<and> sn_volume_id t = vid)"
      if "dict_get (sm_volume_snapshots sm') vid = Some xs" for vid xs x
      using that get f(2) d Some sm_invD(4)[OF inv ids(1), of x] sm_invD(4)[OF inv, of vid xs x]
      by (auto split: if_splits)
    have "int (length (sm_snapshots sm')) = int (length (sm_snapshots sm)) - 1"
      unfolding f(1) using sm_invD(1)[OF inv] Some by (subst length_dict_del) (simp_all add: length_dict_set')
    then show "ss_total_snapshots (sm_stats sm') = int (length (sm_snapshots sm'))"
      using f(3) sm_total[OF inv] by simp
    show "dict_get (ss_snapshots_by_volume (sm_stats sm')) vid
        = map_option (int \<circ> length) (dict_get (sm_volume_snapshots sm') vid)" for vid
      using f(2,4) sm_by_volume[OF inv, of vid] by simp
  qed
qed

section \<open>Reachable managers\<close>

inductive sm_step :: "snapshot_manager \<Rightarrow> snapshot_manager \<Rightarrow> bool" where
  sm_create: "dict_get (sm_snapshots sm) uuid = None \<Longrightarrow>
    sm_create_snapshot strftime uuid now v name description tags sm = (s, sm') \<Longrightarrow> sm_step sm sm'"
| sm_delete: "sm_delete_snapshot sid sm = (r, sm') \<Longrightarrow> sm_step sm sm'"

inductive_cases sm_stepE: "sm_step sm sm'"

interpretation snapshots: invariant_machine "\<lambda>sm. sm = SnapshotManager" sm_step sm_inv
  by unfold_locales (auto simp: sm_inv_init elim!: sm_stepE intro: sm_inv_create sm_inv_delete)

lemma last_sort_key:
  assumes "x \<in> set xs"
  shows "f x \<le> f (last (sort_key f xs))"
proof -
  have ne: "sort_key f xs \<noteq> []" using assms by (metis empty_iff empty_set set_sort)
  obtain ys y where ys: "sort_key f xs = ys @ [y]" using ne by (metis append_butlast_last_id)
  have "sorted (map f (sort_key f xs))" by (rule sorted_sort_key)
  then have "\<forall>z \<in> set ys. f z \<le> f y" unfolding ys by (simp add: sorted_append)
  moreover have "x \<in> set (sort_key f xs)" using assms by simp
  ultimately show ?thesis unfolding ys by auto
qed

lemma set_map_filter: "set (List.map_filter f xs) = {y. \<exists>x \<in> set xs. f x = Some y}"
  by (induction xs) (auto simp: List.map_filter_simps split: option.splits)

lemma list_snapshots_volume:
  assumes inv: "sm_inv sm" and "vid \<noteq> []"
  shows "set (sm_list_snapshots sm (Some vid))
         = {s. \<exists>sid. dict_get (sm_snapshots sm) sid = Some s \<and> sn_volume_id s = vid}"
proof (cases "dict_get (sm_volume_snapshots sm) vid")
  case None
  then show ?thesis using sm_invD(2)[OF inv] assms(2)
    by (fastforce simp: sm_list_snapshots_def set_map_filter)
next
  case (Some ids)
  then show ?thesis
    using sm_invD(4)[OF inv Some] assms(2) by (fastforce simp: sm_list_snapshots_def set_map_filter)
qed

section \<open>Properties\<close>

text \<open>
  C19. The snapshot index is consistent in every state the manager can reach: the ids listed for a
  volume are exactly the snapshots of that volume, each listed once; the statistics count
  them; and \<^verbatim>\<open>delete_snapshot\<close> never raises, and afterwards the snapshot is gone from the table and the
  index.
\<close>

theorem snapshot_index_consistent:
  assumes "reach (\<lambda>sm. sm = SnapshotManager) sm_step sm"
  shows "(\<forall>sid s. dict_get (sm_snapshots sm) sid = Some s \<longrightarrow>
            (\<exists>ids. dict_get (sm_volume_snapshots sm) (sn_volume_id s) = Some ids \<and> sid \<in> set ids)) \<and>
         (\<forall>vid ids. dict_get (sm_volume_snapshots sm) vid = Some ids \<longrightarrow> distinct ids \<and>
            set ids = {sid. \<exists>s. dict_get (sm_snapshots sm) sid = Some s \<and> sn_volume_id s = vid} \<and>
            dict_get (ss_snapshots_by_volume (sm_stats sm)) vid = Some (int (length ids))) \<and>
         ss_total_snapshots (sm_stats sm) = int (length (sm_snapshots sm)) \<and>
         (\<exists>ok sm'. sm_delete_snapshot sid sm = (Inr ok, sm') \<and> dict_get (sm_snapshots sm') sid = None)"
proof (intro conjI allI impI)
  have inv: "sm_inv sm" by (rule snapshots.reach_inv[OF assms])
  show "ss_total_snapshots (sm_stats sm) = int (length (sm_snapshots sm))" by (rule sm_total[OF inv])
  show "\<exists>ids. dict_get (sm_volume_snapshots sm) (sn_volume_id s) = Some ids \<and> x \<in> set ids"
    if "dict_get (sm_snapshots sm) x = Some s" for x s
    using sm_invD(2)[OF inv that] by simp
  fix vid ids
  assume i: "dict_get (sm_volume_snapshots sm) vid = Some ids"
  show "distinct ids" by (rule sm_invD(3)[OF inv i])
  show "set ids = {sid. \<exists>s. dict_get (sm_snapshots sm) sid = Some s \<and> sn_volume_id s = vid}"
    using sm_invD(4)[OF inv i] by blast
  show "dict_get (ss_snapshots_by_volume (sm_stats sm)) vid = Some (int (length ids))"
    using sm_by_volume[OF inv, of vid] i by simp
next
  have inv: "sm_inv sm" by (rule snapshots.reach_inv[OF assms])
  show "\<exists>ok sm'. sm_delete_snapshot sid sm = (Inr ok, sm') \<and> dict_get (sm_snapshots sm') sid = None"
  proof (cases "dict_get (sm_snapshots sm) sid")
    case None
    then have "sm_delete_snapshot sid sm = (Inr False, sm)" by (simp add: sm_delete_snapshot_def)
    with None show ?thesis by blast
  next
    case (Some s)
    show ?thesis by (rule sm_delete_Some[OF inv Some]) auto
  qed
qed

text \<open>A manager with one snapshot, for the witnesses.\<close>

definition sm_demo :: "snapshot_manager" where
  "sm_demo = snd (sm_create_snapshot (\<lambda>_. ''now'') ''s1'' 5
     (fst (vm_create_volume ''v1'' 1 ''vol'' 100 [] None (VolumeManager 4096))) None [] None SnapshotManager)"

lemma sm_demo_reach: "reach (\<lambda>sm. sm = SnapshotManager) sm_step sm_demo"
proof -
  have "reach (\<lambda>sm. sm = SnapshotManager) sm_step SnapshotManager" by (rule reach_init) simp
  then show ?thesis
    unfolding sm_demo_def
    by (rule reach_step) (rule sm_create[OF _ prod.collapse [symmetric]], simp add: SnapshotManager_def)
qed

theorem snapshot_index_consistent_witness:
  "\<exists>ok sm'. sm_delete_snapshot ''s1'' sm_demo = (Inr ok, sm') \<and> dict_get (sm_snapshots sm') ''s1'' = None"
  using snapshot_index_consistent [OF sm_demo_reach, of "''s1''"] by (elim conjE)

text \<open>
  \<^verbatim>\<open>get_latest_snapshot\<close> returns a newest snapshot of the volume, and \<^verbatim>\<open>None\<close> exactly when the volume
  has none (for any id but the empty string, which the listing takes for no filter).
\<close>

theorem latest_snapshot:
  assumes "reach (\<lambda>sm. sm = SnapshotManager) sm_step sm" and "vid \<noteq> []"
  shows "case sm_get_latest_snapshot sm vid of
      None \<Rightarrow> \<forall>sid s. dict_get (sm_snapshots sm) sid = Some s \<longrightarrow> sn_volume_id s \<noteq> vid
    | Some s \<Rightarrow> dict_get (sm_snapshots sm) (sn_id s) = Some s \<and> sn_volume_id s = vid \<and>
        (\<forall>sid t. dict_get (sm_snapshots sm) sid = Some t \<and> sn_volume_id t = vid \<longrightarrow>
           sn_created_at t \<le> sn_created_at s)"
proof -
  have inv: "sm_inv sm" by (rule snapshots.reach_inv[OF assms(1)])
  let ?xs = "sm_list_snapshots sm (Some vid)"
  note xs = list_snapshots_volume[OF inv assms(2)]
  show ?thesis
  proof (cases "?xs = []")
    case True
    then show ?thesis using xs by (auto simp: sm_get_latest_snapshot_def sm_get_volume_snapshots_def)
  next
    case False
    define s where "s = last (sort_key sn_created_at ?xs)"
    have ne: "sort_key sn_created_at ?xs \<noteq> []" using False by (metis set_empty set_sort)
    then have "s \<in> set ?xs" unfolding s_def by (metis last_in_set set_sort)
    then have "dict_get (sm_snapshots sm) (sn_id s) = Some s" "sn_volume_id s = vid"
      using xs sm_invD(2)[OF inv] by auto
    moreover have "sm_get_latest_snapshot sm vid = Some s"
      using ne by (simp add: sm_get_latest_snapshot_def sm_get_volume_snapshots_def s_def)
    moreover have "sn_created_at t \<le> sn_created_at s" if "t \<in> set ?xs" for t
      unfolding s_def by (rule last_sort_key[OF that])
    ultimately show ?thesis using xs by auto
  qed
qed

theorem latest_snapshot_witness:
  "\<exists>s. sm_get_latest_snapshot sm_demo ''v1'' = Some s \<and> sn_volume_id s = ''v1''"
proof -
  have "sm_get_latest_snapshot sm_demo ''v1'' \<noteq> None" by code_simp
  then show ?thesis using latest_snapshot [OF sm_demo_reach, of "''v1''"] by (auto split: option.splits)
qed

end
