(* ===== verification/Storage_Controller.thy ===== *)
theory Storage_Controller
  imports Purity_Engine Flash_Simulator Snapshot_Manager
begin

text \<open>
  \<^verbatim>\<open>core/controller.py\<close>: the controller composes the reduction pipeline, the flash simulator, the volumes
  and the snapshots. Its backend object is the one inside the pipeline, so the state holds it once.
  The specification is a map from volumes and offsets to bytes; the main theorem relates the two over
  any history, and two further theorems show where clones and snapshots fall outside of it.
\<close>

section \<open>State and operations\<close>

record controller =
  sc_settings :: settings
  sc_purity :: "file_backend purity_engine"
  sc_directflash :: flash
  sc_volume_manager :: volume_manager
  sc_snapshot_manager :: snapshot_manager
  sc_initialized :: bool

record write_result =
  wr_volume_id :: string
  wr_offset :: int
  wr_size :: int
  wr_reduction :: reduction_result

record read_result =
  rd_volume_id :: string
  rd_offset :: int
  rd_data :: bytes
  rd_size :: int

definition StorageController :: "settings \<Rightarrow> controller result" where
  "StorageController cfg =
     (case PurityEngine FileBackend cfg of
        Inl e \<Rightarrow> Inl e
      | Inr pe \<Rightarrow>
          (case DirectFlashSimulator cfg of
             Inl e \<Rightarrow> Inl e
           | Inr fs \<Rightarrow>
               Inr \<lparr> sc_settings = cfg, sc_purity = pe, sc_directflash = fs,
                     sc_volume_manager = VolumeManager (cfg_default_block_size cfg),
                     sc_snapshot_manager = SnapshotManager, sc_initialized = False \<rparr>))"

definition sc_initialize :: "controller \<Rightarrow> controller" where
  "sc_initialize sc =
     (if sc_initialized sc then sc
      else sc\<lparr> sc_purity := (sc_purity sc)\<lparr>pe_backend := fb_initialize (pe_backend (sc_purity sc))\<rparr>,
               sc_directflash := flash_initialize (sc_directflash sc), sc_initialized := True \<rparr>)"

definition sc_shutdown :: "controller \<Rightarrow> controller" where
  "sc_shutdown sc =
     sc\<lparr> sc_directflash := flash_shutdown (sc_directflash sc),
         sc_purity := (sc_purity sc)\<lparr>pe_backend := fb_shutdown (pe_backend (sc_purity sc))\<rparr>,
         sc_initialized := False \<rparr>"

text \<open>\<^verbatim>\<open>int(size_gb * 1024 * 1024 * 1024)\<close>\<close>

definition gb_to_bytes :: "double \<Rightarrow> int" where
  "gb_to_bytes size_gb = py_int (fmul (fmul (fmul size_gb 1024) 1024) 1024)"

text \<open>\<^verbatim>\<open>snapshot.size_bytes / (1024**3)\<close>\<close>

definition bytes_to_gb :: "int \<Rightarrow> double" where
  "bytes_to_gb size_bytes = fdiv (of_int size_bytes) (1024 ^ 3)"

definition sc_create_volume ::
    "string \<Rightarrow> int \<Rightarrow> string \<Rightarrow> double \<Rightarrow> string \<Rightarrow> tags option \<Rightarrow> controller \<Rightarrow> volume \<times> controller" where
  "sc_create_volume uuid now name size_gb description tags sc =
     (case vm_create_volume uuid now name (gb_to_bytes size_gb) description tags (sc_volume_manager sc) of
        (v, vm) \<Rightarrow> (v, sc\<lparr>sc_volume_manager := vm\<rparr>))"

definition sc_get_volume :: "controller \<Rightarrow> string \<Rightarrow> volume option" where
  "sc_get_volume sc vid = vm_get_volume (sc_volume_manager sc) vid"

definition sc_list_volumes :: "controller \<Rightarrow> volume list" where
  "sc_list_volumes sc = vm_list_volumes (sc_volume_manager sc)"

fun delete_blocks ::
    "(bytes \<Rightarrow> string) \<Rightarrow> volume_block list \<Rightarrow> file_backend purity_engine \<Rightarrow> file_backend purity_engine" where
  "delete_blocks sha [] pe = pe"
| "delete_blocks sha (b # bs) pe =
     delete_blocks sha bs (snd (pe_delete (file_backend_ops sha) (vb_block_id b) (vb_fingerprint b) pe))"

definition sc_delete_volume :: "(bytes \<Rightarrow> string) \<Rightarrow> string \<Rightarrow> controller \<Rightarrow> bool \<times> controller" where
  "sc_delete_volume sha vid sc =
     (case vm_get_volume (sc_volume_manager sc) vid of
        None \<Rightarrow> (False, sc)
      | Some v \<Rightarrow>
          let pe = delete_blocks sha (dict_values (v_blocks v)) (sc_purity sc)
          in case vm_delete_volume vid (sc_volume_manager sc) of
               (ok, vm) \<Rightarrow> (ok, sc\<lparr>sc_purity := pe, sc_volume_manager := vm\<rparr>))"

definition sc_clone_volume ::
    "string \<Rightarrow> int \<Rightarrow> string \<Rightarrow> string \<Rightarrow> string \<Rightarrow> controller \<Rightarrow> volume option \<times> controller" where
  "sc_clone_volume uuid now source_id new_name description sc =
     (case vm_clone_volume uuid now source_id new_name description (sc_volume_manager sc) of
        (v, vm) \<Rightarrow> (v, sc\<lparr>sc_volume_manager := vm\<rparr>))"

definition sc_write ::
    "(bytes \<Rightarrow> string) \<Rightarrow> codecs \<Rightarrow> string \<Rightarrow> int \<Rightarrow> string \<Rightarrow> int \<Rightarrow> bytes \<Rightarrow> controller
     \<Rightarrow> (controller, write_result option) outcome" where
  "sc_write sha cdc uuid now vid off data sc =
     (case vm_get_volume (sc_volume_manager sc) vid of
        None \<Rightarrow> (Inr None, sc)
      | Some v \<Rightarrow>
          if cfg_default_block_size (sc_settings sc) = 0 then (Inl ZeroDivisionError, sc)
          else if off mod cfg_default_block_size (sc_settings sc) \<noteq> 0
          then (Inl (ValueError ''Offset must be aligned to block size''), sc)
          else case reduce_and_store (file_backend_ops sha) sha cdc uuid data (sc_purity sc) of
                 (Inl e, pe) \<Rightarrow> (Inl e, sc\<lparr>sc_purity := pe\<rparr>)
               | (Inr reduction, pe) \<Rightarrow>
                   (case vm_write_block now vid off (rr_block_id reduction)
                           (dr_fingerprint (rr_dedupe_result reduction)) (int (length data))
                           (rr_stored_size reduction) (sc_volume_manager sc) of
                      (Inl e, vm) \<Rightarrow> (Inl e, sc\<lparr>sc_purity := pe, sc_volume_manager := vm\<rparr>)
                    | (Inr _, vm) \<Rightarrow>
                        (Inr (Some \<lparr> wr_volume_id = vid, wr_offset = off, wr_size = int (length data),
                                     wr_reduction = reduction \<rparr>),
                         sc\<lparr>sc_purity := pe, sc_volume_manager := vm\<rparr>)))"

definition sc_read ::
    "(bytes \<Rightarrow> string) \<Rightarrow> codecs \<Rightarrow> string \<Rightarrow> int \<Rightarrow> controller \<Rightarrow> (controller, read_result option) outcome" where
  "sc_read sha cdc vid off sc =
     (case vm_get_volume (sc_volume_manager sc) vid of
        None \<Rightarrow> (Inr None, sc)
      | Some v \<Rightarrow>
          (case vm_get_block (sc_volume_manager sc) vid off of
             None \<Rightarrow> (Inr None, sc)
           | Some b \<Rightarrow>
               (case retrieve (file_backend_ops sha) cdc (vb_block_id b) (sc_purity sc) of
                  (Inl e, pe) \<Rightarrow> (Inl e, sc\<lparr>sc_purity := pe\<rparr>)
                | (Inr data, pe) \<Rightarrow>
                    (Inr (Some \<lparr> rd_volume_id = vid, rd_offset = off, rd_data = data,
                                 rd_size = int (length data) \<rparr>), sc\<lparr>sc_purity := pe\<rparr>))))"

definition sc_create_snapshot ::
    "(int \<Rightarrow> string) \<Rightarrow> string \<Rightarrow> int \<Rightarrow> string \<Rightarrow> string option \<Rightarrow> string \<Rightarrow> controller
     \<Rightarrow> snapshot option \<times> controller" where
  "sc_create_snapshot strftime uuid now vid name description sc =
     (case vm_get_volume (sc_volume_manager sc) vid of
        None \<Rightarrow> (None, sc)
      | Some v \<Rightarrow>
          (case sm_create_snapshot strftime uuid now v name description None (sc_snapshot_manager sc) of
             (s, sm) \<Rightarrow> (Some s, sc\<lparr>sc_snapshot_manager := sm\<rparr>)))"

definition sc_get_snapshot :: "controller \<Rightarrow> string \<Rightarrow> snapshot option" where
  "sc_get_snapshot sc sid = sm_get_snapshot (sc_snapshot_manager sc) sid"

definition sc_list_snapshots :: "controller \<Rightarrow> string option \<Rightarrow> snapshot list" where
  "sc_list_snapshots sc vid = sm_list_snapshots (sc_snapshot_manager sc) vid"

definition sc_delete_snapshot :: "string \<Rightarrow> controller \<Rightarrow> (controller, bool) outcome" where
  "sc_delete_snapshot sid sc =
     (case sm_get_snapshot (sc_snapshot_manager sc) sid of
        None \<Rightarrow> (Inr False, sc)
      | Some s \<Rightarrow>
          (case sm_delete_snapshot sid (sc_snapshot_manager sc) of
             (r, sm) \<Rightarrow> (r, sc\<lparr>sc_snapshot_manager := sm\<rparr>)))"

text \<open>The assignments \<^verbatim>\<open>volume.blocks = ...; volume.used_bytes = ...\<close> on the manager's object.\<close>

definition restore_blocks :: "snapshot \<Rightarrow> volume \<Rightarrow> volume" where
  "restore_blocks s v = v\<lparr>v_blocks := sn_blocks s, v_used_bytes := sn_used_bytes s\<rparr>"

definition sc_restore_snapshot ::
    "string \<Rightarrow> int \<Rightarrow> string \<Rightarrow> string option \<Rightarrow> controller \<Rightarrow> volume option \<times> controller" where
  "sc_restore_snapshot uuid now sid vid sc =
     (case sm_get_snapshot (sc_snapshot_manager sc) sid of
        None \<Rightarrow> (None, sc)
      | Some s \<Rightarrow>
          if vid \<noteq> None \<and> vid \<noteq> Some [] then
            (case vm_get_volume (sc_volume_manager sc) (the vid) of
               None \<Rightarrow> (None, sc)
             | Some v \<Rightarrow>
                 (Some (restore_blocks s v),
                  sc\<lparr>sc_volume_manager := (sc_volume_manager sc)\<lparr>vm_volumes :=
                       dict_set (the vid) (restore_blocks s v) (vm_volumes (sc_volume_manager sc))\<rparr>\<rparr>))
          else
            (case sc_create_volume uuid now (sn_volume_name s @ ''-restored'')
                    (bytes_to_gb (sn_size_bytes s))
                    (''Restored from snapshot '' @ sn_name s) None sc of
               (v, sc) \<Rightarrow>
                 (Some (restore_blocks s v),
                  sc\<lparr>sc_volume_manager := put_volume (restore_blocks s v) (sc_volume_manager sc)\<rparr>)))"

definition sc_get_reduction_ratio :: "controller \<Rightarrow> double" where
  "sc_get_reduction_ratio sc = get_reduction_ratio (sc_purity sc)"

record controller_report =
  ct_data_reduction :: "(backend_stats \<times> int \<times> int) pe_statistics"
  ct_flash :: flash_report
  ct_volumes :: volume_stats
  ct_snapshots :: snapshot_stats

definition sc_get_stats :: "controller \<Rightarrow> controller_report result" where
  "sc_get_stats sc =
     (case flash_get_stats (sc_directflash sc) of
        Inl e \<Rightarrow> Inl e
      | Inr flash \<Rightarrow>
          Inr \<lparr> ct_data_reduction = pe_get_stats fb_get_stats (sc_purity sc), ct_flash = flash,
                ct_volumes = vm_get_stats (sc_volume_manager sc),
                ct_snapshots = sm_get_stats (sc_snapshot_manager sc) \<rparr>)"

text \<open>The singleton, made from the settings and initialized on the first call.\<close>

definition get_controller :: "settings \<Rightarrow> controller option \<Rightarrow> (controller option, controller) outcome" where
  "get_controller cfg current =
     (case current of
        Some sc \<Rightarrow> (Inr sc, current)
      | None \<Rightarrow>
          (case StorageController cfg of
             Inl e \<Rightarrow> (Inl e, None)
           | Inr sc \<Rightarrow> (Inr (sc_initialize sc), Some (sc_initialize sc))))"

section \<open>The references held by the volumes\<close>

text \<open>
  \<open>D vid off\<close> is the data last written to a volume at an offset: a ghost of the proof. The volumes
  hold one reference for each entry of their block maps.
\<close>

type_synonym ghost = "string \<Rightarrow> int \<Rightarrow> bytes"

definition block_refs :: "(int \<Rightarrow> bytes) \<Rightarrow> block_map \<Rightarrow> block_ref multiset" where
  "block_refs f bs = image_mset (\<lambda>(off, b). (vb_block_id b, vb_fingerprint b, f off)) (mset bs)"

definition vol_refs :: "(string, volume) dict \<Rightarrow> ghost \<Rightarrow> block_ref multiset" where
  "vol_refs vols D = (\<Sum>(vid, v) \<in># mset vols. block_refs (D vid) (v_blocks v))"

lemma mset_dict_set:
  "mset (dict_set k v d)
   = add_mset (k, v) (mset d - (case dict_get d k of None \<Rightarrow> {#} | Some w \<Rightarrow> {#(k, w)#}))"
proof (induction d)
  case (Cons p d)
  obtain k' v' where p: "p = (k', v')" by (cases p)
  show ?case
  proof (cases "k' = k")
    case False
    have "(k, w) \<in># mset d" if "dict_get d k = Some w" for w using map_of_SomeD[OF that] by simp
    then show ?thesis using Cons p False by (auto split: option.splits)
  qed (use p in simp)
qed simp

lemma mset_dict_del:
  "wf_dict d \<Longrightarrow> dict_get d k = Some w \<Longrightarrow> mset d = add_mset (k, w) (mset (dict_del k d))"
proof (induction d)
  case (Cons p d)
  obtain k' v' where p: "p = (k', v')" by (cases p)
  show ?case
  proof (cases "k' = k")
    case True
    then have "dict_get d k = None" using Cons.prems(1) p by (auto simp: wf_dict_def map_of_eq_None_iff)
    then show ?thesis using Cons.prems(2) p True by (simp add: dict_del_notin)
  next
    case False
    then have "mset d = add_mset (k, w) (mset (dict_del k d))"
      using Cons p by (simp add: wf_dict_def)
    moreover have "dict_del k ((k', v') # d) = (k', v') # dict_del k d" using False by simp
    ultimately show ?thesis using p by simp
  qed
qed simp

lemma vol_refs_split:
  assumes "wf_dict vols" and "dict_get vols vid = Some v"
  shows "vol_refs vols D = block_refs (D vid) (v_blocks v) + vol_refs (dict_del vid vols) D"
  using mset_dict_del[OF assms] by (simp add: vol_refs_def)

lemma vol_refs_cong:
  "(\<And>vid v. (vid, v) \<in> set vols \<Longrightarrow> D vid = D' vid) \<Longrightarrow> vol_refs vols D = vol_refs vols D'"
  unfolding vol_refs_def by (intro arg_cong[of _ _ sum_mset] image_mset_cong) auto

lemma mset_dict_set': "wf_dict d \<Longrightarrow> mset (dict_set k v d) = add_mset (k, v) (mset (dict_del k d))"
  using mset_dict_del[of d k]
  by (cases "dict_get d k") (simp_all add: mset_dict_set dict_del_notin)

lemma vol_refs_set:
  assumes "wf_dict vols"
  shows "vol_refs (dict_set vid v vols) D = block_refs (D vid) (v_blocks v) + vol_refs (dict_del vid vols) D"
  using assms by (simp add: vol_refs_def mset_dict_set')

lemma block_refs_set:
  assumes "wf_dict bs"
  shows "block_refs (f(off := data)) (dict_set off b bs)
    \<subseteq># add_mset (vb_block_id b, vb_fingerprint b, data) (block_refs f bs)"
proof -
  let ?g = "\<lambda>(k, b). (vb_block_id b, vb_fingerprint b, f k)"
  have "image_mset (\<lambda>(k, b). (vb_block_id b, vb_fingerprint b, (f(off := data)) k)) (mset (dict_del off bs))
      = image_mset ?g (mset (dict_del off bs))"
    by (intro image_mset_cong) (auto simp: AList.delete_eq)
  moreover have "mset (dict_del off bs) \<subseteq># mset bs"
    by (simp add: AList.delete_eq multiset_filter_subset)
  then have "image_mset ?g (mset (dict_del off bs)) \<subseteq># image_mset ?g (mset bs)"
    by (rule image_mset_subseteq_mono)
  ultimately show ?thesis using assms by (simp add: block_refs_def mset_dict_set')
qed

lemma block_refs_mem:
  "dict_get bs off = Some b \<Longrightarrow> (vb_block_id b, vb_fingerprint b, f off) \<in># block_refs f bs"
  using map_of_SomeD[of bs off b] by (force simp: block_refs_def)

section \<open>The specification\<close>

text \<open>
  The calls of a client, each with the fresh ids and the clock the controller takes from its
  environment, and the specification: volumes with a size and a map from offsets to bytes.
\<close>

datatype ctl_call =
    CCreate string int string double
  | CWrite string int string int bytes
  | CRead string int
  | CDeleteVolume string
  | CSnapshot string int string
  | CDeleteSnapshot string

datatype ctl_answer =
    Created string
  | Written "bool result"
  | ReadData "bytes option result"
  | VolumeDeleted bool
  | SnapshotDone

type_synonym ctl_spec = "string \<Rightarrow> (int \<times> (int \<Rightarrow> bytes option)) option"

fun sc_step ::
    "(bytes \<Rightarrow> string) \<Rightarrow> codecs \<Rightarrow> (int \<Rightarrow> string) \<Rightarrow> ctl_call \<Rightarrow> controller \<Rightarrow> ctl_answer \<times> controller" where
  "sc_step sha cdc strftime (CCreate uuid now name size_gb) sc =
     (case sc_create_volume uuid now name size_gb [] None sc of (v, sc) \<Rightarrow> (Created (v_id v), sc))"
| "sc_step sha cdc strftime (CWrite uuid now vid off data) sc =
     (case sc_write sha cdc uuid now vid off data sc of
        (Inl e, sc) \<Rightarrow> (Written (Inl e), sc) | (Inr r, sc) \<Rightarrow> (Written (Inr (r \<noteq> None)), sc))"
| "sc_step sha cdc strftime (CRead vid off) sc =
     (case sc_read sha cdc vid off sc of
        (Inl e, sc) \<Rightarrow> (ReadData (Inl e), sc)
      | (Inr r, sc) \<Rightarrow> (ReadData (Inr (map_option rd_data r)), sc))"
| "sc_step sha cdc strftime (CDeleteVolume vid) sc =
     (case sc_delete_volume sha vid sc of (ok, sc) \<Rightarrow> (VolumeDeleted ok, sc))"
| "sc_step sha cdc strftime (CSnapshot uuid now vid) sc =
     (case sc_create_snapshot strftime uuid now vid None [] sc of (s, sc) \<Rightarrow> (SnapshotDone, sc))"
| "sc_step sha cdc strftime (CDeleteSnapshot sid) sc =
     (case sc_delete_snapshot sid sc of (r, sc) \<Rightarrow> (SnapshotDone, sc))"

abbreviation sc_run ::
    "(bytes \<Rightarrow> string) \<Rightarrow> codecs \<Rightarrow> (int \<Rightarrow> string) \<Rightarrow> ctl_call list \<Rightarrow> controller
     \<Rightarrow> ctl_answer list \<times> controller" where
  "sc_run sha cdc strftime \<equiv> run_calls (sc_step sha cdc strftime)"

fun ctl_spec_step :: "int \<Rightarrow> ctl_call \<Rightarrow> ctl_spec \<Rightarrow> ctl_answer \<times> ctl_spec" where
  "ctl_spec_step bs (CCreate uuid now name size_gb) m =
     (Created uuid, m(uuid \<mapsto> (gb_to_bytes size_gb, \<lambda>_. None)))"
| "ctl_spec_step bs (CWrite uuid now vid off data) m =
     (case m vid of
        None \<Rightarrow> (Written (Inr False), m)
      | Some (sz, f) \<Rightarrow>
          if off mod bs \<noteq> 0 then (Written (Inl (ValueError ''Offset must be aligned to block size'')), m)
          else if sz < off + int (length data)
          then (Written (Inl (ValueError ''Write exceeds volume size'')), m)
          else (Written (Inr True), m(vid \<mapsto> (sz, f(off \<mapsto> data)))))"
| "ctl_spec_step bs (CRead vid off) m =
     (ReadData (Inr (case m vid of None \<Rightarrow> None | Some (sz, f) \<Rightarrow> f off)), m)"
| "ctl_spec_step bs (CDeleteVolume vid) m = (VolumeDeleted (m vid \<noteq> None), m(vid := None))"
| "ctl_spec_step bs (CSnapshot uuid now vid) m = (SnapshotDone, m)"
| "ctl_spec_step bs (CDeleteSnapshot sid) m = (SnapshotDone, m)"

abbreviation ctl_spec_run :: "int \<Rightarrow> ctl_call list \<Rightarrow> ctl_spec \<Rightarrow> ctl_answer list \<times> ctl_spec" where
  "ctl_spec_run bs \<equiv> run_calls (ctl_spec_step bs)"

text \<open>The specification state that a controller stands for.\<close>

definition sc_view :: "controller \<Rightarrow> ghost \<Rightarrow> ctl_spec" where
  "sc_view sc D vid =
     (case dict_get (vm_volumes (sc_volume_manager sc)) vid of
        None \<Rightarrow> None
      | Some v \<Rightarrow>
          Some (v_size_bytes v, \<lambda>off. map_option (\<lambda>_. D vid off) (dict_get (v_blocks v) off)))"

text \<open>
  The invariant of the controller: the pipeline accounts for every reference the volumes hold, and
  ids are taken from those used so far.
\<close>

definition sc_inv ::
    "(bytes \<Rightarrow> string) \<Rightarrow> codecs \<Rightarrow> bytes set \<Rightarrow> string set \<Rightarrow> controller \<Rightarrow> ghost \<Rightarrow> bool" where
  "sc_inv sha cdc U used sc D \<longleftrightarrow>
     pe_inv (fb_inv sha) fb_stored sha cdc U (sc_purity sc) (vol_refs (vm_volumes (sc_volume_manager sc)) D) \<and>
     vm_inv (sc_volume_manager sc) \<and> cfg_default_block_size (sc_settings sc) \<noteq> 0 \<and>
     dom (fb_stored (pe_backend (sc_purity sc))) \<subseteq> used \<and>
     dom (dict_get (vm_volumes (sc_volume_manager sc))) \<subseteq> used"

text \<open>The fresh ids and the data of a call.\<close>

fun ctl_ids :: "ctl_call \<Rightarrow> string list" where
  "ctl_ids (CCreate uuid now name size_gb) = [uuid]"
| "ctl_ids (CWrite uuid now vid off data) = [uuid]"
| "ctl_ids _ = []"

fun ctl_data :: "ctl_call \<Rightarrow> bytes list" where
  "ctl_data (CWrite uuid now vid off data) = [data]"
| "ctl_data _ = []"

abbreviation ctl_uuids :: "ctl_call list \<Rightarrow> string list" where
  "ctl_uuids cs \<equiv> concat (map ctl_ids cs)"

abbreviation ctl_written :: "ctl_call list \<Rightarrow> bytes set" where
  "ctl_written cs \<equiv> set (concat (map ctl_data cs))"

section \<open>The controller refines the specification\<close>

lemma sc_invD:
  assumes "sc_inv sha cdc U used sc D"
  shows "pe_inv (fb_inv sha) fb_stored sha cdc U (sc_purity sc)
           (vol_refs (vm_volumes (sc_volume_manager sc)) D)"
    and "vm_inv (sc_volume_manager sc)" and "wf_dict (vm_volumes (sc_volume_manager sc))"
    and "cfg_default_block_size (sc_settings sc) \<noteq> 0"
    and "dom (fb_stored (pe_backend (sc_purity sc))) \<subseteq> used"
    and "dom (dict_get (vm_volumes (sc_volume_manager sc))) \<subseteq> used"
    and "dict_get (vm_volumes (sc_volume_manager sc)) vid = Some v \<Longrightarrow> v_id v = vid \<and> volume_ok v"
  using assms by (simp_all add: sc_inv_def vm_inv_def)

lemma delete_blocks_inv:
  assumes "pe_inv (fb_inv sha) fb_stored sha cdc U pe (block_refs f bs + R)"
  shows "pe_inv (fb_inv sha) fb_stored sha cdc U (delete_blocks sha (dict_values bs) pe) R \<and>
    dom (fb_stored (pe_backend (delete_blocks sha (dict_values bs) pe))) \<subseteq> dom (fb_stored (pe_backend pe))"
  using assms
proof (induction bs arbitrary: pe)
  case Nil
  then show ?case by (simp add: block_refs_def)
next
  case (Cons p bs)
  obtain off b where p: "p = (off, b)" by (cases p)
  let ?r = "(vb_block_id b, vb_fingerprint b, f off)"
  have split: "block_refs f (p # bs) + R = add_mset ?r (block_refs f bs + R)" using p by (simp add: block_refs_def)
  obtain ok pe1 where d: "pe_delete (file_backend_ops sha) (vb_block_id b) (vb_fingerprint b) pe = (ok, pe1)"
    by (cases "pe_delete (file_backend_ops sha) (vb_block_id b) (vb_fingerprint b) pe")
  have "?r \<in># block_refs f (p # bs) + R" unfolding split by simp
  from fb.inv_delete[OF Cons.prems this d]
  have "pe_inv (fb_inv sha) fb_stored sha cdc U pe1 (block_refs f bs + R)"
    "dom (fb_stored (pe_backend pe1)) \<subseteq> dom (fb_stored (pe_backend pe))"
    unfolding split by simp_all
  then have "pe_inv (fb_inv sha) fb_stored sha cdc U (delete_blocks sha (dict_values bs) pe1) R \<and>
      dom (fb_stored (pe_backend (delete_blocks sha (dict_values bs) pe1))) \<subseteq> dom (fb_stored (pe_backend pe))"
    using Cons.IH[of pe1] by (meson subset_trans)
  then show ?case using p d by simp
qed

lemma create_refines:
  assumes inv: "sc_inv sha cdc U used sc D" and fresh: "uuid \<notin> used"
    and run: "sc_create_volume uuid now name size_gb description tags sc = (v, sc')"
  shows "sc_inv sha cdc U (insert uuid used) sc' D \<and> v_id v = uuid \<and> sc_settings sc' = sc_settings sc \<and>
    sc_view sc' D = (sc_view sc D)(uuid \<mapsto> (gb_to_bytes size_gb, \<lambda>_. None))"
proof -
  note I = sc_invD[OF inv]
  let ?vols = "vm_volumes (sc_volume_manager sc)"
  obtain vm where c: "vm_create_volume uuid now name (gb_to_bytes size_gb) description tags
      (sc_volume_manager sc) = (v, vm)" and sc': "sc' = sc\<lparr>sc_volume_manager := vm\<rparr>"
    using run by (auto simp: sc_create_volume_def split: prod.splits)
  have v: "v_id v = uuid" "v_blocks v = []" "v_size_bytes v = gb_to_bytes size_gb"
    "vm_volumes vm = dict_set uuid v ?vols"
    using c by (auto simp: vm_create_volume_def put_volume_def Let_def)
  have none: "dict_get ?vols uuid = None" using I(6) fresh by blast
  have "vol_refs (vm_volumes vm) D = vol_refs ?vols D"
    using v none vol_refs_set[OF I(3)] by (simp add: block_refs_def dict_del_notin)
  moreover have "vm_inv vm" by (rule vm_inv_create[OF I(2) none c])
  moreover have "dom (dict_get (vm_volumes vm)) \<subseteq> insert uuid used"
    unfolding v(4) update_conv' dom_fun_upd using I(6) by auto
  ultimately have "sc_inv sha cdc U (insert uuid used) sc' D"
    using I(1,4,5) sc' by (simp add: sc_inv_def subset_insertI2)
  then show ?thesis using v sc' by (simp add: sc_view_def fun_eq_iff)
qed

lemma delete_refines:
  assumes inv: "sc_inv sha cdc U used sc D" and run: "sc_delete_volume sha vid sc = (ok, sc')"
  shows "sc_inv sha cdc U used sc' D \<and> ok = (sc_view sc D vid \<noteq> None) \<and> sc_settings sc' = sc_settings sc \<and>
    sc_view sc' D = (sc_view sc D)(vid := None)"
proof -
  note I = sc_invD[OF inv]
  let ?vols = "vm_volumes (sc_volume_manager sc)"
  show ?thesis
  proof (cases "dict_get ?vols vid")
    case None
    then have "ok = False" "sc' = sc" "sc_view sc D vid = None"
      using run by (simp_all add: sc_delete_volume_def vm_get_volume_def sc_view_def)
    then show ?thesis using inv by (simp add: fun_upd_idem)
  next
    case (Some v)
    define pe where "pe = delete_blocks sha (dict_values (v_blocks v)) (sc_purity sc)"
    obtain vm where d: "vm_delete_volume vid (sc_volume_manager sc) = (True, vm)"
      "vm_volumes vm = dict_del vid ?vols"
      using Some by (simp add: vm_delete_volume_def Let_def)
    have sc': "ok = True" "sc' = sc\<lparr>sc_purity := pe, sc_volume_manager := vm\<rparr>"
      using run Some d by (simp_all add: sc_delete_volume_def vm_get_volume_def pe_def Let_def)
    have "pe_inv (fb_inv sha) fb_stored sha cdc U pe (vol_refs (vm_volumes vm) D) \<and>
        dom (fb_stored (pe_backend pe)) \<subseteq> dom (fb_stored (pe_backend (sc_purity sc)))"
      unfolding pe_def d(2)
      by (rule delete_blocks_inv) (use I(1) vol_refs_split[OF I(3) Some, of D] in simp)
    moreover have "vm_inv vm" by (rule vm_inv_delete[OF I(2) d(1)])
    moreover have "dom (dict_get (vm_volumes vm)) \<subseteq> used"
      using I(6) d(2) by (auto simp: delete_conv')
    ultimately have "sc_inv sha cdc U used sc' D"
      using I(4) subset_trans[OF _ I(5)] sc' unfolding sc_inv_def by simp
    then show ?thesis using sc' d Some by (simp add: sc_view_def fun_eq_iff)
  qed
qed

lemma read_refines:
  assumes inv: "sc_inv sha cdc U used sc D" and run: "sc_read sha cdc vid off sc = (r, sc')"
  shows "sc_inv sha cdc U used sc' D \<and> sc_settings sc' = sc_settings sc \<and> sc_view sc' D = sc_view sc D \<and>
    (\<exists>x. r = Inr x \<and> map_option rd_data x = (case sc_view sc D vid of None \<Rightarrow> None | Some (sz, f) \<Rightarrow> f off))"
proof -
  note I = sc_invD[OF inv]
  let ?vols = "vm_volumes (sc_volume_manager sc)"
  show ?thesis
  proof (cases "dict_get ?vols vid")
    case None
    then show ?thesis
      using inv run by (auto simp: sc_read_def vm_get_volume_def sc_view_def)
  next
    case (Some v)
    show ?thesis
    proof (cases "dict_get (v_blocks v) off")
      case None
      then show ?thesis
        using inv run Some by (auto simp: sc_read_def vm_get_volume_def vm_get_block_def sc_view_def)
    next
      case b: (Some b)
      have "(vb_block_id b, vb_fingerprint b, D vid off) \<in># vol_refs ?vols D"
        unfolding vol_refs_split[OF I(3) Some] using block_refs_mem[OF b, of "D vid"] by simp
      then obtain pe' where "retrieve (file_backend_ops sha) cdc (vb_block_id b) (sc_purity sc)
            = (Inr (D vid off), pe')"
        "pe_inv (fb_inv sha) fb_stored sha cdc U pe' (vol_refs ?vols D)"
        "fb_stored (pe_backend pe') = fb_stored (pe_backend (sc_purity sc))"
        by (rule fb.inv_retrieve[OF I(1)])
      then show ?thesis
        using run Some b I by (auto simp: sc_read_def vm_get_volume_def vm_get_block_def sc_view_def sc_inv_def)
    qed
  qed
qed

lemma write_block_effect:
  assumes "vm_inv vm" and v: "dict_get (vm_volumes vm) vid = Some v"
    and run: "vm_write_block now vid off bid fp sz ps vm = (r, vm')"
  shows "if v_size_bytes v < off + sz
    then r = Inl (ValueError ''Write exceeds volume size'') \<and> vm' = vm
    else r = Inr True \<and> (\<exists>v'. vm_volumes vm' = dict_set vid v' (vm_volumes vm) \<and>
      v_size_bytes v' = v_size_bytes v \<and>
      v_blocks v' = dict_set off \<lparr>vb_offset = off, vb_block_id = bid, vb_fingerprint = fp, vb_size = sz\<rparr>
        (v_blocks v))"
proof (cases "v_size_bytes v < off + sz")
  case True
  then show ?thesis using run v by (simp add: vm_write_block_def)
next
  case False
  show ?thesis
    using run v False
    by (auto simp: vm_write_block_def Let_def split: option.splits
        intro!: exI[of _ "the (dict_get (vm_volumes vm') vid)"])
qed

lemma vol_refs_write:
  assumes wf: "wf_dict vols" and v: "dict_get vols vid = Some v" and bs: "wf_dict (v_blocks v)"
    and v': "v_blocks v' = dict_set off \<lparr>vb_offset = off, vb_block_id = bid, vb_fingerprint = fp, vb_size = sz\<rparr>
      (v_blocks v)"
  shows "vol_refs (dict_set vid v' vols) (D(vid := (D vid)(off := data))) \<subseteq># add_mset (bid, fp, data) (vol_refs vols D)"
proof -
  let ?D = "D(vid := (D vid)(off := data))"
  have rest: "vol_refs (dict_del vid vols) ?D = vol_refs (dict_del vid vols) D"
    by (rule vol_refs_cong) (auto simp: AList.delete_eq)
  have "block_refs (?D vid) (v_blocks v') \<subseteq># add_mset (bid, fp, data) (block_refs (D vid) (v_blocks v))"
    using block_refs_set[OF bs, of "D vid" off data "\<lparr>vb_offset = off, vb_block_id = bid,
      vb_fingerprint = fp, vb_size = sz\<rparr>"] v' by simp
  from subset_mset.add_right_mono[OF this, of "vol_refs (dict_del vid vols) D"] show ?thesis
    unfolding vol_refs_set[OF wf] vol_refs_split[OF wf v] rest by simp
qed

lemma write_stored:
  assumes inv: "sc_inv sha cdc U used sc D" and v: "dict_get (vm_volumes (sc_volume_manager sc)) vid = Some v"
    and pe': "pe_inv (fb_inv sha) fb_stored sha cdc U pe'
      (add_mset (bid, fp, data) (vol_refs (vm_volumes (sc_volume_manager sc)) D))"
    and st': "dom (fb_stored (pe_backend pe')) \<subseteq> insert uuid used"
    and w: "vm_write_block now vid off bid fp (int (length data)) ps (sc_volume_manager sc) = (w, vm')"
    and sc': "sc' = sc\<lparr>sc_purity := pe', sc_volume_manager := vm'\<rparr>"
  shows "\<exists>D'. sc_inv sha cdc U (insert uuid used) sc' D' \<and>
    (if v_size_bytes v < off + int (length data)
     then w = Inl (ValueError ''Write exceeds volume size'') \<and> sc_view sc' D' = sc_view sc D
     else w = Inr True \<and> sc_view sc' D' = (sc_view sc D)(vid \<mapsto> (v_size_bytes v,
       (\<lambda>off. map_option (\<lambda>_. D vid off) (dict_get (v_blocks v) off))(off \<mapsto> data))))"
proof -
  note I = sc_invD[OF inv]
  let ?vols = "vm_volumes (sc_volume_manager sc)"
  note eff = write_block_effect[OF I(2) v w]
  have vm'_inv: "vm_inv vm'" by (rule vm_inv_write[OF I(2) w])
  show ?thesis
  proof (cases "v_size_bytes v < off + int (length data)")
    case big: True
    then have vm': "vm' = sc_volume_manager sc" "w = Inl (ValueError ''Write exceeds volume size'')"
      using eff by auto
    have "pe_inv (fb_inv sha) fb_stored sha cdc U pe' (vol_refs ?vols D)"
      by (rule pe_inv_antimono[OF pe']) simp
    then have "sc_inv sha cdc U (insert uuid used) sc' D"
      using I(2,4,6) st' sc' vm' by (simp add: sc_inv_def subset_insertI2)
    then show ?thesis
      using sc' vm' big by (intro exI[of _ D]) (simp add: sc_view_def fun_eq_iff)
  next
    case False
    obtain v' where v': "vm_volumes vm' = dict_set vid v' ?vols" "v_size_bytes v' = v_size_bytes v"
      "v_blocks v' = dict_set off \<lparr>vb_offset = off, vb_block_id = bid, vb_fingerprint = fp,
         vb_size = int (length data)\<rparr> (v_blocks v)"
      and w': "w = Inr True"
      using eff False by auto
    let ?D = "D(vid := (D vid)(off := data))"
    have "wf_dict (v_blocks v)" using I(7)[OF v] by (simp add: volume_ok_def)
    from vol_refs_write[OF I(3) v this v'(3), of D data]
    have "pe_inv (fb_inv sha) fb_stored sha cdc U pe' (vol_refs (vm_volumes vm') ?D)"
      unfolding v'(1) by (rule pe_inv_antimono[OF pe'])
    moreover have "dom (dict_get (vm_volumes vm')) \<subseteq> insert uuid used"
      using I(6) v unfolding v'(1) update_conv' dom_fun_upd by auto
    ultimately have "sc_inv sha cdc U (insert uuid used) sc' ?D"
      using I(4) st' sc' vm'_inv by (simp add: sc_inv_def)
    moreover have "sc_view sc' ?D = (sc_view sc D)(vid \<mapsto> (v_size_bytes v,
        (\<lambda>off. map_option (\<lambda>_. D vid off) (dict_get (v_blocks v) off))(off \<mapsto> data)))"
      using sc' v' by (auto simp: sc_view_def fun_eq_iff split: option.splits)
    ultimately show ?thesis using w' False by (intro exI[of _ ?D]) simp
  qed
qed

lemma write_refines:
  assumes inv: "sc_inv sha cdc U used sc D" and fresh: "uuid \<notin> used" and data: "data \<in> U"
    and run: "sc_write sha cdc uuid now vid off data sc = (r, sc')"
  shows "\<exists>D'. sc_inv sha cdc U (insert uuid used) sc' D' \<and> sc_settings sc' = sc_settings sc \<and>
    ((case r of Inl e \<Rightarrow> Written (Inl e) | Inr x \<Rightarrow> Written (Inr (x \<noteq> None))), sc_view sc' D')
    = ctl_spec_step (cfg_default_block_size (sc_settings sc)) (CWrite uuid now vid off data) (sc_view sc D)"
proof (cases "dict_get (vm_volumes (sc_volume_manager sc)) vid")
  case None
  then have "r = Inr None" "sc' = sc" using run by (simp_all add: sc_write_def vm_get_volume_def)
  then show ?thesis
    using inv None by (intro exI[of _ D]) (auto simp: sc_inv_def sc_view_def)
next
  case (Some v)
  note I = sc_invD[OF inv]
  let ?bs = "cfg_default_block_size (sc_settings sc)" and ?vols = "vm_volumes (sc_volume_manager sc)"
  have view: "sc_view sc D vid
      = Some (v_size_bytes v, \<lambda>off. map_option (\<lambda>_. D vid off) (dict_get (v_blocks v) off))"
    using Some by (simp add: sc_view_def)
  show ?thesis
  proof (cases "off mod ?bs = 0")
    case False
    then have "r = Inl (ValueError ''Offset must be aligned to block size'')" "sc' = sc"
      using run Some I(4) by (simp_all add: sc_write_def vm_get_volume_def)
    then show ?thesis using inv False view by (intro exI[of _ D]) (auto simp: sc_inv_def)
  next
    case True
    have "fb_stored (pe_backend (sc_purity sc)) uuid = None" using I(5) fresh by blast
    then obtain rr pe' where rr: "reduce_and_store (file_backend_ops sha) sha cdc uuid data (sc_purity sc) = (Inr rr, pe')"
      and pe': "pe_inv (fb_inv sha) fb_stored sha cdc U pe'
        (add_mset (rr_block_id rr, dr_fingerprint (rr_dedupe_result rr), data) (vol_refs ?vols D))"
      and st: "dom (fb_stored (pe_backend pe')) \<subseteq> insert uuid (dom (fb_stored (pe_backend (sc_purity sc))))"
      by (rule fb.inv_reduce_and_store[OF I(1) data])
    have st': "dom (fb_stored (pe_backend pe')) \<subseteq> insert uuid used" using st I(5) by blast
    obtain w vm' where w: "vm_write_block now vid off (rr_block_id rr) (dr_fingerprint (rr_dedupe_result rr))
        (int (length data)) (rr_stored_size rr) (sc_volume_manager sc) = (w, vm')"
      by (metis surj_pair)
    have sc': "sc' = sc\<lparr>sc_purity := pe', sc_volume_manager := vm'\<rparr>"
      "(case r of Inl e \<Rightarrow> Written (Inl e) | Inr x \<Rightarrow> Written (Inr (x \<noteq> None)))
       = (case w of Inl e \<Rightarrow> Written (Inl e) | Inr x \<Rightarrow> Written (Inr True))"
      using run Some True I(4) rr w by (auto simp: sc_write_def vm_get_volume_def split: sum.splits)
    from write_stored[OF inv Some pe' st' w sc'(1)] show ?thesis
      using sc' True view by (elim exE) (auto split: if_splits)
  qed
qed

lemma snapshot_steps_keep:
  assumes "sc_create_snapshot strftime uuid now vid name description sc = (s, sc') \<or>
    sc_delete_snapshot sid sc = (r, sc')"
  shows "\<exists>sm. sc' = sc\<lparr>sc_snapshot_manager := sm\<rparr>"
  using assms
proof
  have same: "\<exists>sm. sc = sc\<lparr>sc_snapshot_manager := sm\<rparr>" by (intro exI[of _ "sc_snapshot_manager sc"]) simp
  show ?thesis if "sc_create_snapshot strftime uuid now vid name description sc = (s, sc')"
    using that same by (auto simp: sc_create_snapshot_def split: option.splits prod.splits)
  show ?thesis if "sc_delete_snapshot sid sc = (r, sc')"
    using that same by (auto simp: sc_delete_snapshot_def split: option.splits prod.splits)
qed

lemma sc_step_refines:
  assumes inv: "sc_inv sha cdc U used sc D" and run: "sc_step sha cdc strftime c sc = (a, sc')"
    and "set (ctl_ids c) \<inter> used = {}" and "set (ctl_data c) \<subseteq> U"
  shows "\<exists>D'. sc_inv sha cdc U (used \<union> set (ctl_ids c)) sc' D' \<and> sc_settings sc' = sc_settings sc \<and>
    ctl_spec_step (cfg_default_block_size (sc_settings sc)) c (sc_view sc D) = (a, sc_view sc' D')"
proof (cases c)
  case (CCreate uuid now name size_gb)
  obtain v where "sc_create_volume uuid now name size_gb [] None sc = (v, sc')" "a = Created (v_id v)"
    using run CCreate by (auto split: prod.splits)
  then show ?thesis using create_refines[OF inv, of uuid now name size_gb "[]" None v sc'] assms(3) CCreate
    by (intro exI[of _ D]) simp
next
  case (CWrite uuid now vid off data)
  obtain r where r: "sc_write sha cdc uuid now vid off data sc = (r, sc')"
    "a = (case r of Inl e \<Rightarrow> Written (Inl e) | Inr x \<Rightarrow> Written (Inr (x \<noteq> None)))"
    using run CWrite by (auto split: prod.splits sum.splits)
  have "uuid \<notin> used" "data \<in> U" using assms(3,4) CWrite by simp_all
  from write_refines[OF inv this r(1)] obtain D' where
    "sc_inv sha cdc U (insert uuid used) sc' D'" "sc_settings sc' = sc_settings sc"
    "(a, sc_view sc' D') = ctl_spec_step (cfg_default_block_size (sc_settings sc)) c (sc_view sc D)"
    using r(2) CWrite by blast
  then show ?thesis using CWrite by (intro exI[of _ D']) (simp del: ctl_spec_step.simps)
next
  case (CRead vid off)
  obtain r where r: "sc_read sha cdc vid off sc = (r, sc')"
    "a = (case r of Inl e \<Rightarrow> ReadData (Inl e) | Inr x \<Rightarrow> ReadData (Inr (map_option rd_data x)))"
    using run CRead by (auto split: prod.splits sum.splits)
  from read_refines[OF inv r(1)] show ?thesis using r(2) CRead by (intro exI[of _ D]) auto
next
  case (CDeleteVolume vid)
  obtain ok where "sc_delete_volume sha vid sc = (ok, sc')" "a = VolumeDeleted ok"
    using run CDeleteVolume by (auto split: prod.splits)
  then show ?thesis using delete_refines[OF inv, of vid ok sc'] CDeleteVolume by (intro exI[of _ D]) simp
next
  case (CSnapshot uuid now vid)
  obtain s where "sc_create_snapshot strftime uuid now vid None [] sc = (s, sc')" "a = SnapshotDone"
    using run CSnapshot by (auto split: prod.splits)
  then show ?thesis
    using snapshot_steps_keep[of strftime uuid now vid None "[]" sc s sc'] inv CSnapshot
    by (intro exI[of _ D]) (auto simp: sc_inv_def sc_view_def fun_eq_iff)
next
  case (CDeleteSnapshot sid)
  obtain r where "sc_delete_snapshot sid sc = (r, sc')" "a = SnapshotDone"
    using run CDeleteSnapshot by (auto split: prod.splits)
  then show ?thesis
    using snapshot_steps_keep[of strftime "[]" 0 "[]" None "[]" sc None sc' sid r] inv CDeleteSnapshot
    by (intro exI[of _ D]) (auto simp: sc_inv_def sc_view_def fun_eq_iff)
qed

definition sc_rel ::
    "(bytes \<Rightarrow> string) \<Rightarrow> codecs \<Rightarrow> bytes set \<Rightarrow> settings \<Rightarrow> string set \<Rightarrow> controller \<Rightarrow> ctl_spec \<Rightarrow> bool" where
  "sc_rel sha cdc U cfg used sc m \<longleftrightarrow>
     sc_settings sc = cfg \<and> (\<exists>D. sc_inv sha cdc U used sc D \<and> m = sc_view sc D)"

interpretation controllers: simulation "sc_step sha cdc strftime" "ctl_spec_step (cfg_default_block_size cfg)" "\<lambda>a. a"
    "sc_rel sha cdc U cfg" ctl_ids "\<lambda>c. set (ctl_data c) \<subseteq> U"
  for sha cdc strftime U cfg
proof
  fix used sc m c a sc'
  assume rel: "sc_rel sha cdc U cfg used sc m" and "set (ctl_data c) \<subseteq> U" "set (ctl_ids c) \<inter> used = {}"
    and run: "sc_step sha cdc strftime c sc = (a, sc')"
  moreover obtain D where "sc_inv sha cdc U used sc D" "m = sc_view sc D" "sc_settings sc = cfg"
    using rel by (auto simp: sc_rel_def)
  ultimately show "\<exists>n. ctl_spec_step (cfg_default_block_size cfg) c m = (a, n) \<and>
      sc_rel sha cdc U cfg (used \<union> set (ctl_ids c)) sc' n"
    using sc_step_refines[OF _ run, of U used D] by (auto simp: sc_rel_def)
qed

lemma sc_inv_init:
  assumes "StorageController cfg = Inr sc0" and "all_stages_on cfg" and "cfg_default_block_size cfg \<noteq> 0"
    and "codecs_ok cdc" and "collision_free sha U" and "\<forall>d \<in> U. storable (cfg_default_block_size cfg) d"
  shows "sc_inv sha cdc U {} sc0 D" "sc_view sc0 D = (\<lambda>_. None)" "sc_settings sc0 = cfg"
proof -
  obtain pe where pe: "PurityEngine FileBackend cfg = Inr pe" and sc0: "sc_purity sc0 = pe"
    "sc_volume_manager sc0 = VolumeManager (cfg_default_block_size cfg)" "sc_settings sc0 = cfg"
    using assms(1) by (auto simp: StorageController_def split: sum.splits)
  have empty: "fb_stored FileBackend = (\<lambda>_. None)" by (rule ext) (rule fb_stored_init)
  have "pe_inv (fb_inv sha) fb_stored sha cdc U pe {#}"
    using fb.inv_engine[OF pe fb_inv_init empty assms(4) _ _ _ _ assms(5)] assms(2,6)
    by (simp add: all_stages_on_def)
  moreover have "pe_backend pe = FileBackend"
    using pe by (auto simp: PurityEngine_def split: sum.splits)
  ultimately show "sc_inv sha cdc U {} sc0 D"
    using sc0 assms(3) vm_inv_init[of "cfg_default_block_size cfg"] empty
    by (simp add: sc_inv_def vol_refs_def VolumeManager_def)
  show "sc_view sc0 D = (\<lambda>_. None)" using sc0 by (simp add: sc_view_def VolumeManager_def fun_eq_iff)
  show "sc_settings sc0 = cfg" by (rule sc0)
qed

section \<open>Properties\<close>

text \<open>
  C1. The storage controller behaves as a set of volumes, each a map from offsets to bytes. Over any
  history of creating volumes, writing, reading, deleting volumes, and taking and deleting snapshots, on a
  fresh controller with all reduction stages on, every answer is the one the specification gives: a
  write fails exactly when the volume is missing, the offset is not aligned or the block would end
  beyond the volume; a read returns the bytes last written at the offset of that volume, whatever was
  deduplicated, compressed or deleted in the other volumes. Cloning and restoring are not part of these histories: they share
  blocks without counting them, and deleting one volume then makes another unreadable. The hypotheses
  are those of the pipeline: blocks it can represent (\<open>storable\<close>), no hash collision among them, codecs that decompress what they
  compressed, and ids that are not reused.
\<close>

theorem controller_refines_volumes:
  assumes "StorageController cfg = Inr sc0" and "all_stages_on cfg" and "cfg_default_block_size cfg \<noteq> 0"
    and "codecs_ok cdc" and "collision_free sha (ctl_written calls)"
    and "\<forall>d \<in> ctl_written calls. storable (cfg_default_block_size cfg) d"
    and "distinct (ctl_uuids calls)"
    and "sc_run sha cdc strftime calls sc0 = (answers, sc)"
  shows "fst (ctl_spec_run (cfg_default_block_size cfg) calls (\<lambda>_. None)) = answers"
proof -
  note init = sc_inv_init[OF assms(1-6)]
  have "sc_rel sha cdc (ctl_written calls) cfg {} sc0 (\<lambda>_. None)"
    using init(1,2)[of "\<lambda>_ _. []"] init(3) by (auto simp: sc_rel_def)
  from controllers.run_refines[OF this _ assms(7) _ assms(8)] show ?thesis by fastforce
qed

lemma demo_storable: "\<forall>d \<in> {[1, 2]}. storable (cfg_default_block_size default_settings) d"
  using storable_short[of "[1, 2]"] by simp

lemma demo_controller: "\<exists>sc0. StorageController default_settings = Inr sc0"
proof -
  obtain pe where "PurityEngine FileBackend default_settings = Inr pe"
    using default_engine[of FileBackend] by (elim exE)
  moreover obtain fs where "DirectFlashSimulator default_settings = Inr fs"
    by (simp add: DirectFlashSimulator_def BlockManager_def default_settings_def)
  ultimately show ?thesis by (simp add: StorageController_def)
qed

lemma default_block_size: "cfg_default_block_size default_settings \<noteq> 0"
  by (simp add: default_settings_def)

theorem controller_refines_volumes_witness:
  "\<exists>sc0 sc. StorageController default_settings = Inr sc0 \<and>
     sc_run length_hash demo_codecs (\<lambda>_. [])
       [CCreate ''v1'' 1 ''vol'' 1, CWrite ''b1'' 2 ''v1'' 4096 [1, 2], CRead ''v1'' 4096, CRead ''v1'' 0] sc0
     = (fst (ctl_spec_run (cfg_default_block_size default_settings)
          [CCreate ''v1'' 1 ''vol'' 1, CWrite ''b1'' 2 ''v1'' 4096 [1, 2], CRead ''v1'' 4096, CRead ''v1'' 0]
          (\<lambda>_. None)), sc)"
proof -
  let ?calls = "[CCreate ''v1'' 1 ''vol'' 1, CWrite ''b1'' 2 ''v1'' 4096 [1, 2], CRead ''v1'' 4096, CRead ''v1'' 0]"
  obtain sc0 where sc0: "StorageController default_settings = Inr sc0" using demo_controller by (elim exE)
  obtain answers sc where run: "sc_run length_hash demo_codecs (\<lambda>_. []) ?calls sc0 = (answers, sc)"
    by (metis surj_pair)
  have data: "ctl_written ?calls = {[1, 2]}" by simp
  have c: "collision_free length_hash (ctl_written ?calls)" unfolding data by (rule demo_hash) simp
  have s: "\<forall>d \<in> ctl_written ?calls. storable (cfg_default_block_size default_settings) d"
    unfolding data by (rule demo_storable)
  have d: "distinct (ctl_uuids ?calls)" by simp
  from controller_refines_volumes [OF sc0 all_stages_on_default default_block_size demo_codecs_ok c s d run]
  have "sc_run length_hash demo_codecs (\<lambda>_. []) ?calls sc0
      = (fst (ctl_spec_run (cfg_default_block_size default_settings) ?calls (\<lambda>_. None)), sc)"
    using run by (simp only:)
  with sc0 show ?thesis by (intro exI conjI)
qed

lemma powi_step: "(2::rat) powi k * 1024 = 2 powi (k + 10)"
proof -
  have "(2::rat) powi 10 = 1024" by simp
  moreover have "(2::rat) powi (k + 10) = 2 powi k * 2 powi 10" by (rule power_int_add) simp
  ultimately show ?thesis by (simp only:)
qed

lemma fmul_1024:
  assumes "\<bar>n\<bar> \<le> 2 ^ 53"
  shows "fmul (of_int n * 2 powi k) 1024 = of_int n * 2 powi (k + 10)"
  unfolding fmul_def mult.assoc powi_step by (rule fl_exact[OF assms])

lemma gb_to_bytes_exact:
  assumes "\<bar>n\<bar> \<le> 2 ^ 53"
  shows "gb_to_bytes (bytes_to_gb n) = n"
proof -
  have "(2::rat) powi (- 30) = inverse (1024 ^ 3)" by simp
  then have "of_int n / (1024 ^ 3) = of_int n * (2::rat) powi (- 30)" by (simp only: divide_inverse)
  then have "bytes_to_gb n = of_int n * 2 powi (- 30)"
    unfolding bytes_to_gb_def fdiv_def by (simp only: fl_exact[OF assms])
  then have "fmul (fmul (fmul (bytes_to_gb n) 1024) 1024) 1024 = of_int n * 2 powi (- 30 + 10 + 10 + 10)"
    by (simp only: fmul_1024[OF assms])
  also have "\<dots> = of_int n" by simp
  finally show ?thesis unfolding gb_to_bytes_def by (simp only: py_int_of_int)
qed

text \<open>
  C22. Restoring a snapshot into a new volume gives back the volume of the snapshot: the same block map,
  the same number of used bytes, and the same size, although the size goes through gigabytes as
  a floating-point number; it is exact for every size up to 2^53 bytes.
\<close>

theorem restore_snapshot_roundtrip:
  assumes s: "sc_get_snapshot sc sid = Some s" and sz: "\<bar>sn_size_bytes s\<bar> \<le> 2 ^ 53"
    and run: "sc_restore_snapshot uuid now sid None sc = (r, sc')"
  shows "\<exists>v. r = Some v \<and> sc_get_volume sc' uuid = Some v \<and> v_blocks v = sn_blocks s \<and>
    v_size_bytes v = sn_size_bytes s \<and> v_used_bytes v = sn_used_bytes s"
proof -
  obtain v sc1 where c: "sc_create_volume uuid now (sn_volume_name s @ ''-restored'')
      (bytes_to_gb (sn_size_bytes s)) (''Restored from snapshot '' @ sn_name s) None sc = (v, sc1)"
    by (metis surj_pair)
  have v: "v_id v = uuid" "v_size_bytes v = gb_to_bytes (bytes_to_gb (sn_size_bytes s))"
    using c by (auto simp: sc_create_volume_def vm_create_volume_def Let_def split: prod.splits)
  have "r = Some (restore_blocks s v)"
    "sc' = sc1\<lparr>sc_volume_manager := put_volume (restore_blocks s v) (sc_volume_manager sc1)\<rparr>"
    using run s c by (simp_all add: sc_restore_snapshot_def sc_get_snapshot_def)
  then show ?thesis
    using v gb_to_bytes_exact[OF sz]
    by (simp add: restore_blocks_def put_volume_def sc_get_volume_def vm_get_volume_def)
qed

theorem restore_snapshot_roundtrip_witness:
  "\<exists>sc0 v sc'. StorageController default_settings = Inr sc0 \<and>
     sc_restore_snapshot ''v2'' 3 ''s1'' None (sc0\<lparr>sc_snapshot_manager := sm_demo\<rparr>) = (Some v, sc') \<and>
     v_size_bytes v = 100"
proof -
  obtain sc0 where sc0: "StorageController default_settings = Inr sc0" using demo_controller by (elim exE)
  let ?sc = "sc0\<lparr>sc_snapshot_manager := sm_demo\<rparr>"
  obtain s where s: "dict_get (sm_snapshots sm_demo) ''s1'' = Some s" "sn_size_bytes s = 100"
    by (simp add: sm_demo_def sm_create_snapshot_def vm_create_volume_def SnapshotManager_def Let_def)
  then have g: "sc_get_snapshot ?sc ''s1'' = Some s" by (simp add: sc_get_snapshot_def sm_get_snapshot_def)
  obtain r sc' where run: "sc_restore_snapshot ''v2'' 3 ''s1'' None ?sc = (r, sc')" by (metis surj_pair)
  have "\<bar>sn_size_bytes s\<bar> \<le> 2 ^ 53" using s(2) by simp
  from restore_snapshot_roundtrip [OF g this run] s(2) run sc0 show ?thesis by auto
qed

text \<open>The pipeline after one block was stored and its only reference dropped.\<close>

lemma drop_only_reference:
  assumes inv: "pe_inv (fb_inv sha) fb_stored sha cdc {data} pe {#}"
    and empty: "dd_table (pe_deduplication pe) = []" and fresh: "fb_stored (pe_backend pe) bid = None"
    and store: "reduce_and_store (file_backend_ops sha) sha cdc bid data pe = (r, pe1)"
  obtains rr where "r = Inr rr" "rr_block_id rr = bid"
    "fst (retrieve (file_backend_ops sha) cdc bid pe1) = Inr data"
    "fst (retrieve (file_backend_ops sha) cdc bid
       (snd (pe_delete (file_backend_ops sha) bid (dr_fingerprint (rr_dedupe_result rr)) pe1)))
     = Inl (KeyError ''Block not found'')"
proof -
  let ?ops = "file_backend_ops sha"
  note I = pe_invD[OF inv]
  have st: "storable (pr_min_block_size (pe_pattern_removal pe)) data" by (rule I(5)) simp
  have none: "dict_get (dd_table (pe_deduplication pe)) x = None" for x using empty by simp
  obtain rr pe' ce where n: "reduce_and_store ?ops sha cdc bid data pe = (Inr rr, pe')"
    "rr_block_id rr = bid" "dr_fingerprint (rr_dedupe_result rr) = sha (current_form data)"
    and core: "pe_core pe' = pe_core (pe\<lparr>
      pe_backend := snd (be_write_block ?ops bid (raw_form cdc ce data) (pe_backend pe)),
      pe_deduplication := snd (register_block sha (pe_deduplication pe) data bid)\<rparr>)"
    using reduce_and_store_new[OF I(1) st, of sha, OF none] by metis
  have pe1: "pe1 = pe'" "r = Inr rr" using n(1) store by simp_all
  have inv1: "pe_inv (fb_inv sha) fb_stored sha cdc {data} pe1 {#(bid, sha (current_form data), data)#}"
    using fb.inv_reduce_and_store[OF inv _ fresh, of data] n store pe1 by (metis insertI1 prod.inject sum.inject(2))
  have fetch: "fst (retrieve ?ops cdc bid pe1) = Inr data"
    by (rule fb.inv_retrieve[OF inv1, of bid "sha (current_form data)" data]) auto
  have b: "pe_backend pe1 = snd (be_write_block ?ops bid (raw_form cdc ce data) (pe_backend pe))"
    and dd: "pe_deduplication pe1 = snd (register_block sha (pe_deduplication pe) data bid)"
    using core pe1 by (simp_all add: pe_core_def)
  have stored: "fb_inv sha (pe_backend pe1)" "fb_stored (pe_backend pe1) bid = Some (raw_form cdc ce data, 1)"
    using fb.write_new[OF I(2) fresh, of "raw_form cdc ce data"] b by (metis prod.collapse fun_upd_same)+
  have "fst (dereference_block (pe_deduplication pe1) (sha (current_form data))) = 0"
  proof (cases "sha (current_form data) = sha data")
    case True
    have "dict_get (dd_table (pe_deduplication pe1)) (sha data) = Some \<lparr> de_fingerprint = sha data,
        de_block_id = bid, de_size = int (length data), de_reference_count = 1 \<rparr>"
      unfolding dd by (rule table_register(2)[OF none])
    then show ?thesis using True table_dereference(3) by fastforce
  next
    case False
    then have "dict_get (dd_table (pe_deduplication pe1)) (sha (current_form data)) = None"
      unfolding dd using none by (simp add: table_register(1))
    then show ?thesis by (simp add: table_dereference(2))
  qed
  then obtain dd' where dr: "dereference_block (pe_deduplication pe1) (sha (current_form data)) = (0, dd')"
    by (metis prod.collapse)
  obtain ok b' where del: "be_delete_block ?ops bid (pe_backend pe1) = (ok, b')"
    by (cases "be_delete_block ?ops bid (pe_backend pe1)")
  have gone: "fb_inv sha b'" "fb_stored b' bid = None" using fb.delete_present[OF stored del] by auto
  have "snd (pe_delete ?ops bid (sha (current_form data)) pe1) = pe1\<lparr>pe_deduplication := dd', pe_backend := b'\<rparr>"
    using dr del by (simp add: pe_delete_def Let_def)
  moreover obtain x b2 where "be_read_block ?ops bid b' = (x, b2)" by (cases "be_read_block ?ops bid b'")
  moreover from this have "x = Inl (KeyError ''Block not found'')" using fb.read[OF gone(1)] gone(2) by fastforce
  ultimately have "fst (retrieve ?ops cdc bid (snd (pe_delete ?ops bid (sha (current_form data)) pe1)))
      = Inl (KeyError ''Block not found'')"
    by (simp add: retrieve_def)
  then show thesis using that[of rr] pe1 n fetch by simp
qed

lemma read_cases:
  assumes "dict_get (vm_volumes (sc_volume_manager sc)) vid = Some v" and "dict_get (v_blocks v) off = Some b"
  shows "fst (sc_read sha cdc vid off sc)
    = (case fst (retrieve (file_backend_ops sha) cdc (vb_block_id b) (sc_purity sc)) of
         Inl e \<Rightarrow> Inl e
       | Inr d \<Rightarrow> Inr (Some \<lparr>rd_volume_id = vid, rd_offset = off, rd_data = d, rd_size = int (length d)\<rparr>))"
  using assms
  by (cases "retrieve (file_backend_ops sha) cdc (vb_block_id b) (sc_purity sc)")
    (simp add: sc_read_def vm_get_volume_def vm_get_block_def split: sum.splits)

lemma clone_effect:
  assumes v: "dict_get (vm_volumes (sc_volume_manager sc)) vid = Some v" and bs: "v_blocks v = [(off, b)]"
    and ne: "vid \<noteq> cid" and sc': "sc' = snd (sc_clone_volume cid now vid new_name description sc)"
  obtains c where "dict_get (vm_volumes (sc_volume_manager sc')) cid = Some c" "v_blocks c = [(off, b)]"
    "dict_get (vm_volumes (sc_volume_manager sc')) vid = Some v" "sc_purity sc' = sc_purity sc"
  using assms
  by (simp add: sc_clone_volume_def vm_clone_volume_def vm_create_volume_def put_volume_def Let_def)

lemma delete_effect:
  assumes v: "dict_get (vm_volumes (sc_volume_manager sc)) vid = Some v" and bs: "v_blocks v = [(off, b)]"
    and sc': "sc' = snd (sc_delete_volume sha vid sc)"
  shows "sc_purity sc' = snd (pe_delete (file_backend_ops sha) (vb_block_id b) (vb_fingerprint b) (sc_purity sc))"
    and "cid \<noteq> vid \<Longrightarrow> dict_get (vm_volumes (sc_volume_manager sc')) cid
      = dict_get (vm_volumes (sc_volume_manager sc)) cid"
  using assms
  by (simp_all add: sc_delete_volume_def vm_get_volume_def vm_delete_volume_def Let_def delete_conv')

lemma first_write:
  assumes inv: "sc_inv sha cdc {data} used sc D" and v: "dict_get (vm_volumes (sc_volume_manager sc)) vid = Some v"
    and bs: "v_blocks v = []" and sz: "int (length data) \<le> v_size_bytes v"
    and rr: "reduce_and_store (file_backend_ops sha) sha cdc bid data (sc_purity sc) = (Inr rr, pe)"
    and sc': "sc' = snd (sc_write sha cdc bid now vid 0 data sc)"
  obtains v' b where "dict_get (vm_volumes (sc_volume_manager sc')) vid = Some v'" "v_blocks v' = [(0, b)]"
    "vb_block_id b = rr_block_id rr" "vb_fingerprint b = dr_fingerprint (rr_dedupe_result rr)" "sc_purity sc' = pe"
proof -
  note I = sc_invD[OF inv]
  obtain w vm' where w: "vm_write_block now vid 0 (rr_block_id rr) (dr_fingerprint (rr_dedupe_result rr))
      (int (length data)) (rr_stored_size rr) (sc_volume_manager sc) = (w, vm')"
    by (metis surj_pair)
  have sc'_eq: "sc' = sc\<lparr>sc_purity := pe, sc_volume_manager := vm'\<rparr>"
    using sc' v I(4) rr w by (simp add: sc_write_def vm_get_volume_def split: sum.splits)
  obtain v' where "vm_volumes vm' = dict_set vid v' (vm_volumes (sc_volume_manager sc))"
    "v_blocks v' = dict_set 0 \<lparr>vb_offset = 0, vb_block_id = rr_block_id rr,
       vb_fingerprint = dr_fingerprint (rr_dedupe_result rr), vb_size = int (length data)\<rparr> (v_blocks v)"
    using write_block_effect[OF I(2) v w] sz by auto
  then show thesis using that[of v'] sc'_eq bs by simp
qed

text \<open>
  C37. Clones share blocks with their source without holding references to them: when a volume is
  created, written, cloned and then deleted, the clone returns the data before the deletion, and after it
  every read of the shared block raises KeyError, for any data.
\<close>

theorem clone_loses_data:
  assumes "StorageController cfg = Inr sc0" and "all_stages_on cfg" and "cfg_default_block_size cfg \<noteq> 0"
    and "codecs_ok cdc" and "collision_free sha {data}" and "\<forall>d \<in> {data}. storable (cfg_default_block_size cfg) d"
    and size: "int (length data) \<le> gb_to_bytes size_gb" and ne: "vid \<noteq> cid"
    and sc1: "sc1 = snd (sc_create_volume vid now name size_gb description tags sc0)"
    and sc2: "sc2 = snd (sc_write sha cdc bid now vid 0 data sc1)"
    and sc3: "sc3 = snd (sc_clone_volume cid now vid clone_name clone_text sc2)"
    and sc4: "sc4 = snd (sc_delete_volume sha vid sc3)"
  shows "fst (sc_read sha cdc cid 0 sc3) = Inr (Some \<lparr>rd_volume_id = cid, rd_offset = 0, rd_data = data,
      rd_size = int (length data)\<rparr>) \<and>
    fst (sc_read sha cdc cid 0 sc4) = Inl (KeyError ''Block not found'')"
proof -
  note init = sc_inv_init[OF assms(1-6)]
  obtain v where c1: "sc_create_volume vid now name size_gb description tags sc0 = (v, sc1)"
    using sc1 by (metis prod.collapse)
  have inv1: "sc_inv sha cdc {data} (insert vid {}) sc1 (\<lambda>_ _. [])"
    using create_refines[OF init(1) _ c1] by simp
  have v: "dict_get (vm_volumes (sc_volume_manager sc1)) vid = Some v" "v_blocks v = []"
      "v_size_bytes v = gb_to_bytes size_gb" "sc_purity sc1 = sc_purity sc0"
    using c1 by (auto simp: sc_create_volume_def vm_create_volume_def put_volume_def Let_def)
  have empty: "dd_table (pe_deduplication (sc_purity sc0)) = []" "fb_stored (pe_backend (sc_purity sc0)) bid = None"
    "vol_refs (vm_volumes (sc_volume_manager sc0)) D = {#}" for D
    using assms(1) fb_stored_init[of bid]
    by (auto simp: StorageController_def PurityEngine_def DeduplicationEngine_def VolumeManager_def vol_refs_def
        split: sum.splits)
  obtain r pe where store: "reduce_and_store (file_backend_ops sha) sha cdc bid data (sc_purity sc0) = (r, pe)"
    by (metis surj_pair)
  have "pe_inv (fb_inv sha) fb_stored sha cdc {data} (sc_purity sc0) {#}"
    using sc_invD(1)[OF init(1)] empty(3) by simp
  then obtain rr where rr: "r = Inr rr" "rr_block_id rr = bid"
    and before: "fst (retrieve (file_backend_ops sha) cdc bid pe) = Inr data"
    and after: "fst (retrieve (file_backend_ops sha) cdc bid
       (snd (pe_delete (file_backend_ops sha) bid (dr_fingerprint (rr_dedupe_result rr)) pe)))
     = Inl (KeyError ''Block not found'')"
    by (rule drop_only_reference[OF _ empty(1,2) store])
  obtain v2 b where v2: "dict_get (vm_volumes (sc_volume_manager sc2)) vid = Some v2" "v_blocks v2 = [(0, b)]"
    "vb_block_id b = bid" "vb_fingerprint b = dr_fingerprint (rr_dedupe_result rr)" "sc_purity sc2 = pe"
    using first_write[OF inv1 v(1,2) _ _ sc2] size store v(3,4) rr by metis
  obtain c where c: "dict_get (vm_volumes (sc_volume_manager sc3)) cid = Some c" "v_blocks c = [(0, b)]"
    "dict_get (vm_volumes (sc_volume_manager sc3)) vid = Some v2" "sc_purity sc3 = pe"
    using clone_effect[OF v2(1,2) ne sc3] v2(5) by metis
  have blk: "dict_get (v_blocks c) 0 = Some b" using c(2) by simp
  have del: "dict_get (vm_volumes (sc_volume_manager sc4)) cid = Some c"
    "sc_purity sc4 = snd (pe_delete (file_backend_ops sha) bid (dr_fingerprint (rr_dedupe_result rr)) pe)"
    using delete_effect[OF c(3) v2(2) sc4] c(1,4) v2(3,4) ne by simp_all
  show ?thesis
    using read_cases[OF c(1) blk] read_cases[OF del(1) blk] before after c(4) del(2) v2(3) by simp
qed

theorem clone_loses_data_witness:
  "\<exists>sc0 sc3 sc4. StorageController default_settings = Inr sc0 \<and>
     fst (sc_read length_hash demo_codecs ''v2'' 0 sc3) = Inr (Some \<lparr>rd_volume_id = ''v2'', rd_offset = 0,
       rd_data = [1, 2], rd_size = 2\<rparr>) \<and>
     sc4 = snd (sc_delete_volume length_hash ''v1'' sc3) \<and>
     fst (sc_read length_hash demo_codecs ''v2'' 0 sc4) = Inl (KeyError ''Block not found'')"
proof -
  obtain sc0 where sc0: "StorageController default_settings = Inr sc0" using demo_controller by (elim exE)
  have c: "collision_free length_hash {[1, 2]}" by (rule demo_hash) simp
  have one: "gb_to_bytes 1 = 1073741824"
    using gb_to_bytes_exact[of 1073741824] fl_exact[of 1 0] by (simp add: bytes_to_gb_def fdiv_def)
  have len: "int (length [1::8 word, 2]) \<le> gb_to_bytes 1" unfolding one by simp
  from clone_loses_data [OF sc0 all_stages_on_default default_block_size demo_codecs_ok c demo_storable len
      _ refl refl refl refl, where vid = "''v1''" and cid = "''v2''" and bid = "''b1''" and now = 1
      and name = "''vol''" and description = "[]" and tags = None and clone_name = "''clone''" and clone_text = "[]"]
  show ?thesis using sc0 by auto
qed

end
