(* ===== verification/Api.thy ===== *)
theory Api
  imports Storage_Controller
begin

text \<open>
  What the route modules of \<^verbatim>\<open>api/routes\<close> share. A handler is an \<^verbatim>\<open>async def\<close> without interleaving
  of its own state: it takes its parsed request and the module-level singleton and returns what the client gets.
  Parsing of URLs and JSON and the text of error pages belong to the framework and are not modelled; a
  request that does not satisfy its schema never reaches the handler, and an exception that the handler
  does not translate leaves it.
\<close>

section \<open>Responses\<close>

datatype 'a response =
    Reply nat 'a
  | HTTPException nat string
  | Rejected
  | Raised py_error

type_synonym ('g, 'a) handler = "'g \<Rightarrow> 'a response \<times> 'g"

text \<open>The status codes of \<^verbatim>\<open>fastapi.status\<close> that the routes use.\<close>

abbreviation HTTP_200_OK :: nat where "HTTP_200_OK \<equiv> 200"
abbreviation HTTP_201_CREATED :: nat where "HTTP_201_CREATED \<equiv> 201"
abbreviation HTTP_204_NO_CONTENT :: nat where "HTTP_204_NO_CONTENT \<equiv> 204"
abbreviation HTTP_400_BAD_REQUEST :: nat where "HTTP_400_BAD_REQUEST \<equiv> 400"
abbreviation HTTP_404_NOT_FOUND :: nat where "HTTP_404_NOT_FOUND \<equiv> 404"
abbreviation HTTP_500_INTERNAL_SERVER_ERROR :: nat where "HTTP_500_INTERNAL_SERVER_ERROR \<equiv> 500"

text \<open>A handler behind its schema.\<close>

definition validated :: "bool \<Rightarrow> ('g, 'a) handler \<Rightarrow> ('g, 'a) handler" where
  "validated valid handle g = (if valid then handle g else (Rejected, g))"

text \<open>The first line of the handlers: \<^verbatim>\<open>controller = await get_controller()\<close>.\<close>

definition with_controller ::
    "settings \<Rightarrow> (controller \<Rightarrow> 'a response \<times> controller) \<Rightarrow> (controller option, 'a) handler" where
  "with_controller cfg handle g =
     (case get_controller cfg g of
        (Inl e, g) \<Rightarrow> (Raised e, g)
      | (Inr sc, g) \<Rightarrow> (case handle sc of (r, sc) \<Rightarrow> (r, Some sc)))"

text \<open>\<^verbatim>\<open>f"Volume {volume_id} not found"\<close>\<close>

definition volume_not_found :: "string \<Rightarrow> string" where
  "volume_not_found vid = ''Volume '' @ vid @ '' not found''"

definition snapshot_not_found :: "string \<Rightarrow> string" where
  "snapshot_not_found sid = ''Snapshot '' @ sid @ '' not found''"

section \<open>The controller behind the singleton\<close>

lemma get_controller_Some [simp]: "get_controller cfg (Some sc) = (Inr sc, Some sc)"
  by (simp add: get_controller_def)

lemma with_controller_run:
  assumes "get_controller cfg g = (Inr sc, g')" and "with_controller cfg handle g = (r, g'')"
  obtains sc' where "handle sc = (r, sc')" "g'' = Some sc'"
  using assms by (auto simp: with_controller_def split: prod.splits)

lemma sc_inv_initialize:
  assumes "sc_inv sha cdc U used sc D"
  shows "sc_inv sha cdc U used (sc_initialize sc) D" "sc_view (sc_initialize sc) D = sc_view sc D"
    "sc_settings (sc_initialize sc) = sc_settings sc" "sc_snapshot_manager (sc_initialize sc) = sc_snapshot_manager sc"
proof -
  let ?fb = "pe_backend (sc_purity sc)"
  have same: "fb_inv sha (fb_initialize ?fb) = fb_inv sha ?fb \<and> fb_stored (fb_initialize ?fb) = fb_stored ?fb"
    by (rule fb_files_same) (simp add: fb_initialize_def fb_files_def fun_eq_iff)
  then show "sc_inv sha cdc U used (sc_initialize sc) D"
    using assms by (simp add: sc_initialize_def sc_inv_def pe_inv_def)
qed (simp_all add: sc_initialize_def sc_view_def fun_eq_iff)

end
