(* ===== verification/Base64.thy ===== *)
theory Base64
  imports Prelude
begin

text \<open>
  The functions of the standard library that the volume routes use on payloads: \<^verbatim>\<open>base64.b64encode\<close> and
  \<^verbatim>\<open>base64.b64decode\<close> with their default arguments. The decoder is the lenient one: characters outside the alphabet are
  skipped, a complete padding ends the input, and anything left over then is an error.
\<close>

section \<open>The alphabet\<close>

definition b64_char :: "nat \<Rightarrow> char" where
  "b64_char v = char_of (if v < 26 then v + 65 else if v < 52 then v + 71 else if v < 62 then v - 4
     else if v = 62 then 43 else 47)"

definition b64_value :: "char \<Rightarrow> nat option" where
  "b64_value ch =
     (let n = of_char ch :: nat
      in if 65 \<le> n \<and> n \<le> 90 then Some (n - 65) else if 97 \<le> n \<and> n \<le> 122 then Some (n - 71)
         else if 48 \<le> n \<and> n \<le> 57 then Some (n + 4) else if n = 43 then Some 62
         else if n = 47 then Some 63 else None)"

lemma of_char_b64_char:
  "v < 64 \<Longrightarrow> (of_char (b64_char v) :: nat) = (if v < 26 then v + 65 else if v < 52 then v + 71 else if v < 62 then v - 4
     else if v = 62 then 43 else 47)"
  by (simp add: b64_char_def)

lemma b64_value_char [simp]: "v < 64 \<Longrightarrow> b64_value (b64_char v) = Some v"
  by (auto simp: b64_value_def of_char_b64_char Let_def)

lemma b64_char_ascii: "v < 64 \<Longrightarrow> (of_char (b64_char v) :: nat) < 128"
  by (auto simp: of_char_b64_char)

lemma b64_char_not_pad [simp]: "v < 64 \<Longrightarrow> b64_char v \<noteq> CHR ''=''"
proof
  assume "v < 64" "b64_char v = CHR ''=''"
  then have "(of_char (b64_char v) :: nat) = 61" by simp
  with \<open>v < 64\<close> show False by (auto simp: of_char_b64_char split: if_splits)
qed

section \<open>Encoding and decoding\<close>

fun b64encode :: "bytes \<Rightarrow> string" where
  "b64encode [] = []"
| "b64encode [a] =
     [b64_char (unat a div 4), b64_char (unat a mod 4 * 16), CHR ''='', CHR ''='']"
| "b64encode [a, b] =
     [b64_char (unat a div 4), b64_char (unat a mod 4 * 16 + unat b div 16), b64_char (unat b mod 16 * 4), CHR ''='']"
| "b64encode (a # b # c # rest) =
     [b64_char (unat a div 4), b64_char (unat a mod 4 * 16 + unat b div 16),
      b64_char (unat b mod 16 * 4 + unat c div 64), b64_char (unat c mod 64)] @ b64encode rest"

definition cons_byte :: "nat \<Rightarrow> bytes result \<Rightarrow> bytes result" where
  "cons_byte n r = (case r of Inl e \<Rightarrow> Inl e | Inr bs \<Rightarrow> Inr (of_nat n # bs))"

text \<open>The position in the group of four, the bits left over from the last character, the pads seen.\<close>

fun b64_loop :: "string \<Rightarrow> nat \<Rightarrow> nat \<Rightarrow> nat \<Rightarrow> bytes result" where
  "b64_loop [] quad left pads =
     (if quad = 0 then Inr [] else Inl (ValueError ''Invalid base64-encoded string''))"
| "b64_loop (ch # cs) quad left pads =
     (if ch = CHR ''='' then
        if quad \<ge> 2 then
          if quad + (pads + 1) \<ge> 4 then Inr [] else b64_loop cs quad left (pads + 1)
        else b64_loop cs quad left pads
      else case b64_value ch of
             None \<Rightarrow> b64_loop cs quad left pads
           | Some v \<Rightarrow>
               if quad = 0 then b64_loop cs 1 v 0
               else if quad = 1 then cons_byte (left * 4 + v div 16) (b64_loop cs 2 (v mod 16) 0)
               else if quad = 2 then cons_byte (left * 16 + v div 4) (b64_loop cs 3 (v mod 4) 0)
               else cons_byte (left * 64 + v) (b64_loop cs 0 0 0))"

definition b64decode :: "string \<Rightarrow> bytes result" where
  "b64decode s =
     (if list_all (\<lambda>ch. (of_char ch :: nat) < 128) s then b64_loop s 0 0 0
      else Inl (ValueError ''string argument should contain only ASCII characters''))"

section \<open>Round trip\<close>

lemma unat_byte: "unat (b :: 8 word) < 256"
  by (rule order_less_le_trans[OF unsigned_less]) simp

lemma sextets:
  "unat (a :: 8 word) div 4 < 64" "unat a mod 4 * 16 < 64" "unat a mod 4 * 16 + unat (b :: 8 word) div 16 < 64"
  "unat b mod 16 * 4 < 64" "unat b mod 16 * 4 + unat (c :: 8 word) div 64 < 64" "unat c mod 64 < 64"
  using unat_byte[of a] unat_byte[of b] unat_byte[of c] by auto

lemma bytes_of_sextets:
  "unat a div 4 * 4 + unat a mod 4 * 16 div 16 = unat a"
  "unat a div 4 * 4 + (unat a mod 4 * 16 + unat (b :: 8 word) div 16) div 16 = unat a"
  "(unat a mod 4 * 16 + unat (b :: 8 word) div 16) mod 16 * 16 + unat b mod 16 * 4 div 4 = unat b"
  "(unat a mod 4 * 16 + unat (b :: 8 word) div 16) mod 16 * 16 + (unat b mod 16 * 4 + unat (c :: 8 word) div 64) div 4 = unat b"
  "(unat b mod 16 * 4 + unat (c :: 8 word) div 64) mod 4 * 64 + unat c mod 64 = unat c"
proof -
  have b: "unat b div 16 < 16" and c: "unat c div 64 < 4" using unat_byte[of b] unat_byte[of c] by auto
  show "unat a div 4 * 4 + unat a mod 4 * 16 div 16 = unat a" by simp
  show "unat a div 4 * 4 + (unat a mod 4 * 16 + unat b div 16) div 16 = unat a" using b by simp
  show "(unat a mod 4 * 16 + unat b div 16) mod 16 * 16 + unat b mod 16 * 4 div 4 = unat b" using b by simp
  show "(unat a mod 4 * 16 + unat b div 16) mod 16 * 16 + (unat b mod 16 * 4 + unat c div 64) div 4 = unat b"
    using b c by simp
  show "(unat b mod 16 * 4 + unat c div 64) mod 4 * 64 + unat c mod 64 = unat c" using c by simp
qed

lemma b64_loop_encode: "b64_loop (b64encode data) 0 0 0 = Inr data"
proof (induction data rule: b64encode.induct)
  case (2 a)
  then show ?case using bytes_of_sextets(1)[of a] by (simp add: sextets cons_byte_def)
next
  case (3 a b)
  then show ?case
    using bytes_of_sextets(2)[of a b] bytes_of_sextets(3)[of a b] by (simp add: sextets cons_byte_def)
next
  case (4 a b c rest)
  then show ?case
    using bytes_of_sextets(2)[of a b] bytes_of_sextets(4)[of a b c] bytes_of_sextets(5)[of b c]
    by (simp add: sextets cons_byte_def)
qed simp

lemma b64encode_ascii: "list_all (\<lambda>ch. (of_char ch :: nat) < 128) (b64encode data)"
  by (induction data rule: b64encode.induct) (simp_all add: sextets b64_char_ascii)

lemma b64decode_encode [simp]: "b64decode (b64encode data) = Inr data"
  by (simp add: b64decode_def b64encode_ascii b64_loop_encode)

end
