(* ===== verification/Volume_Api.thy ===== *)
theory Volume_Api
  imports Api Base64
begin

text \<open>
  \<^verbatim>\<open>api/routes/volumes.py\<close> with \<^verbatim>\<open>api/schemas/volume.py\<close>: the handlers of the volume resource. The
  constraints of the schemas are predicates on the parsed requests. Each handler is related to the specification
  of volumes of the controller by one lemma.
\<close>

section \<open>Schemas\<close>

record volume_create =
  vc_name :: string
  vc_size_gb :: double
  vc_description :: string
  vc_tags :: tags

record volume_update =
  vu_name :: "string option"
  vu_description :: "string option"
  vu_tags :: "tags option"

record volume_resize =
  vz_size_gb :: double

record volume_clone =
  vl_name :: string
  vl_description :: string

record write_request =
  wq_offset :: int
  wq_data :: string

text \<open>\<^verbatim>\<open>Field(..., min_length=1, max_length=255)\<close> and \<^verbatim>\<open>Field(..., gt=0, le=1024)\<close>\<close>

definition valid_name :: "string \<Rightarrow> bool" where
  "valid_name name \<longleftrightarrow> 1 \<le> length name \<and> length name \<le> 255"

definition valid_size_gb :: "double \<Rightarrow> bool" where
  "valid_size_gb size_gb \<longleftrightarrow> 0 < size_gb \<and> size_gb \<le> 1024"

definition VolumeCreate :: "volume_create \<Rightarrow> bool" where
  "VolumeCreate request \<longleftrightarrow> valid_name (vc_name request) \<and> valid_size_gb (vc_size_gb request)"

definition VolumeResize :: "volume_resize \<Rightarrow> bool" where
  "VolumeResize request \<longleftrightarrow> valid_size_gb (vz_size_gb request)"

definition VolumeClone :: "volume_clone \<Rightarrow> bool" where
  "VolumeClone request \<longleftrightarrow> valid_name (vl_name request)"

definition WriteRequest :: "write_request \<Rightarrow> bool" where
  "WriteRequest request \<longleftrightarrow> 0 \<le> wq_offset request"

record volume_response =
  vp_id :: string
  vp_name :: string
  vp_size_bytes :: int
  vp_used_bytes :: int
  vp_state :: string
  vp_description :: string
  vp_created_at :: int
  vp_updated_at :: int
  vp_tags :: tags
  vp_reduction_ratio :: double

record volume_list_response =
  vlr_volumes :: "volume_response list"
  vlr_total :: int

record write_response =
  wp_volume_id :: string
  wp_offset :: int
  wp_size :: int
  wp_reduction_ratio :: double
  wp_was_deduplicated :: bool
  wp_was_compressed :: bool

record read_response =
  rp_volume_id :: string
  rp_offset :: int
  rp_size :: int
  rp_data :: string

section \<open>Handlers\<close>

definition volume_state_value :: "volume_state \<Rightarrow> string" where
  "volume_state_value st =
     (case st of V_CREATING \<Rightarrow> ''creating'' | V_AVAILABLE \<Rightarrow> ''available'' | V_IN_USE \<Rightarrow> ''in_use''
      | V_DELETING \<Rightarrow> ''deleting'' | V_ERROR \<Rightarrow> ''error'')"

definition volume_to_response :: "volume \<Rightarrow> volume_response" where
  "volume_to_response v =
     \<lparr> vp_id = v_id v, vp_name = v_name v, vp_size_bytes = v_size_bytes v, vp_used_bytes = v_used_bytes v,
       vp_state = volume_state_value (v_state v), vp_description = v_description v,
       vp_created_at = v_created_at v, vp_updated_at = v_updated_at v, vp_tags = v_tags v,
       vp_reduction_ratio = v_reduction_ratio v \<rparr>"

text \<open>\<^verbatim>\<open>if not volume: raise HTTPException(404, ...)\<close>, then the response.\<close>

definition volume_or_404 :: "string \<Rightarrow> volume option \<Rightarrow> volume_response response" where
  "volume_or_404 vid r =
     (case r of
        None \<Rightarrow> HTTPException HTTP_404_NOT_FOUND (volume_not_found vid)
      | Some v \<Rightarrow> Reply HTTP_200_OK (volume_to_response v))"

definition create_volume ::
    "settings \<Rightarrow> string \<Rightarrow> int \<Rightarrow> volume_create \<Rightarrow> (controller option, volume_response) handler" where
  "create_volume cfg uuid now request =
     validated (VolumeCreate request) (with_controller cfg (\<lambda>sc.
       case sc_create_volume uuid now (vc_name request) (vc_size_gb request) (vc_description request)
              (Some (vc_tags request)) sc of
         (v, sc) \<Rightarrow> (Reply HTTP_201_CREATED (volume_to_response v), sc)))"

definition list_volumes :: "settings \<Rightarrow> (controller option, volume_list_response) handler" where
  "list_volumes cfg = with_controller cfg (\<lambda>sc.
     let volumes = sc_list_volumes sc
     in (Reply HTTP_200_OK \<lparr> vlr_volumes = map volume_to_response volumes, vlr_total = int (length volumes) \<rparr>, sc))"

definition get_volume :: "settings \<Rightarrow> string \<Rightarrow> (controller option, volume_response) handler" where
  "get_volume cfg vid = with_controller cfg (\<lambda>sc. (volume_or_404 vid (sc_get_volume sc vid), sc))"

definition update_volume ::
    "settings \<Rightarrow> int \<Rightarrow> string \<Rightarrow> volume_update \<Rightarrow> (controller option, volume_response) handler" where
  "update_volume cfg now vid request = with_controller cfg (\<lambda>sc.
     case vm_update_volume now vid (vu_name request) (vu_description request) (vu_tags request)
            (sc_volume_manager sc) of
       (r, vm) \<Rightarrow> (volume_or_404 vid r, sc\<lparr>sc_volume_manager := vm\<rparr>))"

definition delete_volume :: "settings \<Rightarrow> (bytes \<Rightarrow> string) \<Rightarrow> string \<Rightarrow> (controller option, unit) handler" where
  "delete_volume cfg sha vid = with_controller cfg (\<lambda>sc.
     case sc_delete_volume sha vid sc of
       (ok, sc) \<Rightarrow>
         (if \<not> ok then HTTPException HTTP_404_NOT_FOUND (volume_not_found vid)
          else Reply HTTP_204_NO_CONTENT (), sc))"

text \<open>\<^verbatim>\<open>except ValueError as e: raise HTTPException(400, str(e))\<close>; other exceptions leave the handler.\<close>

definition value_error_400 :: "py_error \<Rightarrow> 'a response" where
  "value_error_400 e = (case e of ValueError s \<Rightarrow> HTTPException HTTP_400_BAD_REQUEST s | _ \<Rightarrow> Raised e)"

definition resize_volume ::
    "settings \<Rightarrow> int \<Rightarrow> string \<Rightarrow> volume_resize \<Rightarrow> (controller option, volume_response) handler" where
  "resize_volume cfg now vid request =
     validated (VolumeResize request) (with_controller cfg (\<lambda>sc.
       case vm_resize_volume now vid (gb_to_bytes (vz_size_gb request)) (sc_volume_manager sc) of
         (Inl e, vm) \<Rightarrow> (value_error_400 e, sc\<lparr>sc_volume_manager := vm\<rparr>)
       | (Inr r, vm) \<Rightarrow> (volume_or_404 vid r, sc\<lparr>sc_volume_manager := vm\<rparr>)))"

definition clone_volume ::
    "settings \<Rightarrow> string \<Rightarrow> int \<Rightarrow> string \<Rightarrow> volume_clone \<Rightarrow> (controller option, volume_response) handler" where
  "clone_volume cfg uuid now vid request =
     validated (VolumeClone request) (with_controller cfg (\<lambda>sc.
       case sc_clone_volume uuid now vid (vl_name request) (vl_description request) sc of
         (r, sc) \<Rightarrow> (volume_or_404 vid r, sc)))"

definition write_to_response :: "write_result \<Rightarrow> write_response" where
  "write_to_response result =
     \<lparr> wp_volume_id = wr_volume_id result, wp_offset = wr_offset result, wp_size = wr_size result,
       wp_reduction_ratio = rr_reduction_ratio (wr_reduction result),
       wp_was_deduplicated = rr_was_deduplicated (wr_reduction result),
       wp_was_compressed = rr_was_compressed (wr_reduction result) \<rparr>"

definition write_data ::
    "settings \<Rightarrow> (bytes \<Rightarrow> string) \<Rightarrow> codecs \<Rightarrow> string \<Rightarrow> int \<Rightarrow> string \<Rightarrow> write_request
     \<Rightarrow> (controller option, write_response) handler" where
  "write_data cfg sha cdc uuid now vid request =
     validated (WriteRequest request) (with_controller cfg (\<lambda>sc.
       case b64decode (wq_data request) of
         Inl e \<Rightarrow> (HTTPException HTTP_400_BAD_REQUEST ''Invalid base64 data'', sc)
       | Inr data \<Rightarrow>
           (case sc_write sha cdc uuid now vid (wq_offset request) data sc of
              (Inl e, sc) \<Rightarrow> (value_error_400 e, sc)
            | (Inr None, sc) \<Rightarrow> (HTTPException HTTP_404_NOT_FOUND (volume_not_found vid), sc)
            | (Inr (Some result), sc) \<Rightarrow> (Reply HTTP_200_OK (write_to_response result), sc))))"

definition data_not_found :: "int \<Rightarrow> string" where
  "data_not_found off = ''Data not found at offset '' @ str_int off"

definition read_to_response :: "read_result \<Rightarrow> read_response" where
  "read_to_response result =
     \<lparr> rp_volume_id = rd_volume_id result, rp_offset = rd_offset result, rp_size = rd_size result,
       rp_data = b64encode (rd_data result) \<rparr>"

definition read_data ::
    "settings \<Rightarrow> (bytes \<Rightarrow> string) \<Rightarrow> codecs \<Rightarrow> string \<Rightarrow> int \<Rightarrow> (controller option, read_response) handler" where
  "read_data cfg sha cdc vid off = with_controller cfg (\<lambda>sc.
     case sc_read sha cdc vid off sc of
       (Inl e, sc) \<Rightarrow> (Raised e, sc)
     | (Inr None, sc) \<Rightarrow> (HTTPException HTTP_404_NOT_FOUND (data_not_found off), sc)
     | (Inr (Some result), sc) \<Rightarrow> (Reply HTTP_200_OK (read_to_response result), sc))"

end
