(* ===== verification/Snapshot_Api.thy ===== *)
theory Snapshot_Api
  imports Volume_Api
begin

text \<open>
  \<^verbatim>\<open>api/routes/snapshots.py\<close> with \<^verbatim>\<open>api/schemas/snapshot.py\<close>: the handlers of the snapshots of a volume and
  of the list of all snapshots. A snapshot is only served under the volume it was taken from.
\<close>

section \<open>Schemas\<close>

record snapshot_create =
  nc_name :: "string option"
  nc_description :: string
  nc_tags :: tags

record restore_request =
  rq_target_volume_id :: "string option"

text \<open>\<^verbatim>\<open>Field(None, max_length=255)\<close>\<close>

definition SnapshotCreate :: "snapshot_create \<Rightarrow> bool" where
  "SnapshotCreate request \<longleftrightarrow> (case nc_name request of None \<Rightarrow> True | Some n \<Rightarrow> length n \<le> 255)"

record snapshot_response =
  np_id :: string
  np_name :: string
  np_volume_id :: string
  np_volume_name :: string
  np_size_bytes :: int
  np_used_bytes :: int
  np_state :: string
  np_description :: string
  np_created_at :: int
  np_tags :: tags

record snapshot_list_response =
  nlr_snapshots :: "snapshot_response list"
  nlr_total :: int

section \<open>Handlers\<close>

definition snapshot_state_value :: "snapshot_state \<Rightarrow> string" where
  "snapshot_state_value st =
     (case st of S_CREATING \<Rightarrow> ''creating'' | S_AVAILABLE \<Rightarrow> ''available'' | S_DELETING \<Rightarrow> ''deleting''
      | S_ERROR \<Rightarrow> ''error'')"

definition snapshot_to_response :: "snapshot \<Rightarrow> snapshot_response" where
  "snapshot_to_response s =
     \<lparr> np_id = sn_id s, np_name = sn_name s, np_volume_id = sn_volume_id s, np_volume_name = sn_volume_name s,
       np_size_bytes = sn_size_bytes s, np_used_bytes = sn_used_bytes s,
       np_state = snapshot_state_value (sn_state s), np_description = sn_description s,
       np_created_at = sn_created_at s, np_tags = sn_tags s \<rparr>"

definition create_snapshot ::
    "settings \<Rightarrow> (int \<Rightarrow> string) \<Rightarrow> string \<Rightarrow> int \<Rightarrow> string \<Rightarrow> snapshot_create
     \<Rightarrow> (controller option, snapshot_response) handler" where
  "create_snapshot cfg strftime uuid now vid request =
     validated (SnapshotCreate request) (with_controller cfg (\<lambda>sc.
       case sc_create_snapshot strftime uuid now vid (nc_name request) (nc_description request) sc of
         (None, sc) \<Rightarrow> (HTTPException HTTP_404_NOT_FOUND (volume_not_found vid), sc)
       | (Some s, sc) \<Rightarrow> (Reply HTTP_201_CREATED (snapshot_to_response s), sc)))"

definition snapshots_to_response :: "snapshot list \<Rightarrow> snapshot_list_response" where
  "snapshots_to_response snapshots =
     \<lparr> nlr_snapshots = map snapshot_to_response snapshots, nlr_total = int (length snapshots) \<rparr>"

definition list_snapshots :: "settings \<Rightarrow> string \<Rightarrow> (controller option, snapshot_list_response) handler" where
  "list_snapshots cfg vid = with_controller cfg (\<lambda>sc.
     case sc_get_volume sc vid of
       None \<Rightarrow> (HTTPException HTTP_404_NOT_FOUND (volume_not_found vid), sc)
     | Some v \<Rightarrow> (Reply HTTP_200_OK (snapshots_to_response (sc_list_snapshots sc (Some vid))), sc))"

text \<open>\<^verbatim>\<open>if not snapshot or snapshot.volume_id != volume_id: raise HTTPException(404, ...)\<close>\<close>

definition with_snapshot ::
    "string \<Rightarrow> string \<Rightarrow> (snapshot \<Rightarrow> controller \<Rightarrow> 'a response \<times> controller) \<Rightarrow> controller
     \<Rightarrow> 'a response \<times> controller" where
  "with_snapshot vid sid handle sc =
     (case sc_get_snapshot sc sid of
        None \<Rightarrow> (HTTPException HTTP_404_NOT_FOUND (snapshot_not_found sid), sc)
      | Some s \<Rightarrow>
          if sn_volume_id s \<noteq> vid then (HTTPException HTTP_404_NOT_FOUND (snapshot_not_found sid), sc)
          else handle s sc)"

definition get_snapshot :: "settings \<Rightarrow> string \<Rightarrow> string \<Rightarrow> (controller option, snapshot_response) handler" where
  "get_snapshot cfg vid sid = with_controller cfg (with_snapshot vid sid (\<lambda>s sc.
     (Reply HTTP_200_OK (snapshot_to_response s), sc)))"

definition delete_snapshot :: "settings \<Rightarrow> string \<Rightarrow> string \<Rightarrow> (controller option, unit) handler" where
  "delete_snapshot cfg vid sid = with_controller cfg (with_snapshot vid sid (\<lambda>s sc.
     case sc_delete_snapshot sid sc of
       (Inl e, sc) \<Rightarrow> (Raised e, sc)
     | (Inr ok, sc) \<Rightarrow>
         (if \<not> ok then HTTPException HTTP_404_NOT_FOUND (snapshot_not_found sid)
          else Reply HTTP_204_NO_CONTENT (), sc)))"

definition restore_snapshot ::
    "settings \<Rightarrow> string \<Rightarrow> int \<Rightarrow> string \<Rightarrow> string \<Rightarrow> restore_request
     \<Rightarrow> (controller option, volume_response) handler" where
  "restore_snapshot cfg uuid now vid sid request = with_controller cfg (with_snapshot vid sid (\<lambda>s sc.
     case sc_restore_snapshot uuid now sid (rq_target_volume_id request) sc of
       (None, sc) \<Rightarrow> (HTTPException HTTP_500_INTERNAL_SERVER_ERROR ''Failed to restore snapshot'', sc)
     | (Some v, sc) \<Rightarrow> (Reply HTTP_200_OK (volume_to_response v), sc)))"

definition list_all_snapshots :: "settings \<Rightarrow> (controller option, snapshot_list_response) handler" where
  "list_all_snapshots cfg = with_controller cfg (\<lambda>sc.
     (Reply HTTP_200_OK (snapshots_to_response (sc_list_snapshots sc None)), sc))"

section \<open>What the routes lose\<close>

text \<open>The tags of the request do not reach the snapshot.\<close>

lemma snapshot_tags_dropped:
  assumes "create_snapshot cfg strftime uuid now vid request g = (Reply code body, g')"
  shows "code = 201 \<and> np_tags body = []"
  using assms
  by (auto simp: create_snapshot_def validated_def with_controller_def sc_create_snapshot_def sm_create_snapshot_def
      snapshot_to_response_def Let_def split: if_splits prod.splits sum.splits option.splits)

text \<open>
  A volume restored from a snapshot has the used bytes of the snapshot but no logical bytes, so overwriting one of
  its blocks with a smaller one makes the count negative.
\<close>

lemma restored_logical_bytes:
  assumes "sc_restore_snapshot uuid now sid None sc = (Some v, sc')" and "sc_get_snapshot sc sid = Some s"
    and "dict_get (sn_blocks s) off = Some old" and "sz < vb_size old" and "off + sz \<le> v_size_bytes v"
    and "vm_write_block now' uuid off bid fp sz ps (sc_volume_manager sc') = (r, vm)"
  shows "v_used_bytes v = sn_used_bytes s \<and> v_logical_bytes v = 0 \<and>
    (\<exists>w. vm_get_volume vm uuid = Some w \<and> v_logical_bytes w < 0)"
proof -
  have v: "v_id v = uuid" "v_blocks v = sn_blocks s" "v_used_bytes v = sn_used_bytes s" "v_logical_bytes v = 0"
    "vm_get_volume (sc_volume_manager sc') uuid = Some v"
    using assms(1,2)
    by (auto simp: sc_restore_snapshot_def sc_get_snapshot_def sc_create_volume_def vm_create_volume_def put_volume_def
        restore_blocks_def vm_get_volume_def Let_def split: prod.splits)
  then have "\<exists>w. vm_get_volume vm uuid = Some w \<and> v_logical_bytes w < 0"
    using assms(3-6) by (auto simp: vm_write_block_def vm_get_volume_def Let_def split: if_splits option.splits)
  with v show ?thesis by simp
qed

end
