(* ===== verification/Array_Api.thy ===== *)
theory Array_Api
  imports Snapshot_Api
begin

text \<open>
  Histories of requests to the volume and snapshot routes, and what a client can rely on: a specification
  whose state is a map of volumes and the volumes of the snapshots. Left out of the histories are the two routes
  that share stored blocks between volumes without counting them, \<^verbatim>\<open>clone\<close> and \<^verbatim>\<open>restore\<close>.
\<close>

section \<open>Requests and what is seen of the replies\<close>

text \<open>A request with the ids and the clock its handler takes from the environment.\<close>

datatype api_request =
    PostVolume string int volume_create
  | GetVolumes
  | GetVolume string
  | PutVolume int string volume_update
  | DeleteVolume string
  | PostResize int string volume_resize
  | PostWrite string int string write_request
  | GetRead string int
  | PostSnapshot string int string snapshot_create
  | GetSnapshots string
  | GetSnapshot string string
  | DeleteSnapshot string string
  | GetAllSnapshots

datatype api_reply =
    VolumeReply "volume_response response"
  | VolumesReply "volume_list_response response"
  | WriteReply "write_response response"
  | ReadReply "read_response response"
  | SnapshotReply "snapshot_response response"
  | SnapshotsReply "snapshot_list_response response"
  | EmptyReply "unit response"

fun api_step ::
    "settings \<Rightarrow> (bytes \<Rightarrow> string) \<Rightarrow> codecs \<Rightarrow> (int \<Rightarrow> string) \<Rightarrow> api_request \<Rightarrow> controller option
     \<Rightarrow> api_reply \<times> controller option" where
  "api_step cfg sha cdc strftime (PostVolume uuid now request) = map_prod VolumeReply id \<circ> create_volume cfg uuid now request"
| "api_step cfg sha cdc strftime GetVolumes = map_prod VolumesReply id \<circ> list_volumes cfg"
| "api_step cfg sha cdc strftime (GetVolume vid) = map_prod VolumeReply id \<circ> get_volume cfg vid"
| "api_step cfg sha cdc strftime (PutVolume now vid request) = map_prod VolumeReply id \<circ> update_volume cfg now vid request"
| "api_step cfg sha cdc strftime (DeleteVolume vid) = map_prod EmptyReply id \<circ> delete_volume cfg sha vid"
| "api_step cfg sha cdc strftime (PostResize now vid request) = map_prod VolumeReply id \<circ> resize_volume cfg now vid request"
| "api_step cfg sha cdc strftime (PostWrite uuid now vid request) =
     map_prod WriteReply id \<circ> write_data cfg sha cdc uuid now vid request"
| "api_step cfg sha cdc strftime (GetRead vid off) = map_prod ReadReply id \<circ> read_data cfg sha cdc vid off"
| "api_step cfg sha cdc strftime (PostSnapshot uuid now vid request) =
     map_prod SnapshotReply id \<circ> create_snapshot cfg strftime uuid now vid request"
| "api_step cfg sha cdc strftime (GetSnapshots vid) = map_prod SnapshotsReply id \<circ> list_snapshots cfg vid"
| "api_step cfg sha cdc strftime (GetSnapshot vid sid) = map_prod SnapshotReply id \<circ> get_snapshot cfg vid sid"
| "api_step cfg sha cdc strftime (DeleteSnapshot vid sid) = map_prod EmptyReply id \<circ> delete_snapshot cfg vid sid"
| "api_step cfg sha cdc strftime GetAllSnapshots = map_prod SnapshotsReply id \<circ> list_all_snapshots cfg"

text \<open>
  What a client sees: the status with the id and size of a volume, the ids of a list, the data read,
  or the status and detail of an error.
\<close>

datatype observation =
    Seen nat
  | SeenVolume nat string int
  | SeenIds nat "string set"
  | SeenData nat string
  | SeenError nat string
  | SeenRejected
  | SeenCrash py_error

fun observe :: "('a \<Rightarrow> nat \<Rightarrow> observation) \<Rightarrow> 'a response \<Rightarrow> observation" where
  "observe f (Reply code body) = f body code"
| "observe f (HTTPException code detail) = SeenError code detail"
| "observe f Rejected = SeenRejected"
| "observe f (Raised e) = SeenCrash e"

fun seen :: "api_reply \<Rightarrow> observation" where
  "seen (VolumeReply r) = observe (\<lambda>v code. SeenVolume code (vp_id v) (vp_size_bytes v)) r"
| "seen (VolumesReply r) = observe (\<lambda>vs code. SeenIds code (vp_id ` set (vlr_volumes vs))) r"
| "seen (WriteReply r) = observe (\<lambda>_. Seen) r"
| "seen (ReadReply r) = observe (\<lambda>d code. SeenData code (rp_data d)) r"
| "seen (SnapshotReply r) = observe (\<lambda>_. Seen) r"
| "seen (SnapshotsReply r) = observe (\<lambda>ss code. SeenIds code (np_id ` set (nlr_snapshots ss))) r"
| "seen (EmptyReply r) = observe (\<lambda>_. Seen) r"

section \<open>The specification\<close>

record array_spec =
  as_volumes :: ctl_spec
  as_snapshots :: "string \<Rightarrow> string option"

definition spec_volume :: "ctl_spec \<Rightarrow> string \<Rightarrow> observation" where
  "spec_volume m vid =
     (case m vid of
        None \<Rightarrow> SeenError HTTP_404_NOT_FOUND (volume_not_found vid)
      | Some (sz, f) \<Rightarrow> SeenVolume HTTP_200_OK vid sz)"

definition spec_write :: "int \<Rightarrow> string \<Rightarrow> int \<Rightarrow> bytes \<Rightarrow> ctl_spec \<Rightarrow> observation \<times> ctl_spec" where
  "spec_write bs vid off data m =
     (case m vid of
        None \<Rightarrow> (SeenError HTTP_404_NOT_FOUND (volume_not_found vid), m)
      | Some (sz, f) \<Rightarrow>
          if off mod bs \<noteq> 0 then (SeenError HTTP_400_BAD_REQUEST ''Offset must be aligned to block size'', m)
          else if sz < off + int (length data) then (SeenError HTTP_400_BAD_REQUEST ''Write exceeds volume size'', m)
          else (Seen HTTP_200_OK, m(vid \<mapsto> (sz, f(off \<mapsto> data)))))"

definition spec_resize :: "string \<Rightarrow> int \<Rightarrow> ctl_spec \<Rightarrow> observation \<times> ctl_spec" where
  "spec_resize vid new_size m =
     (case m vid of
        None \<Rightarrow> (SeenError HTTP_404_NOT_FOUND (volume_not_found vid), m)
      | Some (sz, f) \<Rightarrow>
          if new_size < sz then (SeenError HTTP_400_BAD_REQUEST ''Cannot shrink volume'', m)
          else (SeenVolume HTTP_200_OK vid new_size, m(vid \<mapsto> (new_size, f))))"

definition spec_snapshot :: "array_spec \<Rightarrow> string \<Rightarrow> string \<Rightarrow> nat \<Rightarrow> observation" where
  "spec_snapshot m vid sid code =
     (if as_snapshots m sid = Some vid then Seen code else SeenError HTTP_404_NOT_FOUND (snapshot_not_found sid))"

abbreviation on_volumes :: "(ctl_spec \<Rightarrow> observation \<times> ctl_spec) \<Rightarrow> array_spec \<Rightarrow> observation \<times> array_spec" where
  "on_volumes f m \<equiv> (case f (as_volumes m) of (a, vs) \<Rightarrow> (a, m\<lparr>as_volumes := vs\<rparr>))"

fun array_step :: "int \<Rightarrow> api_request \<Rightarrow> array_spec \<Rightarrow> observation \<times> array_spec" where
  "array_step bs (PostVolume uuid now request) m =
     (if \<not> VolumeCreate request then (SeenRejected, m)
      else (SeenVolume HTTP_201_CREATED uuid (gb_to_bytes (vc_size_gb request)),
            m\<lparr>as_volumes := (as_volumes m)(uuid \<mapsto> (gb_to_bytes (vc_size_gb request), \<lambda>_. None))\<rparr>))"
| "array_step bs GetVolumes m = (SeenIds HTTP_200_OK (dom (as_volumes m)), m)"
| "array_step bs (GetVolume vid) m = (spec_volume (as_volumes m) vid, m)"
| "array_step bs (PutVolume now vid request) m = (spec_volume (as_volumes m) vid, m)"
| "array_step bs (DeleteVolume vid) m =
     (if as_volumes m vid = None then (SeenError HTTP_404_NOT_FOUND (volume_not_found vid), m)
      else (Seen HTTP_204_NO_CONTENT, m\<lparr>as_volumes := (as_volumes m)(vid := None)\<rparr>))"
| "array_step bs (PostResize now vid request) m =
     (if \<not> VolumeResize request then (SeenRejected, m)
      else on_volumes (spec_resize vid (gb_to_bytes (vz_size_gb request))) m)"
| "array_step bs (PostWrite uuid now vid request) m =
     (if \<not> WriteRequest request then (SeenRejected, m)
      else case b64decode (wq_data request) of
             Inl e \<Rightarrow> (SeenError HTTP_400_BAD_REQUEST ''Invalid base64 data'', m)
           | Inr data \<Rightarrow> on_volumes (spec_write bs vid (wq_offset request) data) m)"
| "array_step bs (GetRead vid off) m =
     (case as_volumes m vid of
        None \<Rightarrow> (SeenError HTTP_404_NOT_FOUND (data_not_found off), m)
      | Some (sz, f) \<Rightarrow>
          (case f off of
             None \<Rightarrow> (SeenError HTTP_404_NOT_FOUND (data_not_found off), m)
           | Some data \<Rightarrow> (SeenData HTTP_200_OK (b64encode data), m)))"
| "array_step bs (PostSnapshot uuid now vid request) m =
     (if \<not> SnapshotCreate request then (SeenRejected, m)
      else if as_volumes m vid = None then (SeenError HTTP_404_NOT_FOUND (volume_not_found vid), m)
      else (Seen HTTP_201_CREATED, m\<lparr>as_snapshots := (as_snapshots m)(uuid \<mapsto> vid)\<rparr>))"
| "array_step bs (GetSnapshots vid) m =
     (if as_volumes m vid = None then (SeenError HTTP_404_NOT_FOUND (volume_not_found vid), m)
      else (SeenIds HTTP_200_OK {sid. as_snapshots m sid = Some vid}, m))"
| "array_step bs (GetSnapshot vid sid) m = (spec_snapshot m vid sid HTTP_200_OK, m)"
| "array_step bs (DeleteSnapshot vid sid) m =
     (spec_snapshot m vid sid HTTP_204_NO_CONTENT,
      if as_snapshots m sid = Some vid then m\<lparr>as_snapshots := (as_snapshots m)(sid := None)\<rparr> else m)"
| "array_step bs GetAllSnapshots m = (SeenIds HTTP_200_OK (dom (as_snapshots m)), m)"

section \<open>The relation\<close>

definition snapshot_volumes :: "snapshot_manager \<Rightarrow> string \<Rightarrow> string option" where
  "snapshot_volumes sm sid = map_option sn_volume_id (dict_get (sm_snapshots sm) sid)"

definition array_view :: "controller \<Rightarrow> ghost \<Rightarrow> array_spec" where
  "array_view sc D = \<lparr> as_volumes = sc_view sc D, as_snapshots = snapshot_volumes (sc_snapshot_manager sc) \<rparr>"

definition array_ok ::
    "(bytes \<Rightarrow> string) \<Rightarrow> codecs \<Rightarrow> bytes set \<Rightarrow> settings \<Rightarrow> string set \<Rightarrow> controller \<Rightarrow> ghost \<Rightarrow> bool" where
  "array_ok sha cdc U cfg used sc D \<longleftrightarrow>
     sc_inv sha cdc U used sc D \<and> sc_settings sc = cfg \<and> sm_inv (sc_snapshot_manager sc) \<and>
     dom (dict_get (sm_snapshots (sc_snapshot_manager sc))) \<subseteq> used \<and> [] \<notin> used"

definition array_rel ::
    "(bytes \<Rightarrow> string) \<Rightarrow> codecs \<Rightarrow> bytes set \<Rightarrow> settings \<Rightarrow> string set \<Rightarrow> controller option \<Rightarrow> array_spec \<Rightarrow> bool" where
  "array_rel sha cdc U cfg used g m \<longleftrightarrow>
     (\<exists>sc g' D. get_controller cfg g = (Inr sc, g') \<and> array_ok sha cdc U cfg used sc D \<and> m = array_view sc D)"

lemma array_okD:
  assumes "array_ok sha cdc U cfg used sc D"
  shows "sc_inv sha cdc U used sc D" "sc_settings sc = cfg" "sm_inv (sc_snapshot_manager sc)"
    "dom (dict_get (sm_snapshots (sc_snapshot_manager sc))) \<subseteq> used" "[] \<notin> used"
  using assms by (simp_all add: array_ok_def)

text \<open>A handler that goes through the controller keeps the relation when its body does.\<close>

lemma serve:
  assumes rel: "array_rel sha cdc U cfg used g m" and run: "with_controller cfg handle g = (r, t)"
    and body: "\<And>sc D sc'. array_ok sha cdc U cfg used sc D \<Longrightarrow> m = array_view sc D \<Longrightarrow> handle sc = (r, sc') \<Longrightarrow>
      \<exists>D'. array_ok sha cdc U cfg used' sc' D' \<and> spec = (a, array_view sc' D')"
  shows "\<exists>n. spec = (a, n) \<and> array_rel sha cdc U cfg used' t n"
proof -
  obtain sc g' D where sc: "get_controller cfg g = (Inr sc, g')" "array_ok sha cdc U cfg used sc D" "m = array_view sc D"
    using rel by (auto simp: array_rel_def)
  obtain sc' where h: "handle sc = (r, sc')" "t = Some sc'" by (rule with_controller_run[OF sc(1) run])
  from body[OF sc(2,3) h(1)] show ?thesis using h(2) by (auto simp: array_rel_def)
qed

lemma array_ok_more: "array_ok sha cdc U cfg used sc D \<Longrightarrow> [] \<notin> ids \<Longrightarrow> array_ok sha cdc U cfg (used \<union> ids) sc D"
  unfolding array_ok_def sc_inv_def by (elim conjE, intro conjI) (simp_all add: le_supI1)

lemma array_rel_more: "array_rel sha cdc U cfg used g m \<Longrightarrow> [] \<notin> ids \<Longrightarrow> array_rel sha cdc U cfg (used \<union> ids) g m"
  unfolding array_rel_def by (elim exE conjE, intro exI conjI) (assumption, erule array_ok_more, assumption+)

section \<open>Each route refines its specification\<close>

text \<open>A volume that is replaced by one with the same blocks.\<close>

lemma put_volume_refines:
  assumes inv: "sc_inv sha cdc U used sc D" and v: "dict_get (vm_volumes (sc_volume_manager sc)) vid = Some v"
    and vm: "vm_inv vm" "vm_volumes vm = dict_set vid v' (vm_volumes (sc_volume_manager sc))"
    and v': "v_blocks v' = v_blocks v"
  shows "sc_inv sha cdc U used (sc\<lparr>sc_volume_manager := vm\<rparr>) D \<and>
    sc_view (sc\<lparr>sc_volume_manager := vm\<rparr>) D
    = (sc_view sc D)(vid \<mapsto> (v_size_bytes v', snd (the (sc_view sc D vid))))"
proof -
  note I = sc_invD[OF inv]
  have "vol_refs (vm_volumes vm) D = vol_refs (vm_volumes (sc_volume_manager sc)) D"
    unfolding vm(2) vol_refs_set[OF I(3)] vol_refs_split[OF I(3) v] v' by simp
  moreover have "dom (dict_get (vm_volumes vm)) \<subseteq> used"
    using I(6) v unfolding vm(2) update_conv' dom_fun_upd by auto
  ultimately have "sc_inv sha cdc U used (sc\<lparr>sc_volume_manager := vm\<rparr>) D"
    using I(1,4,5) vm(1) by (simp add: sc_inv_def)
  then show ?thesis using v v' vm(2) by (auto simp: sc_view_def fun_eq_iff)
qed

lemma array_ok_volumes:
  "array_ok sha cdc U cfg used sc D \<Longrightarrow> sc_inv sha cdc U used (sc\<lparr>sc_volume_manager := vm\<rparr>) D' \<Longrightarrow>
   array_ok sha cdc U cfg used (sc\<lparr>sc_volume_manager := vm\<rparr>) D'"
  by (simp add: array_ok_def)

lemma update_body:
  assumes ok: "array_ok sha cdc U cfg used sc D"
    and run: "vm_update_volume now vid name description tags (sc_volume_manager sc) = (r, vm)"
  shows "array_ok sha cdc U cfg used (sc\<lparr>sc_volume_manager := vm\<rparr>) D \<and>
    spec_volume (sc_view sc D) vid = seen (VolumeReply (volume_or_404 vid r)) \<and>
    array_view (sc\<lparr>sc_volume_manager := vm\<rparr>) D = array_view sc D"
proof (cases "dict_get (vm_volumes (sc_volume_manager sc)) vid")
  case None
  then have "r = None" "vm = sc_volume_manager sc" "sc_view sc D vid = None"
    using run by (simp_all add: vm_update_volume_def sc_view_def)
  then show ?thesis using ok by (simp add: spec_volume_def volume_or_404_def)
next
  case (Some v)
  note inv = array_okD(1)[OF ok]
  define v' where "v' = the r"
  have r: "r = Some v'" "v_id v' = v_id v" "v_blocks v' = v_blocks v" "v_size_bytes v' = v_size_bytes v"
    "vm_volumes vm = dict_set vid v' (vm_volumes (sc_volume_manager sc))"
    using run Some by (auto simp: vm_update_volume_def v'_def Let_def split: option.splits)
  have id: "v_id v' = vid" using sc_invD(7)[OF inv Some] r(2) by simp
  note P = put_volume_refines[OF inv Some vm_inv_update[OF sc_invD(2)[OF inv] run] r(5,3)]
  have "sc_view (sc\<lparr>sc_volume_manager := vm\<rparr>) D = sc_view sc D"
    using P r(4) Some by (auto simp: sc_view_def)
  then show ?thesis
    using array_ok_volumes[OF ok] P Some r id
    by (simp add: array_view_def spec_volume_def volume_or_404_def volume_to_response_def sc_view_def)
qed

lemma resize_body:
  assumes ok: "array_ok sha cdc U cfg used sc D"
    and run: "vm_resize_volume now vid new_size (sc_volume_manager sc) = (r, vm)"
  shows "array_ok sha cdc U cfg used (sc\<lparr>sc_volume_manager := vm\<rparr>) D \<and>
    spec_resize vid new_size (sc_view sc D)
    = (seen (VolumeReply (case r of Inl e \<Rightarrow> value_error_400 e | Inr x \<Rightarrow> volume_or_404 vid x)),
       sc_view (sc\<lparr>sc_volume_manager := vm\<rparr>) D)"
proof (cases "dict_get (vm_volumes (sc_volume_manager sc)) vid")
  case None
  then have "r = Inr None" "vm = sc_volume_manager sc" "sc_view sc D vid = None"
    using run by (simp_all add: vm_resize_volume_def sc_view_def)
  then show ?thesis using ok by (simp add: spec_resize_def volume_or_404_def)
next
  case (Some v)
  note inv = array_okD(1)[OF ok]
  show ?thesis
  proof (cases "new_size < v_size_bytes v")
    case True
    then have "r = Inl (ValueError ''Cannot shrink volume'')" "vm = sc_volume_manager sc"
      using run Some by (simp_all add: vm_resize_volume_def)
    then show ?thesis using ok True Some by (simp add: spec_resize_def value_error_400_def sc_view_def)
  next
    case False
    define v' where "v' = v\<lparr>v_size_bytes := new_size, v_updated_at := now\<rparr>"
    have r: "r = Inr (Some v')" "vm_volumes vm = dict_set vid v' (vm_volumes (sc_volume_manager sc))"
      using run Some False by (auto simp: vm_resize_volume_def Let_def v'_def)
    have id: "v_id v = vid" using sc_invD(7)[OF inv Some] by simp
    have "v_blocks v' = v_blocks v" by (simp add: v'_def)
    note P = put_volume_refines[OF inv Some vm_inv_resize[OF sc_invD(2)[OF inv] run] r(2) this]
    then show ?thesis
      using array_ok_volumes[OF ok] False Some r(1) id
      by (auto simp: spec_resize_def volume_or_404_def volume_to_response_def v'_def sc_view_def)
  qed
qed

lemma controller_keeps_snapshots:
  "sc_create_volume uuid now name size_gb description tags sc = (v, sc') \<Longrightarrow> sc_snapshot_manager sc' = sc_snapshot_manager sc"
  "sc_delete_volume sha vid sc = (ok, sc') \<Longrightarrow> sc_snapshot_manager sc' = sc_snapshot_manager sc"
  "sc_write sha cdc uuid now vid off data sc = (w, sc') \<Longrightarrow> sc_snapshot_manager sc' = sc_snapshot_manager sc"
  "sc_read sha cdc vid off sc = (r, sc') \<Longrightarrow> sc_snapshot_manager sc' = sc_snapshot_manager sc"
  by (auto simp: sc_create_volume_def sc_delete_volume_def sc_write_def sc_read_def Let_def
      split: prod.splits option.splits sum.splits if_splits)

text \<open>The operations of the controller that leave the snapshots alone.\<close>

lemma array_ok_keep:
  assumes "array_ok sha cdc U cfg used sc D" and "sc_inv sha cdc U (used \<union> ids) sc' D'"
    and "sc_settings sc' = sc_settings sc" and "sc_snapshot_manager sc' = sc_snapshot_manager sc" and "[] \<notin> ids"
  shows "array_ok sha cdc U cfg (used \<union> ids) sc' D'"
    and "array_view sc' D' = (array_view sc D)\<lparr>as_volumes := sc_view sc' D'\<rparr>"
  using assms by (auto simp: array_ok_def array_view_def)

lemma create_body:
  assumes ok: "array_ok sha cdc U cfg used sc D" and fresh: "uuid \<notin> used" "uuid \<noteq> []"
    and run: "sc_create_volume uuid now name size_gb description tags sc = (v, sc')"
  shows "array_ok sha cdc U cfg (used \<union> {uuid}) sc' D \<and> v_id v = uuid \<and> v_size_bytes v = gb_to_bytes size_gb \<and>
    array_view sc' D = (array_view sc D)\<lparr>as_volumes := (sc_view sc D)(uuid \<mapsto> (gb_to_bytes size_gb, \<lambda>_. None))\<rparr>"
proof -
  note C = create_refines[OF array_okD(1)[OF ok] fresh(1) run]
  have "v_size_bytes v = gb_to_bytes size_gb"
    using run by (auto simp: sc_create_volume_def vm_create_volume_def Let_def split: prod.splits)
  moreover note array_ok_keep[OF ok, of "{uuid}" sc' D] controller_keeps_snapshots(1)[OF run]
  ultimately show ?thesis using C fresh(2) by simp
qed

lemma delete_body:
  assumes ok: "array_ok sha cdc U cfg used sc D" and run: "sc_delete_volume sha vid sc = (r, sc')"
  shows "array_ok sha cdc U cfg used sc' D \<and> r = (sc_view sc D vid \<noteq> None) \<and>
    array_view sc' D = (array_view sc D)\<lparr>as_volumes := (sc_view sc D)(vid := None)\<rparr>"
  using delete_refines[OF array_okD(1)[OF ok] run] array_ok_keep[OF ok, of "{}" sc' D] controller_keeps_snapshots(2)[OF run]
  by simp

lemma read_body:
  assumes ok: "array_ok sha cdc U cfg used sc D" and run: "sc_read sha cdc vid off sc = (r, sc')"
  shows "array_ok sha cdc U cfg used sc' D \<and> array_view sc' D = array_view sc D \<and>
    (\<exists>x. r = Inr x \<and> map_option rd_data x = (case sc_view sc D vid of None \<Rightarrow> None | Some (sz, f) \<Rightarrow> f off))"
  using read_refines[OF array_okD(1)[OF ok] run] array_ok_keep[OF ok, of "{}" sc' D] controller_keeps_snapshots(4)[OF run]
  by (simp add: array_view_def)

lemma write_body:
  assumes ok: "array_ok sha cdc U cfg used sc D" and fresh: "uuid \<notin> used" "uuid \<noteq> []" and data: "data \<in> U"
    and run: "sc_write sha cdc uuid now vid off data sc = (r, sc')"
  shows "\<exists>D'. array_ok sha cdc U cfg (used \<union> {uuid}) sc' D' \<and>
    array_view sc' D' = (array_view sc D)\<lparr>as_volumes := sc_view sc' D'\<rparr> \<and>
    spec_write (cfg_default_block_size cfg) vid off data (sc_view sc D)
    = (case r of Inl e \<Rightarrow> seen (WriteReply (value_error_400 e))
       | Inr None \<Rightarrow> SeenError HTTP_404_NOT_FOUND (volume_not_found vid)
       | Inr (Some w) \<Rightarrow> Seen HTTP_200_OK, sc_view sc' D')"
proof -
  obtain D' where D': "sc_inv sha cdc U (insert uuid used) sc' D'" "sc_settings sc' = sc_settings sc"
    "((case r of Inl e \<Rightarrow> Written (Inl e) | Inr x \<Rightarrow> Written (Inr (x \<noteq> None))), sc_view sc' D')
     = ctl_spec_step (cfg_default_block_size cfg) (CWrite uuid now vid off data) (sc_view sc D)"
    using write_refines[OF array_okD(1)[OF ok] fresh(1) data run] array_okD(2)[OF ok] by auto
  note K = array_ok_keep[OF ok, of "{uuid}" sc' D'] controller_keeps_snapshots(3)[OF run]
  have "spec_write (cfg_default_block_size cfg) vid off data (sc_view sc D)
    = (case r of Inl e \<Rightarrow> seen (WriteReply (value_error_400 e))
       | Inr None \<Rightarrow> SeenError HTTP_404_NOT_FOUND (volume_not_found vid)
       | Inr (Some w) \<Rightarrow> Seen HTTP_200_OK, sc_view sc' D')"
    using D'(3) by (auto simp: spec_write_def value_error_400_def split: option.splits sum.splits if_splits prod.splits)
  then show ?thesis using K D'(1,2) fresh(2) by (intro exI[of _ D']) simp
qed

lemma array_ok_snapshots:
  assumes "array_ok sha cdc U cfg used sc D" and "sm_inv sm" and "dom (dict_get (sm_snapshots sm)) \<subseteq> used \<union> ids" and "[] \<notin> ids"
  shows "array_ok sha cdc U cfg (used \<union> ids) (sc\<lparr>sc_snapshot_manager := sm\<rparr>) D"
  using array_ok_more[OF assms(1,4)] assms(2,3) by (auto simp: array_ok_def sc_inv_def)

lemma array_view_snapshots:
  "array_view (sc\<lparr>sc_snapshot_manager := sm\<rparr>) D = (array_view sc D)\<lparr>as_snapshots := snapshot_volumes sm\<rparr>"
  by (simp add: array_view_def sc_view_def fun_eq_iff)

lemma volume_view: "sc_view sc D vid = None \<longleftrightarrow> sc_get_volume sc vid = None"
  by (simp add: sc_view_def sc_get_volume_def vm_get_volume_def split: option.splits)

lemma snapshot_body:
  assumes ok: "array_ok sha cdc U cfg used sc D" and fresh: "uuid \<notin> used" "uuid \<noteq> []"
    and run: "sc_create_snapshot strftime uuid now vid name description sc = (r, sc')"
  shows "array_ok sha cdc U cfg (used \<union> {uuid}) sc' D \<and> (r = None \<longleftrightarrow> sc_view sc D vid = None) \<and>
    array_view sc' D = (if r = None then array_view sc D
      else (array_view sc D)\<lparr>as_snapshots := (as_snapshots (array_view sc D))(uuid \<mapsto> vid)\<rparr>)"
proof (cases "dict_get (vm_volumes (sc_volume_manager sc)) vid")
  case None
  then have "r = None" "sc' = sc" "sc_view sc D vid = None"
    using run by (simp_all add: sc_create_snapshot_def vm_get_volume_def sc_view_def)
  then show ?thesis using array_ok_more[OF ok, of "{uuid}"] fresh by simp
next
  case (Some v)
  let ?sm = "sc_snapshot_manager sc"
  obtain s sm where c: "sm_create_snapshot strftime uuid now v name description None ?sm = (s, sm)"
    by (cases "sm_create_snapshot strftime uuid now v name description None ?sm")
  have sc': "r = Some s" "sc' = sc\<lparr>sc_snapshot_manager := sm\<rparr>"
    using run Some c by (auto simp: sc_create_snapshot_def vm_get_volume_def)
  have id: "v_id v = vid" using sc_invD(7)[OF array_okD(1)[OF ok] Some] by simp
  have s: "sm_snapshots sm = dict_set uuid s (sm_snapshots ?sm)" "sn_volume_id s = vid"
    using c id by (auto simp: sm_create_snapshot_def Let_def)
  have none: "dict_get (sm_snapshots ?sm) uuid = None" using array_okD(4)[OF ok] fresh(1) by blast
  have dom: "dom (dict_get (sm_snapshots sm)) \<subseteq> used \<union> {uuid}"
    using array_okD(4)[OF ok] unfolding s(1) update_conv' dom_fun_upd by auto
  have "array_ok sha cdc U cfg (used \<union> {uuid}) sc' D"
    unfolding sc'(2) by (rule array_ok_snapshots[OF ok sm_inv_create[OF array_okD(3)[OF ok] none c] dom]) (use fresh in simp)
  moreover have "snapshot_volumes sm = (snapshot_volumes ?sm)(uuid \<mapsto> vid)"
    using s by (simp add: snapshot_volumes_def fun_eq_iff)
  ultimately show ?thesis
    using sc' Some unfolding sc'(2) array_view_snapshots by (simp add: array_view_def sc_view_def)
qed

lemma delete_snapshot_body:
  assumes ok: "array_ok sha cdc U cfg used sc D" and s: "sc_get_snapshot sc sid = Some s"
    and run: "sc_delete_snapshot sid sc = (r, sc')"
  shows "array_ok sha cdc U cfg used sc' D \<and> r = Inr True \<and>
    array_view sc' D = (array_view sc D)\<lparr>as_snapshots := (as_snapshots (array_view sc D))(sid := None)\<rparr>"
proof -
  let ?sm = "sc_snapshot_manager sc"
  have get: "dict_get (sm_snapshots ?sm) sid = Some s" using s by (simp add: sc_get_snapshot_def sm_get_snapshot_def)
  obtain sm where sm: "sm_delete_snapshot sid ?sm = (Inr True, sm)"
    "sm_snapshots sm = dict_del sid (dict_set sid (s\<lparr>sn_state := S_DELETING\<rparr>) (sm_snapshots ?sm))"
    by (rule sm_delete_Some[OF array_okD(3)[OF ok] get])
  have sc': "r = Inr True" "sc' = sc\<lparr>sc_snapshot_manager := sm\<rparr>"
    using run get sm(1) by (simp_all add: sc_delete_snapshot_def sm_get_snapshot_def)
  have "dom (dict_get (sm_snapshots sm)) \<subseteq> used \<union> {}"
    using array_okD(4)[OF ok] unfolding sm(2) delete_conv' update_conv' by auto
  from array_ok_snapshots[OF ok sm_inv_delete[OF array_okD(3)[OF ok] sm(1)] this]
  have "array_ok sha cdc U cfg used sc' D" using sc'(2) by simp
  moreover have "snapshot_volumes sm = (snapshot_volumes ?sm)(sid := None)"
    using sm(2) by (simp add: snapshot_volumes_def fun_eq_iff)
  ultimately show ?thesis using sc' unfolding sc'(2) array_view_snapshots by (simp add: array_view_def)
qed

lemma list_snapshots_body:
  assumes ok: "array_ok sha cdc U cfg used sc D" and v: "sc_get_volume sc vid = Some v"
  shows "sn_id ` set (sc_list_snapshots sc (Some vid)) = {sid. as_snapshots (array_view sc D) sid = Some vid}"
proof -
  let ?sm = "sc_snapshot_manager sc"
  note S = sm_invD[OF array_okD(3)[OF ok]]
  have "vid \<in> used" using v sc_invD(6)[OF array_okD(1)[OF ok]] by (auto simp: sc_get_volume_def vm_get_volume_def)
  then have "vid \<noteq> []" using array_okD(5)[OF ok] by auto
  note l = list_snapshots_volume[OF array_okD(3)[OF ok] this]
  show ?thesis unfolding sc_list_snapshots_def l using S(2) by (force simp: array_view_def snapshot_volumes_def image_iff)
qed

lemma list_all_body:
  assumes ok: "array_ok sha cdc U cfg used sc D"
  shows "sn_id ` set (sc_list_snapshots sc None) = dom (as_snapshots (array_view sc D))"
    and "v_id ` set (sc_list_volumes sc) = dom (as_volumes (array_view sc D))"
proof -
  note S = sm_invD[OF array_okD(3)[OF ok]] and I = sc_invD[OF array_okD(1)[OF ok]]
  show "sn_id ` set (sc_list_snapshots sc None) = dom (as_snapshots (array_view sc D))"
    unfolding sc_list_snapshots_def sm_list_snapshots_def array_view_def snapshot_volumes_def
    using S(2) dict_values_get[OF S(1)] by (force simp: image_iff dom_def simp del: set_map)
  show "v_id ` set (sc_list_volumes sc) = dom (as_volumes (array_view sc D))"
    unfolding sc_list_volumes_def vm_list_volumes_def array_view_def sc_view_def
    using I(7) dict_values_get[OF I(3)] by (force simp: image_iff dom_def simp del: set_map split: option.splits)
qed

section \<open>Histories\<close>

fun api_ids :: "api_request \<Rightarrow> string list" where
  "api_ids (PostVolume uuid now request) = [uuid]"
| "api_ids (PostWrite uuid now vid request) = [uuid]"
| "api_ids (PostSnapshot uuid now vid request) = [uuid]"
| "api_ids _ = []"

text \<open>The data of a write request that can be decoded.\<close>

fun api_data :: "api_request \<Rightarrow> bytes list" where
  "api_data (PostWrite uuid now vid request) =
     (case b64decode (wq_data request) of Inl e \<Rightarrow> [] | Inr data \<Rightarrow> [data])"
| "api_data _ = []"

definition api_ok :: "bytes set \<Rightarrow> api_request \<Rightarrow> bool" where
  "api_ok U c \<longleftrightarrow> [] \<notin> set (api_ids c) \<and> set (api_data c) \<subseteq> U"

lemma rejected_step:
  assumes "array_rel sha cdc U cfg used g m" and "api_ok U c" and "\<not> valid" and "validated valid handle g = (r, t)"
  shows "r = Rejected \<and> array_rel sha cdc U cfg (used \<union> set (api_ids c)) t m"
  using assms array_rel_more[OF assms(1), of "set (api_ids c)"] by (simp add: validated_def api_ok_def)

lemma post_volume_refines:
  assumes rel: "array_rel sha cdc U cfg used g m" and ok: "api_ok U (PostVolume uuid now request)" and "uuid \<notin> used"
    and run: "create_volume cfg uuid now request g = (r, t)"
  shows "\<exists>n. array_step bs (PostVolume uuid now request) m = (seen (VolumeReply r), n) \<and>
    array_rel sha cdc U cfg (used \<union> {uuid}) t n"
proof (cases "VolumeCreate request")
  case False
  from rejected_step[OF rel ok this run[unfolded create_volume_def]] show ?thesis using False by simp
next
  case True
  from run[unfolded create_volume_def validated_def if_P[OF True]] show ?thesis
  proof (rule serve[OF rel], goal_cases)
    case (1 sc D sc')
    obtain v where v: "sc_create_volume uuid now (vc_name request) (vc_size_gb request)
        (vc_description request) (Some (vc_tags request)) sc = (v, sc')" "r = Reply HTTP_201_CREATED (volume_to_response v)"
      using 1(3) by (auto split: prod.splits)
    from create_body[OF 1(1) _ _ v(1)] show ?case
      using assms(3) ok True 1(2) v(2)
      by (intro exI[of _ D]) (simp add: api_ok_def volume_to_response_def array_view_def)
  qed
qed

lemma get_volumes_refines:
  assumes rel: "array_rel sha cdc U cfg used g m" and run: "list_volumes cfg g = (r, t)"
  shows "\<exists>n. array_step bs GetVolumes m = (seen (VolumesReply r), n) \<and> array_rel sha cdc U cfg used t n"
  using run unfolding list_volumes_def
proof (rule serve[OF rel], goal_cases)
  case (1 sc D sc')
  then show ?case using list_all_body(2)[OF 1(1)]
    by (intro exI[of _ D]) (auto simp: Let_def image_image volume_to_response_def)
qed

lemma get_volume_refines:
  assumes rel: "array_rel sha cdc U cfg used g m" and run: "get_volume cfg vid g = (r, t)"
  shows "\<exists>n. array_step bs (GetVolume vid) m = (seen (VolumeReply r), n) \<and> array_rel sha cdc U cfg used t n"
  using run unfolding get_volume_def
proof (rule serve[OF rel], goal_cases)
  case (1 sc D sc')
  then show ?case using sc_invD(7)[OF array_okD(1)[OF 1(1)], of vid]
    by (intro exI[of _ D]) (auto simp: spec_volume_def volume_or_404_def volume_to_response_def sc_get_volume_def
        vm_get_volume_def array_view_def sc_view_def split: option.splits)
qed

lemma put_volume_api_refines:
  assumes rel: "array_rel sha cdc U cfg used g m" and run: "update_volume cfg now vid request g = (r, t)"
  shows "\<exists>n. array_step bs (PutVolume now vid request) m = (seen (VolumeReply r), n) \<and> array_rel sha cdc U cfg used t n"
  using run unfolding update_volume_def
proof (rule serve[OF rel], goal_cases)
  case (1 sc D sc')
  obtain x vm where u: "vm_update_volume now vid (vu_name request) (vu_description request) (vu_tags request)
      (sc_volume_manager sc) = (x, vm)" by fastforce
  then show ?case using update_body[OF 1(1) u] 1
    by (intro exI[of _ D]) (auto simp: array_view_def)
qed

lemma delete_volume_refines:
  assumes rel: "array_rel sha cdc U cfg used g m" and run: "delete_volume cfg sha vid g = (r, t)"
  shows "\<exists>n. array_step bs (DeleteVolume vid) m = (seen (EmptyReply r), n) \<and> array_rel sha cdc U cfg used t n"
  using run unfolding delete_volume_def
proof (rule serve[OF rel], goal_cases)
  case (1 sc D sc')
  obtain x where d: "sc_delete_volume sha vid sc = (x, sc')" using 1(3) by (auto split: prod.splits)
  then show ?case using delete_body[OF 1(1) d] 1
    by (intro exI[of _ D]) (auto simp: array_view_def fun_upd_idem)
qed

lemma post_resize_refines:
  assumes rel: "array_rel sha cdc U cfg used g m" and run: "resize_volume cfg now vid request g = (r, t)"
  shows "\<exists>n. array_step bs (PostResize now vid request) m = (seen (VolumeReply r), n) \<and> array_rel sha cdc U cfg used t n"
proof (cases "VolumeResize request")
  case False
  then show ?thesis using rel run by (simp add: resize_volume_def validated_def)
next
  case True
  from run[unfolded resize_volume_def validated_def if_P[OF True]] show ?thesis
  proof (rule serve[OF rel], goal_cases)
    case (1 sc D sc')
    obtain x vm where z: "vm_resize_volume now vid (gb_to_bytes (vz_size_gb request)) (sc_volume_manager sc) = (x, vm)"
      by fastforce
    then have "sc' = sc\<lparr>sc_volume_manager := vm\<rparr>"
      "r = (case x of Inl e \<Rightarrow> value_error_400 e | Inr y \<Rightarrow> volume_or_404 vid y)"
      using 1(3) by (auto split: sum.splits)
    then show ?case using resize_body[OF 1(1) z] True 1(2)
      by (intro exI[of _ D]) (auto simp: array_view_def)
  qed
qed

lemma post_write_refines:
  assumes rel: "array_rel sha cdc U cfg used g m" and ok: "api_ok U (PostWrite uuid now vid request)" and "uuid \<notin> used"
    and run: "write_data cfg sha cdc uuid now vid request g = (r, t)"
  shows "\<exists>n. array_step (cfg_default_block_size cfg) (PostWrite uuid now vid request) m = (seen (WriteReply r), n) \<and>
    array_rel sha cdc U cfg (used \<union> {uuid}) t n"
proof (cases "WriteRequest request")
  case False
  from rejected_step[OF rel ok this run[unfolded write_data_def]] show ?thesis using False by simp
next
  case True
  have uuid: "uuid \<noteq> []" using ok by (auto simp: api_ok_def)
  from run[unfolded write_data_def validated_def if_P[OF True]] show ?thesis
  proof (rule serve[OF rel], goal_cases)
    case (1 sc D sc')
    show ?case
    proof (cases "b64decode (wq_data request)")
      case (Inl e)
      then show ?thesis using 1 True array_ok_more[OF 1(1), of "{uuid}"] uuid by (intro exI[of _ D]) auto
    next
      case (Inr data)
      have data: "data \<in> U" using ok Inr by (simp add: api_ok_def)
      obtain w where w: "sc_write sha cdc uuid now vid (wq_offset request) data sc = (w, sc')"
        and r: "r = (case w of Inl e \<Rightarrow> value_error_400 e
          | Inr None \<Rightarrow> HTTPException HTTP_404_NOT_FOUND (volume_not_found vid)
          | Inr (Some x) \<Rightarrow> Reply HTTP_200_OK (write_to_response x))"
        using 1(3) Inr by (auto split: prod.splits sum.splits option.splits)
      from write_body[OF 1(1) assms(3) uuid data w] show ?thesis
        using True Inr 1(2) r by (elim exE) (auto simp: array_view_def split: sum.splits option.splits)
    qed
  qed
qed

lemma get_read_refines:
  assumes rel: "array_rel sha cdc U cfg used g m" and run: "read_data cfg sha cdc vid off g = (r, t)"
  shows "\<exists>n. array_step bs (GetRead vid off) m = (seen (ReadReply r), n) \<and> array_rel sha cdc U cfg used t n"
  using run unfolding read_data_def
proof (rule serve[OF rel], goal_cases)
  case (1 sc D sc')
  obtain x where x: "sc_read sha cdc vid off sc = (x, sc')"
    and r: "r = (case x of Inl e \<Rightarrow> Raised e
      | Inr None \<Rightarrow> HTTPException HTTP_404_NOT_FOUND (data_not_found off)
      | Inr (Some y) \<Rightarrow> Reply HTTP_200_OK (read_to_response y))"
    using 1(3) by (auto split: prod.splits sum.splits option.splits)
  from read_body[OF 1(1) x] obtain y where y: "array_ok sha cdc U cfg used sc' D" "array_view sc' D = array_view sc D"
    "x = Inr y" "map_option rd_data y = (case sc_view sc D vid of None \<Rightarrow> None | Some (sz, f) \<Rightarrow> f off)" by auto
  have m: "as_volumes m = sc_view sc D" using 1(2) by (simp add: array_view_def)
  have n: "array_view sc' D = m" using y(2) 1(2) by simp
  show ?case using y(1,4) m
    by (intro exI[of _ D]) (cases y, auto simp: n r y(3) read_to_response_def split: option.splits)
qed

lemma post_snapshot_refines:
  assumes rel: "array_rel sha cdc U cfg used g m" and ok: "api_ok U (PostSnapshot uuid now vid request)" and "uuid \<notin> used"
    and run: "create_snapshot cfg strftime uuid now vid request g = (r, t)"
  shows "\<exists>n. array_step bs (PostSnapshot uuid now vid request) m = (seen (SnapshotReply r), n) \<and>
    array_rel sha cdc U cfg (used \<union> {uuid}) t n"
proof (cases "SnapshotCreate request")
  case False
  from rejected_step[OF rel ok this run[unfolded create_snapshot_def]] show ?thesis using False by simp
next
  case True
  have uuid: "uuid \<noteq> []" using ok by (auto simp: api_ok_def)
  from run[unfolded create_snapshot_def validated_def if_P[OF True]] show ?thesis
  proof (rule serve[OF rel], goal_cases)
    case (1 sc D sc')
    obtain x where x: "sc_create_snapshot strftime uuid now vid (nc_name request) (nc_description request) sc = (x, sc')"
      and r: "r = (case x of None \<Rightarrow> HTTPException HTTP_404_NOT_FOUND (volume_not_found vid)
        | Some s \<Rightarrow> Reply HTTP_201_CREATED (snapshot_to_response s))"
      using 1(3) by (auto split: prod.splits option.splits)
    from snapshot_body[OF 1(1) assms(3) uuid x] show ?case
      using True 1(2) r by (intro exI[of _ D]) (auto simp: array_view_def split: option.splits)
  qed
qed

lemma get_snapshots_refines:
  assumes rel: "array_rel sha cdc U cfg used g m" and run: "list_snapshots cfg vid g = (r, t)"
  shows "\<exists>n. array_step bs (GetSnapshots vid) m = (seen (SnapshotsReply r), n) \<and> array_rel sha cdc U cfg used t n"
  using run unfolding list_snapshots_def
proof (rule serve[OF rel], goal_cases)
  case (1 sc D sc')
  have m: "as_volumes m vid = None \<longleftrightarrow> sc_get_volume sc vid = None"
    using 1(2) volume_view[of sc D vid] by (simp add: array_view_def)
  show ?case using list_snapshots_body[OF 1(1), of vid] 1 m
    by (intro exI[of _ D]) (auto simp: image_image snapshots_to_response_def snapshot_to_response_def split: option.splits)
qed

text \<open>The snapshot routes find a snapshot exactly when the specification has it under the volume.\<close>

lemma with_snapshot_cases:
  assumes "with_snapshot vid sid handle sc = (r, sc')"
  obtains (missing) "as_snapshots (array_view sc D) sid \<noteq> Some vid" "sc' = sc"
      "r = HTTPException HTTP_404_NOT_FOUND (snapshot_not_found sid)"
    | (found) s where "as_snapshots (array_view sc D) sid = Some vid" "sc_get_snapshot sc sid = Some s" "handle s sc = (r, sc')"
  using assms
  by (auto simp: with_snapshot_def array_view_def snapshot_volumes_def sc_get_snapshot_def sm_get_snapshot_def
      split: option.splits if_splits)

lemma get_snapshot_refines:
  assumes rel: "array_rel sha cdc U cfg used g m" and run: "get_snapshot cfg vid sid g = (r, t)"
  shows "\<exists>n. array_step bs (GetSnapshot vid sid) m = (seen (SnapshotReply r), n) \<and> array_rel sha cdc U cfg used t n"
  using run unfolding get_snapshot_def
proof (rule serve[OF rel], goal_cases)
  case (1 sc D sc')
  show ?case
    by (rule with_snapshot_cases[OF 1(3), of D]; use 1(1,2) in \<open>intro exI[of _ D]\<close>)
      (auto simp: spec_snapshot_def)
qed

lemma delete_snapshot_refines:
  assumes rel: "array_rel sha cdc U cfg used g m" and run: "delete_snapshot cfg vid sid g = (r, t)"
  shows "\<exists>n. array_step bs (DeleteSnapshot vid sid) m = (seen (EmptyReply r), n) \<and> array_rel sha cdc U cfg used t n"
  using run unfolding delete_snapshot_def
proof (rule serve[OF rel], goal_cases)
  case (1 sc D sc')
  show ?case
  proof (rule with_snapshot_cases[OF 1(3), of D], goal_cases)
    case 1
    then show ?case using \<open>array_ok sha cdc U cfg used sc D\<close> \<open>m = array_view sc D\<close>
      by (intro exI[of _ D]) (simp add: spec_snapshot_def)
  next
    case (2 s)
    obtain x where x: "sc_delete_snapshot sid sc = (x, sc')"
      and r: "r = (case x of Inl e \<Rightarrow> Raised e | Inr ok \<Rightarrow>
        if \<not> ok then HTTPException HTTP_404_NOT_FOUND (snapshot_not_found sid) else Reply HTTP_204_NO_CONTENT ())"
      using 2(3) by (auto split: prod.splits sum.splits)
    from delete_snapshot_body[OF \<open>array_ok sha cdc U cfg used sc D\<close> 2(2) x] show ?case
      using 2(1) r \<open>m = array_view sc D\<close> by (intro exI[of _ D]) (simp add: spec_snapshot_def)
  qed
qed

lemma get_all_snapshots_refines:
  assumes rel: "array_rel sha cdc U cfg used g m" and run: "list_all_snapshots cfg g = (r, t)"
  shows "\<exists>n. array_step bs GetAllSnapshots m = (seen (SnapshotsReply r), n) \<and> array_rel sha cdc U cfg used t n"
  using run unfolding list_all_snapshots_def
proof (rule serve[OF rel], goal_cases)
  case (1 sc D sc')
  then show ?case using list_all_body(1)[OF 1(1)]
    by (intro exI[of _ D]) (auto simp: image_image snapshots_to_response_def snapshot_to_response_def)
qed

interpretation arrays: simulation "api_step cfg sha cdc strftime" "array_step (cfg_default_block_size cfg)" seen
    "array_rel sha cdc U cfg" api_ids "api_ok U"
  for cfg sha cdc strftime U
proof
  fix used g m c a t
  assume rel: "array_rel sha cdc U cfg used g m" and ok: "api_ok U c" and fresh: "set (api_ids c) \<inter> used = {}"
    and run: "api_step cfg sha cdc strftime c g = (a, t)"
  show "\<exists>n. array_step (cfg_default_block_size cfg) c m = (seen a, n) \<and>
      array_rel sha cdc U cfg (used \<union> set (api_ids c)) t n"
  proof (cases c)
    case (PostVolume uuid now request)
    then show ?thesis using post_volume_refines[OF rel, of uuid now request] ok fresh run
      by (auto simp: map_prod_def split: prod.splits simp del: array_step.simps)
  qed (use rel ok fresh run get_volumes_refines[OF rel] get_volume_refines[OF rel] put_volume_api_refines[OF rel]
      delete_volume_refines[OF rel] post_resize_refines[OF rel] post_write_refines[OF rel] get_read_refines[OF rel]
      post_snapshot_refines[OF rel] get_snapshots_refines[OF rel] get_snapshot_refines[OF rel]
      delete_snapshot_refines[OF rel] get_all_snapshots_refines[OF rel]
      in \<open>auto simp: map_prod_def split: prod.splits simp del: array_step.simps seen.simps\<close>)
qed

abbreviation empty_array :: array_spec where
  "empty_array \<equiv> \<lparr> as_volumes = (\<lambda>_. None), as_snapshots = (\<lambda>_. None) \<rparr>"

lemma array_rel_init:
  assumes "StorageController cfg = Inr sc0" and "all_stages_on cfg" and "cfg_default_block_size cfg \<noteq> 0"
    and "codecs_ok cdc" and "collision_free sha U" and "\<forall>d \<in> U. storable (cfg_default_block_size cfg) d"
  shows "array_rel sha cdc U cfg {} None empty_array"
proof -
  note init = sc_inv_init[OF assms] and I = sc_inv_initialize[OF sc_inv_init(1)[OF assms]]
  have sm: "sc_snapshot_manager (sc_initialize sc0) = SnapshotManager"
    using assms(1) by (auto simp: StorageController_def sc_initialize_def split: sum.splits)
  have "array_ok sha cdc U cfg {} (sc_initialize sc0) (\<lambda>_ _. [])"
    using I(1,3) init(3) sm sm_inv_init by (simp add: array_ok_def SnapshotManager_def)
  moreover have "array_view (sc_initialize sc0) (\<lambda>_ _. []) = empty_array"
    using I(2) init(2) sm by (simp add: array_view_def snapshot_volumes_def SnapshotManager_def fun_eq_iff)
  ultimately show ?thesis using assms(1) by (force simp: array_rel_def get_controller_def)
qed

section \<open>Property\<close>


lemma demo_decode: "b64decode ''AQI='' = Inr [1, 2]"
  by code_simp

lemma demo_answers:
  "fst (run_calls (array_step (cfg_default_block_size default_settings))
     [PostVolume ''v1'' 1 \<lparr>vc_name = ''vol'', vc_size_gb = 1, vc_description = [], vc_tags = []\<rparr>,
      PostWrite ''b1'' 2 ''v1'' \<lparr>wq_offset = 4096, wq_data = ''AQI=''\<rparr>, GetRead ''v1'' 4096] empty_array)
   = [SeenVolume 201 ''v1'' (gb_to_bytes 1), Seen 200, SeenData 200 ''AQI='']"
proof -
  have enc: "b64encode [1, 2] = ''AQI=''" by code_simp
  have size: "gb_to_bytes 1 = 1073741824"
    using gb_to_bytes_exact[of 1073741824] by (simp add: bytes_to_gb_def fdiv_def)
  have bs: "cfg_default_block_size default_settings = 4096" by (simp add: default_settings_def)
  show ?thesis
    by (simp add: bs demo_decode enc size VolumeCreate_def valid_name_def valid_size_gb_def WriteRequest_def spec_write_def
        del: b64encode.simps)
qed


end
