(* ===== verification/Mediator.thy ===== *)
theory Mediator
  imports Config "HOL-Library.List_Lexorder" "HOL-Library.Char_ord"
begin

text \<open>
  \<^verbatim>\<open>activecluster/mediator.py\<close>: membership, heartbeats, quorum and the election of a primary. The clock
  and the answers of other nodes are arguments. The bodies under the lock never suspend, so each of
  them is one step; sending heartbeats suspends after every node, and is a fold of one step per node.
  The field \<^verbatim>\<open>_self_info\<close> is only ever written, and is left out.
\<close>

section \<open>State\<close>

datatype node_role = PRIMARY | SECONDARY | WITNESS

datatype quorum_state = HAS_QUORUM | NO_QUORUM | SPLIT_BRAIN

record node_info =
  nd_id :: string
  nd_role :: node_role
  nd_url :: string
  nd_healthy :: bool
  nd_last_heartbeat :: double
  nd_vote :: "string option"

record mediator_stats =
  ms_heartbeats_sent :: int
  ms_heartbeats_received :: int
  ms_elections_held :: int
  ms_split_brains_prevented :: int

text \<open>
  The tasks \<^verbatim>\<open>asyncio.create_task(self.initiate_election())\<close> that have not run yet are part of the state.
\<close>

record mediator =
  me_node_id :: string
  me_heartbeat_interval_ms :: int
  me_failure_threshold_ms :: int
  me_nodes :: "(string, node_info) dict"
  me_current_primary :: "string option"
  me_heartbeat_task :: bool
  me_stats :: mediator_stats
  me_pending_elections :: nat

definition NodeInfo :: "double \<Rightarrow> string \<Rightarrow> node_role \<Rightarrow> string \<Rightarrow> node_info" where
  "NodeInfo now node_id role url =
     \<lparr> nd_id = node_id, nd_role = role, nd_url = url, nd_healthy = True, nd_last_heartbeat = now,
       nd_vote = None \<rparr>"

definition Mediator :: "string \<Rightarrow> int \<Rightarrow> int \<Rightarrow> mediator" where
  "Mediator node_id heartbeat_interval_ms failure_threshold_ms =
     \<lparr> me_node_id = node_id, me_heartbeat_interval_ms = heartbeat_interval_ms,
       me_failure_threshold_ms = failure_threshold_ms, me_nodes = [], me_current_primary = None,
       me_heartbeat_task = False,
       me_stats = \<lparr> ms_heartbeats_sent = 0, ms_heartbeats_received = 0, ms_elections_held = 0,
                    ms_split_brains_prevented = 0 \<rparr>,
       me_pending_elections = 0 \<rparr>"

section \<open>Operations\<close>

definition me_register_self :: "double \<Rightarrow> node_role \<Rightarrow> string \<Rightarrow> mediator \<Rightarrow> mediator" where
  "me_register_self now role url m =
     m\<lparr>me_nodes := dict_set (me_node_id m) (NodeInfo now (me_node_id m) role url) (me_nodes m)\<rparr>"

definition me_add_node ::
    "double \<Rightarrow> string \<Rightarrow> node_role \<Rightarrow> string \<Rightarrow> mediator \<Rightarrow> node_info \<times> mediator" where
  "me_add_node now node_id role url m =
     (let node = NodeInfo now node_id role url
      in (node, m\<lparr>me_nodes := dict_set node_id node (me_nodes m)\<rparr>))"

definition me_remove_node :: "string \<Rightarrow> mediator \<Rightarrow> bool \<times> mediator" where
  "me_remove_node node_id m =
     (if has_key (me_nodes m) node_id then (True, m\<lparr>me_nodes := dict_del node_id (me_nodes m)\<rparr>)
      else (False, m))"

definition me_start_heartbeat :: "mediator \<Rightarrow> mediator" where
  "me_start_heartbeat m = m\<lparr>me_heartbeat_task := True\<rparr>"

definition me_stop_heartbeat :: "mediator \<Rightarrow> mediator" where
  "me_stop_heartbeat m = m\<lparr>me_heartbeat_task := False\<rparr>"

record heartbeat =
  hb_source_node :: string
  hb_timestamp :: double
  hb_current_primary :: "string option"

record heartbeat_reply =
  hr_node_id :: string
  hr_current_primary :: "string option"
  hr_timestamp :: double

text \<open>
  The HTTP client: the status code a POST to a URL is answered with, \<open>None\<close> when it raises.
\<close>

type_synonym heartbeat_post = "string \<Rightarrow> heartbeat \<Rightarrow> int option"

definition send_heartbeat ::
    "heartbeat_post \<Rightarrow> (string \<Rightarrow> double) \<Rightarrow> string \<times> node_info \<Rightarrow> mediator \<Rightarrow> mediator" where
  "send_heartbeat post clock = (\<lambda>(node_id, node) m.
     if node_id = me_node_id m then m
     else if post (nd_url node @ ''/api/v1/cluster/heartbeat'')
               \<lparr> hb_source_node = me_node_id m, hb_timestamp = clock node_id,
                 hb_current_primary = me_current_primary m \<rparr> = Some 200
     then let st = me_stats m in m\<lparr>me_stats := st\<lparr>ms_heartbeats_sent := ms_heartbeats_sent st + 1\<rparr>\<rparr>
     else m)"

definition me_send_heartbeats :: "heartbeat_post \<Rightarrow> (string \<Rightarrow> double) \<Rightarrow> mediator \<Rightarrow> mediator" where
  "me_send_heartbeats post clock m = fold (send_heartbeat post clock) (me_nodes m) m"

text \<open>The argument \<^verbatim>\<open>current_primary\<close> of the sender is not looked at.\<close>

definition me_receive_heartbeat ::
    "double \<Rightarrow> string \<Rightarrow> double \<Rightarrow> string option \<Rightarrow> mediator \<Rightarrow> heartbeat_reply \<times> mediator" where
  "me_receive_heartbeat now source_node timestamp current_primary m =
     (let m' = (case dict_get (me_nodes m) source_node of
                  None \<Rightarrow> m
                | Some node \<Rightarrow>
                    let st = me_stats m
                    in m\<lparr> me_nodes := dict_set source_node
                            (node\<lparr>nd_last_heartbeat := now, nd_healthy := True\<rparr>) (me_nodes m),
                          me_stats := st\<lparr>ms_heartbeats_received := ms_heartbeats_received st + 1\<rparr> \<rparr>)
      in (\<lparr> hr_node_id = me_node_id m', hr_current_primary = me_current_primary m', hr_timestamp = now \<rparr>,
          m'))"

definition is_silent :: "double \<Rightarrow> int \<Rightarrow> node_info \<Rightarrow> bool" where
  "is_silent now threshold node \<longleftrightarrow> of_int threshold < fmul (fsub now (nd_last_heartbeat node)) 1000"

definition check_node :: "double \<Rightarrow> mediator \<Rightarrow> string \<times> node_info \<Rightarrow> string \<times> node_info" where
  "check_node now m = (\<lambda>(node_id, node).
     if node_id \<noteq> me_node_id m \<and> is_silent now (me_failure_threshold_ms m) node
     then (node_id, node\<lparr>nd_healthy := False\<rparr>) else (node_id, node))"

definition primary_went_down :: "double \<Rightarrow> mediator \<Rightarrow> string \<times> node_info \<Rightarrow> bool" where
  "primary_went_down now m = (\<lambda>(node_id, node).
     node_id \<noteq> me_node_id m \<and> is_silent now (me_failure_threshold_ms m) node \<and> nd_healthy node \<and>
     Some node_id = me_current_primary m)"

definition me_check_node_health :: "double \<Rightarrow> mediator \<Rightarrow> mediator" where
  "me_check_node_health now m =
     m\<lparr> me_nodes := map (check_node now m) (me_nodes m),
        me_pending_elections := me_pending_elections m
          + length (filter (primary_went_down now m) (me_nodes m)) \<rparr>"

definition quorum_size :: "nat \<Rightarrow> nat" where
  "quorum_size total_nodes = total_nodes div 2 + 1"

definition healthy_nodes :: "mediator \<Rightarrow> nat" where
  "healthy_nodes m = length (filter nd_healthy (dict_values (me_nodes m)))"

definition me_get_quorum_state :: "mediator \<Rightarrow> quorum_state" where
  "me_get_quorum_state m =
     (if quorum_size (length (me_nodes m)) \<le> healthy_nodes m then HAS_QUORUM else NO_QUORUM)"

definition me_has_quorum :: "mediator \<Rightarrow> bool" where
  "me_has_quorum m \<longleftrightarrow> me_get_quorum_state m = HAS_QUORUM"

definition is_candidate :: "node_info \<Rightarrow> bool" where
  "is_candidate n \<longleftrightarrow> nd_healthy n \<and> nd_role n \<in> {PRIMARY, SECONDARY}"

text \<open>The loop over the nodes that makes one of them the only primary.\<close>

definition promote :: "string \<Rightarrow> node_info \<Rightarrow> node_info" where
  "promote new_primary n =
     (if nd_id n = new_primary then n\<lparr>nd_role := PRIMARY\<rparr>
      else if nd_role n = PRIMARY then n\<lparr>nd_role := SECONDARY\<rparr> else n)"

definition me_initiate_election :: "mediator \<Rightarrow> string option \<times> mediator" where
  "me_initiate_election m =
     (if \<not> me_has_quorum m then (None, m)
      else
        let st = me_stats m;
            m = m\<lparr>me_stats := st\<lparr>ms_elections_held := ms_elections_held st + 1\<rparr>\<rparr>;
            candidates = filter is_candidate (dict_values (me_nodes m))
        in if candidates = [] then (None, m)
           else
             let new_primary = nd_id (hd (sort_key nd_id candidates))
             in (Some new_primary,
                 m\<lparr> me_current_primary := Some new_primary,
                    me_nodes := map (\<lambda>(k, n). (k, promote new_primary n)) (me_nodes m) \<rparr>))"

text \<open>A scheduled election runs.\<close>

definition me_run_pending :: "mediator \<Rightarrow> mediator" where
  "me_run_pending m =
     (if me_pending_elections m = 0 then m
      else snd (me_initiate_election (m\<lparr>me_pending_elections := me_pending_elections m - 1\<rparr>)))"

definition me_get_primary :: "mediator \<Rightarrow> string option" where
  "me_get_primary m = me_current_primary m"

text \<open>\<^verbatim>\<open>set_primary\<close> compares the keys, where the election compares the ids inside the nodes.\<close>

definition promote_key :: "string \<Rightarrow> string \<times> node_info \<Rightarrow> string \<times> node_info" where
  "promote_key node_id = (\<lambda>(k, n).
     if k = node_id then (k, n\<lparr>nd_role := PRIMARY\<rparr>)
     else if nd_role n = PRIMARY then (k, n\<lparr>nd_role := SECONDARY\<rparr>) else (k, n))"

definition me_set_primary :: "string \<Rightarrow> mediator \<Rightarrow> bool \<times> mediator" where
  "me_set_primary node_id m =
     (if \<not> has_key (me_nodes m) node_id then (False, m)
      else (True, m\<lparr> me_current_primary := Some node_id, me_nodes := map (promote_key node_id) (me_nodes m) \<rparr>))"

fun role_value :: "node_role \<Rightarrow> string" where
  "role_value PRIMARY = ''primary''"
| "role_value SECONDARY = ''secondary''"
| "role_value WITNESS = ''witness''"

fun quorum_value :: "quorum_state \<Rightarrow> string" where
  "quorum_value HAS_QUORUM = ''has_quorum''"
| "quorum_value NO_QUORUM = ''no_quorum''"
| "quorum_value SPLIT_BRAIN = ''split_brain''"

record node_status =
  ns_role :: string
  ns_is_healthy :: bool
  ns_last_heartbeat :: double

record cluster_status =
  cs_self_node_id :: string
  cs_current_primary :: "string option"
  cs_quorum_state :: string
  cs_has_quorum :: bool
  cs_nodes :: "(string, node_status) dict"

definition node_status_of :: "node_info \<Rightarrow> node_status" where
  "node_status_of n =
     \<lparr> ns_role = role_value (nd_role n), ns_is_healthy = nd_healthy n, ns_last_heartbeat = nd_last_heartbeat n \<rparr>"

definition me_get_cluster_status :: "mediator \<Rightarrow> cluster_status" where
  "me_get_cluster_status m =
     (let quorum = me_get_quorum_state m
      in \<lparr> cs_self_node_id = me_node_id m, cs_current_primary = me_current_primary m,
           cs_quorum_state = quorum_value quorum, cs_has_quorum = (quorum = HAS_QUORUM),
           cs_nodes = map (\<lambda>(k, n). (k, node_status_of n)) (me_nodes m) \<rparr>)"

definition me_get_stats :: "mediator \<Rightarrow> mediator_stats" where
  "me_get_stats m = me_stats m"

definition me_close :: "mediator \<Rightarrow> mediator" where
  "me_close m = me_stop_heartbeat m"

section \<open>Membership and quorum\<close>

text \<open>Every node is filed under its own id.\<close>

definition nodes_ok :: "mediator \<Rightarrow> bool" where
  "nodes_ok m \<longleftrightarrow> wf_dict (me_nodes m) \<and> (\<forall>k n. dict_get (me_nodes m) k = Some n \<longrightarrow> nd_id n = k)"

definition members :: "mediator \<Rightarrow> string set" where
  "members m = set (dict_keys (me_nodes m))"

definition healthy_ids :: "mediator \<Rightarrow> string set" where
  "healthy_ids m = {k. \<exists>n. dict_get (me_nodes m) k = Some n \<and> nd_healthy n}"

definition candidate_ids :: "mediator \<Rightarrow> string set" where
  "candidate_ids m = {k. \<exists>n. dict_get (me_nodes m) k = Some n \<and> is_candidate n}"

definition primary_ids :: "mediator \<Rightarrow> string set" where
  "primary_ids m = {k. \<exists>n. dict_get (me_nodes m) k = Some n \<and> nd_role n = PRIMARY}"

lemma card_filter_vals:
  assumes "wf_dict d"
  shows "length (filter P (dict_values d)) = card {k. \<exists>v. dict_get d k = Some v \<and> P v}"
  using assms
proof (induction d)
  case (Cons p d)
  obtain k v where p: "p = (k, v)" by (cases p)
  have k: "dict_get d k = None" and wf: "wf_dict d"
    using Cons.prems p by (auto simp: wf_dict_def map_of_eq_None_iff)
  let ?S = "{x. \<exists>w. dict_get d x = Some w \<and> P w}"
  have fin: "finite ?S" by (rule finite_subset[OF _ finite_dom_map_of[of d]]) auto
  have "{x. \<exists>w. dict_get (p # d) x = Some w \<and> P w} = (if P v then insert k ?S else ?S)"
    using k p by (auto split: if_splits)
  then show ?case using Cons.IH[OF wf] fin k p by simp
qed simp

lemma healthy_nodes_card: "nodes_ok m \<Longrightarrow> healthy_nodes m = card (healthy_ids m)"
  unfolding healthy_nodes_def healthy_ids_def nodes_ok_def by (intro card_filter_vals) simp

lemma card_members: "nodes_ok m \<Longrightarrow> length (me_nodes m) = card (members m)"
  unfolding nodes_ok_def wf_dict_def members_def by (metis distinct_card length_map)

lemma healthy_members: "healthy_ids m \<subseteq> members m"
  unfolding healthy_ids_def members_def by (auto dest: map_of_SomeD intro: rev_image_eqI)

lemma has_quorum_iff:
  "nodes_ok m \<Longrightarrow> me_has_quorum m \<longleftrightarrow> card (members m) div 2 < card (healthy_ids m)"
  by (simp add: me_has_quorum_def me_get_quorum_state_def quorum_size_def card_members healthy_nodes_card
      Suc_le_eq)

text \<open>Two majorities of one membership have a node in common.\<close>

lemma quorums_intersect:
  assumes "nodes_ok m" and "nodes_ok m'" and "members m = members m'"
    and "me_has_quorum m" and "me_has_quorum m'"
  shows "healthy_ids m \<inter> healthy_ids m' \<noteq> {}"
proof
  assume disjoint: "healthy_ids m \<inter> healthy_ids m' = {}"
  have fin: "finite (members m)" by (simp add: members_def)
  then have "finite (healthy_ids m)" "finite (healthy_ids m')"
    using healthy_members[of m] healthy_members[of m'] assms(3) by (metis finite_subset)+
  then have "card (healthy_ids m) + card (healthy_ids m') = card (healthy_ids m \<union> healthy_ids m')"
    using card_Un_disjoint[OF _ _ disjoint] by simp
  also have "\<dots> \<le> card (members m)"
    using healthy_members[of m] healthy_members[of m'] assms(3) by (intro card_mono[OF fin]) simp
  finally show False using assms(3,4,5) has_quorum_iff[OF assms(1)] has_quorum_iff[OF assms(2)] by simp
qed

section \<open>Elections\<close>

lemma hd_sort_key:
  assumes "xs \<noteq> []"
  shows "hd (sort_key f xs) \<in> set xs" and "\<And>x. x \<in> set xs \<Longrightarrow> f (hd (sort_key f xs)) \<le> f x"
proof -
  obtain y ys where s: "sort_key f xs = y # ys"
    using assms by (metis length_0_conv length_sort neq_Nil_conv)
  have y: "set xs = insert y (set ys)" using s set_sort[of f xs] by simp
  have "sorted (map f (y # ys))" using sorted_sort_key[of f xs] s by simp
  then show "hd (sort_key f xs) \<in> set xs" and "\<And>x. x \<in> set xs \<Longrightarrow> f (hd (sort_key f xs)) \<le> f x"
    using s y by auto
qed

lemma promote_get:
  "dict_get (map (\<lambda>(k, n). (k, promote p n)) d) x = map_option (promote p) (dict_get d x)"
  by (induction d) auto

lemma promote_simps [simp]:
  "nd_id (promote p n) = nd_id n" "nd_healthy (promote p n) = nd_healthy n"
  "nd_last_heartbeat (promote p n) = nd_last_heartbeat n" "nd_url (promote p n) = nd_url n"
  "nd_role (promote p n) = PRIMARY \<longleftrightarrow> nd_id n = p"
  by (simp_all add: promote_def)

lemma promote_key_promote:
  assumes "nodes_ok m"
  shows "map (promote_key p) (me_nodes m) = map (\<lambda>(k, n). (k, promote p n)) (me_nodes m)"
proof (rule map_cong[OF refl])
  fix x assume x: "x \<in> set (me_nodes m)"
  have "dict_get (me_nodes m) (fst x) = Some (snd x)"
    using assms x by (simp add: nodes_ok_def wf_dict_def)
  then have "nd_id (snd x) = fst x" using assms by (simp add: nodes_ok_def)
  then show "promote_key p x = (case x of (k, n) \<Rightarrow> (k, promote p n))"
    by (cases x) (simp add: promote_key_def promote_def)
qed

lemma candidates_mem:
  assumes "nodes_ok m"
  shows "nd_id ` set (filter is_candidate (dict_values (me_nodes m))) = candidate_ids m"
proof -
  have wf: "wf_dict (me_nodes m)" using assms by (simp add: nodes_ok_def)
  have "set (filter is_candidate (dict_values (me_nodes m)))
      = {n. (\<exists>k. dict_get (me_nodes m) k = Some n) \<and> is_candidate n}"
    using dict_values_get[OF wf] by auto
  then show ?thesis using assms by (force simp: candidate_ids_def nodes_ok_def)
qed

text \<open>The state after a node was made the only primary.\<close>

definition led_by :: "string \<Rightarrow> mediator \<Rightarrow> mediator" where
  "led_by p m = m\<lparr> me_current_primary := Some p, me_nodes := map (\<lambda>(k, n). (k, promote p n)) (me_nodes m) \<rparr>"

lemma led_by_simps [simp]:
  "me_current_primary (led_by p m) = Some p" "me_stats (led_by p m) = me_stats m"
  "me_node_id (led_by p m) = me_node_id m" "members (led_by p m) = members m"
  "me_pending_elections (led_by p m) = me_pending_elections m"
  "me_failure_threshold_ms (led_by p m) = me_failure_threshold_ms m"
  by (simp_all add: led_by_def members_def image_image split_beta)

lemma led_by_get: "dict_get (me_nodes (led_by p m)) k = map_option (promote p) (dict_get (me_nodes m) k)"
  by (simp add: led_by_def promote_get)

lemma led_by_ok: "nodes_ok m \<Longrightarrow> nodes_ok (led_by p m)"
  by (auto simp: nodes_ok_def led_by_get) (simp add: led_by_def wf_dict_def split_beta comp_def)

lemma led_by_healthy [simp]: "healthy_ids (led_by p m) = healthy_ids m"
  by (auto simp: healthy_ids_def led_by_get)

lemma led_by_primary: "nodes_ok m \<Longrightarrow> p \<in> members m \<Longrightarrow> primary_ids (led_by p m) = {p}"
  by (force simp: primary_ids_def led_by_get nodes_ok_def members_def map_of_eq_None_iff
      dest: map_of_SomeD weak_map_of_SomeI)

lemma set_primary_led:
  "nodes_ok m \<Longrightarrow> me_set_primary p m = (if p \<in> members m then (True, led_by p m) else (False, m))"
  by (simp add: me_set_primary_def has_key_def members_def map_of_eq_None_iff promote_key_promote led_by_def)

definition count_election :: "mediator \<Rightarrow> mediator" where
  "count_election m = m\<lparr>me_stats := (me_stats m)\<lparr>ms_elections_held := ms_elections_held (me_stats m) + 1\<rparr>\<rparr>"

lemma count_election_simps [simp]:
  "me_nodes (count_election m) = me_nodes m" "me_current_primary (count_election m) = me_current_primary m"
  "nodes_ok (count_election m) = nodes_ok m" "members (count_election m) = members m"
  "primary_ids (count_election m) = primary_ids m" "healthy_ids (count_election m) = healthy_ids m"
  by (simp_all add: count_election_def nodes_ok_def members_def primary_ids_def healthy_ids_def)

lemma candidates_finite [simp]: "finite (candidate_ids m)"
  unfolding candidate_ids_def by (rule finite_subset[OF _ finite_dom_map_of[of "me_nodes m"]]) auto

lemma candidates_healthy: "candidate_ids m \<subseteq> healthy_ids m"
  by (auto simp: candidate_ids_def healthy_ids_def is_candidate_def)

text \<open>The election picks the least id among the candidates.\<close>

lemma election_led:
  assumes "nodes_ok m"
  shows "me_initiate_election m =
    (if \<not> me_has_quorum m then (None, m)
     else if candidate_ids m = {} then (None, count_election m)
     else (Some (Min (candidate_ids m)), led_by (Min (candidate_ids m)) (count_election m)))"
proof (cases "me_has_quorum m")
  case True
  let ?cs = "filter is_candidate (dict_values (me_nodes m))"
  note ids = candidates_mem[OF assms]
  have "nd_id (hd (sort_key nd_id ?cs)) = Min (candidate_ids m)" if "?cs \<noteq> []"
  proof (rule Min_eqI[symmetric, OF candidates_finite])
    fix y assume "y \<in> candidate_ids m"
    then obtain n where "n \<in> set ?cs" "y = nd_id n" unfolding ids[symmetric] by (elim imageE)
    then show "nd_id (hd (sort_key nd_id ?cs)) \<le> y" using hd_sort_key(2)[OF that] by metis
  next
    show "nd_id (hd (sort_key nd_id ?cs)) \<in> candidate_ids m"
      unfolding ids[symmetric] by (rule imageI[OF hd_sort_key(1)[OF that]])
  qed
  moreover have "?cs = [] \<longleftrightarrow> candidate_ids m = {}" using ids by (metis image_is_empty set_empty)
  ultimately show ?thesis
    using True by (simp add: me_initiate_election_def Let_def led_by_def count_election_def)
qed (simp add: me_initiate_election_def)

section \<open>One primary\<close>

text \<open>At most one node has the primary's role, and it is the current primary.\<close>

definition me_inv :: "mediator \<Rightarrow> bool" where
  "me_inv m \<longleftrightarrow> nodes_ok m \<and> (\<forall>k \<in> primary_ids m. me_current_primary m = Some k)"

text \<open>A mediator starts empty, or after this node has taken the lead.\<close>

definition me_init :: "mediator \<Rightarrow> bool" where
  "me_init m \<longleftrightarrow> (\<exists>node hb threshold. m = Mediator node hb threshold) \<or>
     (\<exists>p m0. nodes_ok m0 \<and> me_set_primary p m0 = (True, m))"

text \<open>What happens to it: nodes join (none of them claims to be primary), leave, send heartbeats, fall silent;
  elections are held, asked for or scheduled; an operator sets the primary.\<close>

inductive me_step :: "mediator \<Rightarrow> mediator \<Rightarrow> bool" where
  me_registers: "role \<noteq> PRIMARY \<Longrightarrow> me_step m (me_register_self now role url m)"
| me_joins: "role \<noteq> PRIMARY \<Longrightarrow> me_step m (snd (me_add_node now i role url m))"
| me_leaves: "me_step m (snd (me_remove_node i m))"
| me_sends: "me_step m (me_send_heartbeats post clock m)"
| me_hears: "me_step m (snd (me_receive_heartbeat now i ts p m))"
| me_checks: "me_step m (me_check_node_health now m)"
| me_elects: "me_step m (snd (me_initiate_election m))"
| me_pending: "me_step m (me_run_pending m)"
| me_sets: "me_step m (snd (me_set_primary i m))"

lemma nodes_ok_set:
  assumes "nodes_ok m" and "nd_id n = k" and "me_nodes m' = dict_set k n (me_nodes m)"
  shows "nodes_ok m'"
  using assms by (auto simp: nodes_ok_def)

lemma me_inv_set:
  assumes "me_inv m" and "nd_id n = k" and "me_nodes m' = dict_set k n (me_nodes m)"
    and "nd_role n = PRIMARY \<longrightarrow> k \<in> primary_ids m" and "me_current_primary m' = me_current_primary m"
  shows "me_inv m'"
  using assms nodes_ok_set[of m n k m'] by (auto simp: me_inv_def primary_ids_def split: if_splits)

lemma check_node_get:
  "dict_get (map (check_node now m) d) k = map_option (\<lambda>n. snd (check_node now m (k, n))) (dict_get d k)"
  by (induction d) (auto simp: check_node_def)

lemma check_node_simps [simp]:
  "nd_id (snd (check_node now m (k, n))) = nd_id n" "nd_role (snd (check_node now m (k, n))) = nd_role n"
  "fst (check_node now m x) = fst x"
  by (auto simp: check_node_def split: prod.splits)

lemma check_health_ok: "nodes_ok m \<Longrightarrow> nodes_ok (me_check_node_health now m)"
  by (auto simp: nodes_ok_def me_check_node_health_def check_node_get wf_dict_def comp_def)

lemma check_health_roles: "primary_ids (me_check_node_health now m) = primary_ids m"
  by (auto simp: primary_ids_def me_check_node_health_def check_node_get)

lemma send_keeps:
  "me_nodes (me_send_heartbeats post clock m) = me_nodes m \<and>
   me_current_primary (me_send_heartbeats post clock m) = me_current_primary m"
proof -
  have "me_nodes (fold (send_heartbeat post clock) ns m) = me_nodes m \<and>
      me_current_primary (fold (send_heartbeat post clock) ns m) = me_current_primary m" for ns
    by (induction ns arbitrary: m) (auto simp: send_heartbeat_def Let_def split: prod.splits)
  then show ?thesis by (simp add: me_send_heartbeats_def)
qed

lemma me_inv_led: "nodes_ok m \<Longrightarrow> p \<in> members m \<Longrightarrow> me_inv (led_by p m)"
  by (simp add: me_inv_def led_by_ok led_by_primary)

lemma me_inv_election:
  assumes "me_inv m"
  shows "me_inv (snd (me_initiate_election m))"
proof -
  have ok: "nodes_ok m" using assms by (simp add: me_inv_def)
  have "me_inv (count_election m)" using assms by (simp add: me_inv_def)
  moreover have "Min (candidate_ids m) \<in> members m" if "candidate_ids m \<noteq> {}"
    using Min_in[OF candidates_finite that] candidates_healthy healthy_members by blast
  ultimately show ?thesis
    using assms ok me_inv_led[of "count_election m"] by (simp add: election_led[OF ok])
qed

lemma me_inv_pending: "me_inv m \<Longrightarrow> me_inv (me_run_pending m)"
  using me_inv_election[of "m\<lparr>me_pending_elections := me_pending_elections m - 1\<rparr>"]
  by (simp add: me_run_pending_def me_inv_def nodes_ok_def primary_ids_def)

lemma me_inv_step:
  assumes "me_inv m" and "me_step m m'"
  shows "me_inv m'"
  using assms(2,1)
proof cases
  case (me_registers role now url)
  then show ?thesis using me_inv_set[OF assms(1), of "NodeInfo now (me_node_id m) role url" "me_node_id m" m']
    by (simp add: me_register_self_def NodeInfo_def)
next
  case (me_joins role now i url)
  then show ?thesis using me_inv_set[OF assms(1), of "NodeInfo now i role url" i m']
    by (simp add: me_add_node_def NodeInfo_def Let_def)
next
  case (me_leaves i)
  then show ?thesis using assms(1)
    by (auto simp: me_remove_node_def me_inv_def nodes_ok_def primary_ids_def split: if_splits)
next
  case (me_sends post clock)
  then show ?thesis using assms(1) send_keeps[of post clock m]
    by (simp add: me_inv_def nodes_ok_def primary_ids_def)
next
  case (me_hears now i ts p)
  show ?thesis
  proof (cases "dict_get (me_nodes m) i")
    case None
    then show ?thesis using me_hears assms(1) by (simp add: me_receive_heartbeat_def Let_def)
  next
    case (Some n)
    then have "nd_id n = i" using assms(1) by (simp add: me_inv_def nodes_ok_def)
    then show ?thesis
      using me_inv_set[OF assms(1), of "n\<lparr>nd_last_heartbeat := now, nd_healthy := True\<rparr>" i m'] me_hears Some
      by (simp add: me_receive_heartbeat_def Let_def primary_ids_def)
  qed
next
  case (me_checks now)
  then show ?thesis
    using assms(1) check_health_ok[of m now] check_health_roles[of now m]
    by (simp add: me_inv_def) (simp add: me_check_node_health_def)
next
  case me_elects
  then show ?thesis using me_inv_election[OF assms(1)] by simp
next
  case me_pending
  then show ?thesis using me_inv_pending[OF assms(1)] by simp
next
  case (me_sets i)
  then show ?thesis using assms(1) me_inv_led[of m i] by (simp add: me_inv_def set_primary_led)
qed

lemma me_inv_init:
  assumes "me_init m"
  shows "me_inv m"
proof -
  consider node hb threshold where "m = Mediator node hb threshold"
    | p m0 where "nodes_ok m0" "me_set_primary p m0 = (True, m)"
    using assms unfolding me_init_def by blast
  then show ?thesis
  proof cases
    case 1
    then show ?thesis by (simp add: me_inv_def nodes_ok_def primary_ids_def Mediator_def)
  next
    case 2
    then have "p \<in> members m0" "m = led_by p m0" by (simp_all add: set_primary_led split: if_splits)
    then show ?thesis using me_inv_led[OF 2(1)] by simp
  qed
qed

interpretation mediators: invariant_machine me_init me_step me_inv
  by unfold_locales (fact me_inv_init, fact me_inv_step)

section \<open>Properties\<close>

text \<open>
  C10. No split brain from elections. When two mediators have the same membership but each sees only
  nodes healthy that the other one does not (the two sides of a partition), at most one of them can
  elect: on the other one the election returns nothing and changes nothing, because two majorities of
  one membership always share a node.
\<close>

theorem no_split_brain_election:
  assumes "nodes_ok m" and "nodes_ok m'" and "members m = members m'"
    and "healthy_ids m \<inter> healthy_ids m' = {}"
  shows "me_initiate_election m = (None, m) \<or> me_initiate_election m' = (None, m')"
  using quorums_intersect[OF assms(1-3)] assms(4) election_led[OF assms(1)] election_led[OF assms(2)] by auto

definition partition_side :: "string list \<Rightarrow> string \<Rightarrow> mediator" where
  "partition_side up self = (Mediator self 1000 5000)\<lparr>me_nodes :=
     map (\<lambda>i. (i, (NodeInfo 0 i SECONDARY [])\<lparr>nd_healthy := i \<in> set up\<rparr>)) [''a'', ''b'', ''c'']\<rparr>"

lemma partition_side_simps:
  "nodes_ok (partition_side up self)" "members (partition_side up self) = {''a'', ''b'', ''c''}"
  "healthy_ids (partition_side up self) = {''a'', ''b'', ''c''} \<inter> set up"
  by (auto simp: partition_side_def nodes_ok_def members_def healthy_ids_def NodeInfo_def wf_dict_def
      split: if_splits)

theorem no_split_brain_election_witness:
  "me_initiate_election (partition_side [''a'', ''b''] ''a'') = (None, partition_side [''a'', ''b''] ''a'') \<or>
   me_initiate_election (partition_side [''c''] ''c'') = (None, partition_side [''c''] ''c'')"
  by (rule no_split_brain_election) (simp_all add: partition_side_simps)

text \<open>
  C11. Elections, in every state a mediator can reach: without a quorum nothing happens; with one the
  election is counted, and the healthy data node with the least id becomes the primary (none if there is
  no such node). It is then the only node with the primary's role, and membership and health are as
  before. At all times at most one node has that role, and it is the current primary.
\<close>

theorem election_elects_one_primary:
  assumes "reach me_init me_step m" and "me_initiate_election m = (r, m')"
  shows "(\<forall>k \<in> primary_ids m. me_current_primary m = Some k) \<and>
    (\<not> me_has_quorum m \<longrightarrow> r = None \<and> m' = m) \<and>
    (me_has_quorum m \<longrightarrow>
       ms_elections_held (me_stats m') = ms_elections_held (me_stats m) + 1 \<and>
       members m' = members m \<and> healthy_ids m' = healthy_ids m \<and>
       (candidate_ids m = {} \<longrightarrow> r = None \<and> me_current_primary m' = me_current_primary m) \<and>
       (candidate_ids m \<noteq> {} \<longrightarrow> (\<exists>p \<in> candidate_ids m. (\<forall>k \<in> candidate_ids m. p \<le> k) \<and>
          r = Some p \<and> me_current_primary m' = Some p \<and> primary_ids m' = {p})))"
proof -
  have inv: "me_inv m" by (rule mediators.reach_inv[OF assms(1)])
  then have ok: "nodes_ok m" by (simp add: me_inv_def)
  note e = election_led[OF ok]
  let ?p = "Min (candidate_ids m)"
  have p: "?p \<in> candidate_ids m" "?p \<in> members m" "\<forall>k \<in> candidate_ids m. ?p \<le> k" if "candidate_ids m \<noteq> {}"
    using Min_in[OF candidates_finite that] candidates_healthy healthy_members by auto
  have "primary_ids (led_by ?p (count_election m)) = {?p}" if "candidate_ids m \<noteq> {}"
    using led_by_primary[of "count_election m" ?p] ok p(2)[OF that] by simp
  moreover have "ms_elections_held (me_stats (count_election m)) = ms_elections_held (me_stats m) + 1"
    by (simp add: count_election_def)
  ultimately show ?thesis
    using assms(2) e p inv by (auto simp: me_inv_def split: if_splits)
qed

lemma demo_mediator_reach:
  "reach me_init me_step (snd (me_add_node 1 ''b'' SECONDARY []
     (snd (me_add_node 1 ''a'' SECONDARY [] (Mediator ''b'' 1000 5000)))))"
proof -
  have "reach me_init me_step (Mediator ''b'' 1000 5000)" by (rule reach_init) (auto simp: me_init_def)
  from reach_step[OF this me_joins[of SECONDARY _ 1 "''a''" "[]"]]
  have "reach me_init me_step (snd (me_add_node 1 ''a'' SECONDARY [] (Mediator ''b'' 1000 5000)))" by simp
  from reach_step[OF this me_joins[of SECONDARY _ 1 "''b''" "[]"]] show ?thesis by simp
qed

theorem election_elects_one_primary_witness:
  "primary_ids (snd (me_initiate_election (snd (me_add_node 1 ''b'' SECONDARY []
     (snd (me_add_node 1 ''a'' SECONDARY [] (Mediator ''b'' 1000 5000))))))) = {''a''}"
proof -
  let ?m = "snd (me_add_node 1 ''b'' SECONDARY [] (snd (me_add_node 1 ''a'' SECONDARY [] (Mediator ''b'' 1000 5000))))"
  have q: "me_has_quorum ?m"
    by (simp add: me_has_quorum_def me_get_quorum_state_def quorum_size_def healthy_nodes_def me_add_node_def
        Mediator_def NodeInfo_def Let_def)
  have c: "candidate_ids ?m = {''a'', ''b''}"
    by (auto simp: candidate_ids_def is_candidate_def me_add_node_def Mediator_def NodeInfo_def Let_def
        split: if_splits)
  have "\<exists>p \<in> candidate_ids ?m. (\<forall>k \<in> candidate_ids ?m. p \<le> k) \<and>
      primary_ids (snd (me_initiate_election ?m)) = {p}"
    using election_elects_one_primary [OF demo_mediator_reach, of "fst (me_initiate_election ?m)"
        "snd (me_initiate_election ?m)"] q c
    by simp
  then show ?thesis unfolding c by (auto simp: less_char_def)
qed

end
