(* ===== verification/Failover.thy ===== *)
theory Failover
  imports Mediator
begin

text \<open>
  \<^verbatim>\<open>activecluster/failover.py\<close>: the controller that reacts to a lost primary and gives the lead back when
  it returns. It shares the mediator object, so its methods take and return both. The clock readings are
  arguments; a callback is a function that says which exception it raises, if any. Nothing suspends
  between taking the lock and releasing it, so each method is one step.
\<close>

section \<open>State\<close>

datatype failover_state = NORMAL | FAILING_OVER | FAILED_OVER | FAILING_BACK

datatype failover_reason = NODE_FAILURE | MANUAL | NETWORK_PARTITION | MAINTENANCE

record failover_event =
  fe_timestamp :: double
  fe_old_primary :: "string option"
  fe_new_primary :: "string option"
  fe_reason :: failover_reason
  fe_state :: failover_state
  fe_duration_ms :: "double option"

record failover_stats =
  fs_total_failovers :: int
  fs_successful_failovers :: int
  fs_failed_failovers :: int
  fs_total_failbacks :: int
  fs_avg_failover_time_ms :: double

type_synonym failover_callback = "string \<Rightarrow> string \<Rightarrow> py_error option"

record failover =
  fo_failover_timeout_ms :: int
  fo_auto_failback :: bool
  fo_state :: failover_state
  fo_original_primary :: "string option"
  fo_history :: "failover_event list"
  fo_on_failover :: "failover_callback option"
  fo_on_failback :: "failover_callback option"
  fo_stats :: failover_stats

definition FailoverController :: "int \<Rightarrow> bool \<Rightarrow> failover" where
  "FailoverController failover_timeout_ms auto_failback =
     \<lparr> fo_failover_timeout_ms = failover_timeout_ms, fo_auto_failback = auto_failback, fo_state = NORMAL,
       fo_original_primary = None, fo_history = [], fo_on_failover = None, fo_on_failback = None,
       fo_stats = \<lparr> fs_total_failovers = 0, fs_successful_failovers = 0, fs_failed_failovers = 0,
                    fs_total_failbacks = 0, fs_avg_failover_time_ms = 0 \<rparr> \<rparr>"

section \<open>Operations\<close>

definition fo_register_on_failover :: "failover_callback \<Rightarrow> failover \<Rightarrow> failover" where
  "fo_register_on_failover callback fo = fo\<lparr>fo_on_failover := Some callback\<rparr>"

definition fo_register_on_failback :: "failover_callback \<Rightarrow> failover \<Rightarrow> failover" where
  "fo_register_on_failback callback fo = fo\<lparr>fo_on_failback := Some callback\<rparr>"

text \<open>An \<^verbatim>\<open>str | None\<close> that Python takes for true.\<close>

definition truthy :: "string option \<Rightarrow> bool" where
  "truthy s \<longleftrightarrow> s \<noteq> None \<and> s \<noteq> Some []"

text \<open>\<^verbatim>\<open>if callback and a and b: callback(a, b)\<close>: the exception it ends with.\<close>

definition run_callback :: "failover_callback option \<Rightarrow> string option \<Rightarrow> string option \<Rightarrow> py_error option" where
  "run_callback callback a b =
     (case callback of None \<Rightarrow> None | Some f \<Rightarrow> if truthy a \<and> truthy b then f (the a) (the b) else None)"

text \<open>\<^verbatim>\<open>(time.time() - start_time) * 1000\<close> and the moving average.\<close>

definition elapsed_ms :: "double \<Rightarrow> double \<Rightarrow> double" where
  "elapsed_ms start finish = fmul (fsub finish start) 1000"

definition moving_average :: "double \<Rightarrow> double \<Rightarrow> double" where
  "moving_average avg duration = fadd (fmul avg (fl (8 / 10))) (fmul duration (fl (2 / 10)))"

definition record_failover ::
    "double \<Rightarrow> double \<Rightarrow> string option \<Rightarrow> failover_reason \<Rightarrow> string option \<Rightarrow> failover
     \<Rightarrow> failover_event \<times> failover" where
  "record_failover start finish old_primary reason new_primary fo =
     (let duration = elapsed_ms start finish;
          event = \<lparr> fe_timestamp = start, fe_old_primary = old_primary, fe_new_primary = new_primary,
                    fe_reason = reason, fe_state = fo_state fo, fe_duration_ms = Some duration \<rparr>;
          st = fo_stats fo;
          st = st\<lparr>fs_total_failovers := fs_total_failovers st + 1\<rparr>;
          st = (if truthy new_primary
                then st\<lparr>fs_avg_failover_time_ms := moving_average (fs_avg_failover_time_ms st) duration\<rparr>
                else st)
      in (event, fo\<lparr>fo_history := fo_history fo @ [event], fo_stats := st\<rparr>))"

text \<open>The \<^verbatim>\<open>except\<close> branch: the failure is counted, the state reset, the exception raised again.\<close>

definition failover_raised :: "failover \<Rightarrow> failover" where
  "failover_raised fo =
     (let st = fo_stats fo
      in fo\<lparr>fo_stats := st\<lparr>fs_failed_failovers := fs_failed_failovers st + 1\<rparr>, fo_state := NORMAL\<rparr>)"

definition execute_failover ::
    "double \<Rightarrow> double \<Rightarrow> string option \<Rightarrow> failover_reason \<Rightarrow> string option \<Rightarrow> failover \<times> mediator
     \<Rightarrow> (failover \<times> mediator, failover_event) outcome" where
  "execute_failover start finish old_primary reason new_primary = (\<lambda>(fo, m).
     let fo = fo\<lparr>fo_state := FAILING_OVER, fo_original_primary := old_primary\<rparr>
     in case (if truthy new_primary then (new_primary, m) else me_initiate_election m) of
          (new_primary, m) \<Rightarrow>
            let st = fo_stats fo
            in if truthy new_primary then
                 let fo = fo\<lparr> fo_stats := st\<lparr>fs_successful_failovers := fs_successful_failovers st + 1\<rparr>,
                              fo_state := FAILED_OVER \<rparr>
                 in case run_callback (fo_on_failover fo) old_primary new_primary of
                      Some e \<Rightarrow> (Inl e, failover_raised fo, m)
                    | None \<Rightarrow>
                        (case record_failover start finish old_primary reason new_primary fo of
                           (event, fo) \<Rightarrow> (Inr event, fo, m))
               else
                 case record_failover start finish old_primary reason new_primary
                        (fo\<lparr> fo_stats := st\<lparr>fs_failed_failovers := fs_failed_failovers st + 1\<rparr>,
                             fo_state := NORMAL \<rparr>) of
                   (event, fo) \<Rightarrow> (Inr event, fo, m))"

definition check_and_failover ::
    "double \<Rightarrow> double \<Rightarrow> failover \<times> mediator \<Rightarrow> (failover \<times> mediator, failover_event option) outcome" where
  "check_and_failover start finish s =
     (let current_primary = me_get_primary (snd s); nodes = cs_nodes (me_get_cluster_status (snd s))
      in if fo_state (fst s) \<noteq> NORMAL \<or> \<not> truthy current_primary then (Inr None, s)
         else case dict_get nodes (the current_primary) of
                None \<Rightarrow> (Inr None, s)
              | Some status \<Rightarrow>
                  if ns_is_healthy status then (Inr None, s)
                  else case execute_failover start finish current_primary NODE_FAILURE None s of
                         (Inl e, s) \<Rightarrow> (Inl e, s)
                       | (Inr event, s) \<Rightarrow> (Inr (Some event), s))"

definition manual_failover ::
    "double \<Rightarrow> double \<Rightarrow> string option \<Rightarrow> failover \<times> mediator \<Rightarrow> (failover \<times> mediator, failover_event) outcome" where
  "manual_failover start finish target_node = (\<lambda>(fo, m).
     let current_primary = me_get_primary m
     in case (if truthy target_node then (target_node, snd (me_set_primary (the target_node) m))
              else me_initiate_election m) of
          (new_primary, m) \<Rightarrow> execute_failover start finish current_primary MANUAL new_primary (fo, m))"

definition execute_failback ::
    "double \<Rightarrow> double \<Rightarrow> failover \<times> mediator \<Rightarrow> (failover \<times> mediator, failover_event) outcome" where
  "execute_failback start finish = (\<lambda>(fo, m).
     let current_primary = me_get_primary m;
         m = snd (me_set_primary (the (fo_original_primary fo)) m);
         st = fo_stats fo;
         event = \<lparr> fe_timestamp = start, fe_old_primary = current_primary,
                   fe_new_primary = fo_original_primary fo, fe_reason = MANUAL, fe_state = NORMAL,
                   fe_duration_ms = Some (elapsed_ms start finish) \<rparr>;
         fo = fo\<lparr> fo_stats := st\<lparr>fs_total_failbacks := fs_total_failbacks st + 1\<rparr>, fo_state := NORMAL,
                  fo_history := fo_history fo @ [event] \<rparr>
     in case run_callback (fo_on_failback fo) current_primary (fo_original_primary fo) of
          Some e \<Rightarrow> (Inl e, fo\<lparr>fo_state := FAILED_OVER\<rparr>, m)
        | None \<Rightarrow> (Inr event, fo\<lparr>fo_original_primary := None\<rparr>, m))"

definition check_and_failback ::
    "double \<Rightarrow> double \<Rightarrow> failover \<times> mediator \<Rightarrow> (failover \<times> mediator, failover_event option) outcome" where
  "check_and_failback start finish s =
     (let original = fo_original_primary (fst s); nodes = cs_nodes (me_get_cluster_status (snd s))
      in if \<not> fo_auto_failback (fst s) \<or> fo_state (fst s) \<noteq> FAILED_OVER \<or> \<not> truthy original then (Inr None, s)
         else case dict_get nodes (the original) of
                None \<Rightarrow> (Inr None, s)
              | Some status \<Rightarrow>
                  if \<not> ns_is_healthy status then (Inr None, s)
                  else case execute_failback start finish s of
                         (Inl e, s) \<Rightarrow> (Inl e, s)
                       | (Inr event, s) \<Rightarrow> (Inr (Some event), s))"

definition manual_failback ::
    "double \<Rightarrow> double \<Rightarrow> failover \<times> mediator \<Rightarrow> (failover \<times> mediator, failover_event option) outcome" where
  "manual_failback start finish s =
     (if fo_state (fst s) \<noteq> FAILED_OVER \<or> \<not> truthy (fo_original_primary (fst s)) then (Inr None, s)
      else case execute_failback start finish s of
             (Inl e, s) \<Rightarrow> (Inl e, s)
           | (Inr event, s) \<Rightarrow> (Inr (Some event), s))"

definition fo_get_history :: "int \<Rightarrow> failover \<Rightarrow> failover_event list" where
  "fo_get_history limit fo = py_slice_from (fo_history fo) (- limit)"

fun failover_state_value :: "failover_state \<Rightarrow> string" where
  "failover_state_value NORMAL = ''normal''"
| "failover_state_value FAILING_OVER = ''failing_over''"
| "failover_state_value FAILED_OVER = ''failed_over''"
| "failover_state_value FAILING_BACK = ''failing_back''"

record failover_report =
  fr_state :: string
  fr_original_primary :: "string option"
  fr_stats :: failover_stats
  fr_history_count :: nat

definition fo_get_stats :: "failover \<Rightarrow> failover_report" where
  "fo_get_stats fo =
     \<lparr> fr_state = failover_state_value (fo_state fo), fr_original_primary = fo_original_primary fo,
       fr_stats = fo_stats fo, fr_history_count = length (fo_history fo) \<rparr>"

section \<open>The state machine\<close>

text \<open>
  Between calls the controller is in one of two states, and its history accounts for its counters.
  Exact counts need a failover callback that does not raise; here, that there is none.
\<close>

definition failed_over_events :: "failover \<Rightarrow> nat" where
  "failed_over_events fo = length (filter (\<lambda>e. fe_state e = FAILED_OVER) (fo_history fo))"

definition fo_inv :: "failover \<Rightarrow> bool" where
  "fo_inv fo \<longleftrightarrow>
     fo_state fo \<in> {NORMAL, FAILED_OVER} \<and>
     int (length (fo_history fo)) = fs_total_failovers (fo_stats fo) + fs_total_failbacks (fo_stats fo) \<and>
     fs_total_failovers (fo_stats fo)
       \<le> fs_successful_failovers (fo_stats fo) + fs_failed_failovers (fo_stats fo) \<and>
     (fo_on_failover fo = None \<longrightarrow>
        fs_total_failovers (fo_stats fo)
          = fs_successful_failovers (fo_stats fo) + fs_failed_failovers (fo_stats fo) \<and>
        int (failed_over_events fo) = fs_successful_failovers (fo_stats fo)) \<and>
     (fo_on_failover fo = None \<and> fo_on_failback fo = None \<longrightarrow>
        (fo_state fo = FAILED_OVER \<longleftrightarrow> fo_history fo \<noteq> [] \<and> fe_state (last (fo_history fo)) = FAILED_OVER))"

inductive fo_step :: "failover \<times> mediator \<Rightarrow> failover \<times> mediator \<Rightarrow> bool" where
  fo_mediator: "me_step m m' \<Longrightarrow> fo_step (fo, m) (fo, m')"
| fo_registers: "fo_step (fo, m) (fo_register_on_failover f fo, m)"
| fo_registers_back: "fo_step (fo, m) (fo_register_on_failback f fo, m)"
| fo_checks: "fo_step s (snd (check_and_failover start finish s))"
| fo_manual: "fo_step s (snd (manual_failover start finish target s))"
| fo_checks_back: "fo_step s (snd (check_and_failback start finish s))"
| fo_manual_back: "fo_step s (snd (manual_failback start finish s))"

definition fo_init :: "failover \<times> mediator \<Rightarrow> bool" where
  "fo_init s \<longleftrightarrow> (\<exists>timeout auto. fst s = FailoverController timeout auto) \<and> me_init (snd s)"

definition fo_pair_inv :: "failover \<times> mediator \<Rightarrow> bool" where
  "fo_pair_inv s \<longleftrightarrow> fo_inv (fst s) \<and> me_inv (snd s)"

lemma run_callback_none [simp]: "run_callback None a b = None"
  by (simp add: run_callback_def)

lemma me_inv_set_primary: "me_inv m \<Longrightarrow> me_inv (snd (me_set_primary p m))"
  by (rule me_inv_step[OF _ me_sets])

lemma record_failover_inv:
  assumes "fo' = snd (record_failover start finish old reason new fo1)" and "fo_inv fo" and "fo_history fo1 = fo_history fo" and "fo_on_failover fo1 = fo_on_failover fo"
    and "fo_on_failback fo1 = fo_on_failback fo"
    and "fo_state fo1 = FAILED_OVER \<and> fo_stats fo1
           = (fo_stats fo)\<lparr>fs_successful_failovers := fs_successful_failovers (fo_stats fo) + 1\<rparr> \<or>
         fo_state fo1 = NORMAL \<and> fo_stats fo1
           = (fo_stats fo)\<lparr>fs_failed_failovers := fs_failed_failovers (fo_stats fo) + 1\<rparr>"
  shows "fo_inv fo'"
  using assms by (auto simp: record_failover_def Let_def fo_inv_def failed_over_events_def)

text \<open>The controller once the outcome of a failover is known.\<close>

definition failover_won :: "string option \<Rightarrow> failover \<Rightarrow> failover" where
  "failover_won old fo = fo\<lparr> fo_original_primary := old, fo_stats := (fo_stats fo)
     \<lparr>fs_successful_failovers := fs_successful_failovers (fo_stats fo) + 1\<rparr>, fo_state := FAILED_OVER \<rparr>"

definition failover_lost :: "string option \<Rightarrow> failover \<Rightarrow> failover" where
  "failover_lost old fo = fo\<lparr> fo_original_primary := old, fo_stats := (fo_stats fo)
     \<lparr>fs_failed_failovers := fs_failed_failovers (fo_stats fo) + 1\<rparr>, fo_state := NORMAL \<rparr>"

lemma execute_failover_eq:
  assumes "(if truthy new then (new, m) else me_initiate_election m) = (new', m')"
  shows "execute_failover start finish old reason new (fo, m) =
    (if truthy new' then
       (case run_callback (fo_on_failover fo) old new' of
          Some e \<Rightarrow> (Inl e, failover_raised (failover_won old fo), m')
        | None \<Rightarrow> (Inr (fst (record_failover start finish old reason new' (failover_won old fo))),
                   snd (record_failover start finish old reason new' (failover_won old fo)), m'))
     else (Inr (fst (record_failover start finish old reason new' (failover_lost old fo))),
           snd (record_failover start finish old reason new' (failover_lost old fo)), m'))"
  unfolding execute_failover_def prod.case assms Let_def
  by (simp add: failover_won_def failover_lost_def split_beta split: option.splits)

lemma execute_failover_inv:
  assumes "fo_pair_inv s" and run: "execute_failover start finish old reason new s = (r, s')"
  shows "fo_pair_inv s'"
proof -
  obtain fo m where s: "s = (fo, m)" by (cases s)
  have inv: "fo_inv fo" "me_inv m" using assms(1) s by (simp_all add: fo_pair_inv_def)
  obtain new' m' where n: "(if truthy new then (new, m) else me_initiate_election m) = (new', m')"
    by (metis surj_pair)
  have m': "me_inv m'" using n inv(2) me_inv_election[of m] by (auto split: if_splits)
  note run' = execute_failover_eq[OF n, of start finish old reason fo, folded s, unfolded run]
  consider (won) "s' = (snd (record_failover start finish old reason new' (failover_won old fo)), m')"
    | (lost) "s' = (snd (record_failover start finish old reason new' (failover_lost old fo)), m')"
    | (raised) e where "run_callback (fo_on_failover fo) old new' = Some e" "s' = (failover_raised (failover_won old fo), m')"
    using run' by (auto split: option.splits if_splits)
  then show ?thesis
  proof cases
    case won
    then show ?thesis using record_failover_inv[OF _ inv(1)] m' by (simp add: fo_pair_inv_def failover_won_def)
  next
    case lost
    then show ?thesis using record_failover_inv[OF _ inv(1)] m' by (simp add: fo_pair_inv_def failover_lost_def)
  next
    case raised
    then have "fo_on_failover fo \<noteq> None" using run_callback_none by (metis option.distinct(1))
    then show ?thesis
      using raised inv(1) m' by (auto simp: fo_pair_inv_def fo_inv_def failover_raised_def failover_won_def Let_def
          failed_over_events_def)
  qed
qed

lemma execute_failback_inv:
  assumes "fo_pair_inv s" and run: "execute_failback start finish s = (r, s')"
  shows "fo_pair_inv s'"
proof -
  obtain fo m where s: "s = (fo, m)" by (cases s)
  have inv: "fo_inv fo" "me_inv m" using assms(1) s by (simp_all add: fo_pair_inv_def)
  have m: "me_inv (snd (me_set_primary p m))" for p by (rule me_inv_set_primary[OF inv(2)])
  show ?thesis
  proof (cases "run_callback (fo_on_failback fo) (me_get_primary m) (fo_original_primary fo)")
    case None
    then show ?thesis
      using run s inv(1) m
      by (auto simp: execute_failback_def Let_def fo_pair_inv_def fo_inv_def failed_over_events_def)
  next
    case (Some e)
    then have "fo_on_failback fo \<noteq> None" using run_callback_none by (metis option.distinct(1))
    then show ?thesis
      using Some run s inv(1) m
      by (auto simp: execute_failback_def Let_def fo_pair_inv_def fo_inv_def failed_over_events_def)
  qed
qed

lemma fo_inv_callbacks:
  assumes "fo_inv fo"
  shows "fo_inv (fo_register_on_failover f fo)" and "fo_inv (fo_register_on_failback f fo)"
  using assms by (auto simp: fo_inv_def fo_register_on_failover_def fo_register_on_failback_def failed_over_events_def)

text \<open>Each of the four methods does nothing, or ends in one of the two procedures.\<close>

lemma check_and_failover_cases:
  "check_and_failover start finish s = (Inr None, s) \<or>
   snd (check_and_failover start finish s) = snd (execute_failover start finish (me_get_primary (snd s)) NODE_FAILURE None s)"
  by (cases "execute_failover start finish (me_get_primary (snd s)) NODE_FAILURE None s")
    (auto simp: check_and_failover_def Let_def split: option.splits sum.splits)

lemma check_and_failback_cases:
  "check_and_failback start finish s = (Inr None, s) \<or>
   snd (check_and_failback start finish s) = snd (execute_failback start finish s)"
  by (cases "execute_failback start finish s")
    (auto simp: check_and_failback_def Let_def split: option.splits sum.splits)

lemma manual_failback_cases:
  "manual_failback start finish s = (Inr None, s) \<or>
   snd (manual_failback start finish s) = snd (execute_failback start finish s)"
  by (cases "execute_failback start finish s") (auto simp: manual_failback_def split: sum.splits)

lemma manual_failover_inv:
  assumes "fo_pair_inv s"
  shows "fo_pair_inv (snd (manual_failover start finish target s))"
proof -
  obtain fo m where s: "s = (fo, m)" by (cases s)
  obtain new m' where n: "(if truthy target then (target, snd (me_set_primary (the target) m))
      else me_initiate_election m) = (new, m')" by (metis surj_pair)
  have "me_inv m'"
    using n assms s me_inv_election[of m] me_inv_set_primary[of m "the target"]
    by (auto simp: fo_pair_inv_def split: if_splits)
  then have "fo_pair_inv (fo, m')" using assms s by (simp add: fo_pair_inv_def)
  moreover have "manual_failover start finish target s
      = execute_failover start finish (me_get_primary m) MANUAL new (fo, m')"
    using s n by (simp add: manual_failover_def Let_def)
  ultimately show ?thesis using execute_failover_inv by (metis prod.collapse)
qed

lemma fo_pair_inv_step:
  assumes "fo_pair_inv s" and "fo_step s t"
  shows "fo_pair_inv t"
  using assms(2)
proof cases
  case (fo_mediator m m' fo)
  then show ?thesis using assms(1) me_inv_step by (auto simp: fo_pair_inv_def)
next
  case (fo_registers fo m f)
  then show ?thesis using assms(1) fo_inv_callbacks by (simp add: fo_pair_inv_def)
next
  case (fo_registers_back fo m f)
  then show ?thesis using assms(1) fo_inv_callbacks by (simp add: fo_pair_inv_def)
next
  case (fo_checks start finish)
  then show ?thesis
    using check_and_failover_cases[of start finish s] execute_failover_inv[OF assms(1)] assms(1)
    by (metis prod.collapse snd_conv)
next
  case (fo_manual start finish target)
  then show ?thesis using manual_failover_inv[OF assms(1)] by simp
next
  case (fo_checks_back start finish)
  then show ?thesis
    using check_and_failback_cases[of start finish s] execute_failback_inv[OF assms(1)] assms(1)
    by (metis prod.collapse snd_conv)
next
  case (fo_manual_back start finish)
  then show ?thesis
    using manual_failback_cases[of start finish s] execute_failback_inv[OF assms(1)] assms(1)
    by (metis prod.collapse snd_conv)
qed

lemma fo_pair_inv_init: "fo_init s \<Longrightarrow> fo_pair_inv s"
  using me_inv_init by (auto simp: fo_init_def fo_pair_inv_def fo_inv_def FailoverController_def failed_over_events_def)

interpretation failovers: invariant_machine fo_init fo_step fo_pair_inv
  by unfold_locales (fact fo_pair_inv_init, fact fo_pair_inv_step)

section \<open>Failover and failback\<close>

lemma status_get:
  "dict_get (cs_nodes (me_get_cluster_status m)) k = map_option node_status_of (dict_get (me_nodes m) k)"
  by (simp add: me_get_cluster_status_def Let_def map_of_map)

lemma primary_down:
  assumes "fo_state fo = NORMAL" and "me_current_primary m = Some p" and "p \<noteq> []"
    and "p \<in> members m" and "p \<notin> healthy_ids m" and "nodes_ok m"
  shows "check_and_failover start finish (fo, m)
    = (case execute_failover start finish (Some p) NODE_FAILURE None (fo, m) of
         (Inl e, s) \<Rightarrow> (Inl e, s) | (Inr event, s) \<Rightarrow> (Inr (Some event), s))"
proof -
  obtain n where "dict_get (me_nodes m) p = Some n" "\<not> nd_healthy n"
    using assms(4,5) by (auto simp: members_def healthy_ids_def dest: weak_map_of_SomeI)
  then show ?thesis
    using assms(1-3) by (simp add: check_and_failover_def me_get_primary_def truthy_def status_get node_status_of_def)
qed

lemma original_back:
  assumes "fo_auto_failback fo" and "fo_state fo = FAILED_OVER" and "fo_original_primary fo = Some p"
    and "p \<noteq> []" and "p \<in> healthy_ids m"
  shows "check_and_failback start finish (fo, m)
    = (case execute_failback start finish (fo, m) of
         (Inl e, s) \<Rightarrow> (Inl e, s) | (Inr event, s) \<Rightarrow> (Inr (Some event), s))"
  using assms by (auto simp: check_and_failback_def truthy_def status_get node_status_of_def healthy_ids_def)

lemma execute_failback_led:
  assumes "nodes_ok m" and "fo_original_primary fo = Some p" and "p \<in> members m" and "fo_on_failback fo = None"
    and run: "execute_failback start finish (fo, m) = (r, fo', m')"
  shows "\<exists>event. r = Inr event \<and> fe_old_primary event = me_current_primary m \<and> fe_new_primary event = Some p \<and>
    fo_state fo' = NORMAL \<and> fo_original_primary fo' = None \<and> m' = led_by p m"
  using run assms(2-4) by (auto simp: execute_failback_def Let_def set_primary_led[OF assms(1)] me_get_primary_def)

lemma receive_heartbeat_known:
  assumes "nodes_ok m" and "p \<in> members m"
  shows "nodes_ok (snd (me_receive_heartbeat now p ts cp m))"
    and "members (snd (me_receive_heartbeat now p ts cp m)) = members m"
    and "healthy_ids (snd (me_receive_heartbeat now p ts cp m)) = insert p (healthy_ids m)"
    and "me_current_primary (snd (me_receive_heartbeat now p ts cp m)) = me_current_primary m"
proof -
  obtain n where n: "dict_get (me_nodes m) p = Some n"
    using assms(2) by (auto simp: members_def dest: weak_map_of_SomeI)
  then have id: "nd_id n = p" using assms(1) by (simp add: nodes_ok_def)
  let ?m = "snd (me_receive_heartbeat now p ts cp m)"
  have m: "me_nodes ?m = dict_set p (n\<lparr>nd_last_heartbeat := now, nd_healthy := True\<rparr>) (me_nodes m)"
    "me_current_primary ?m = me_current_primary m"
    using n by (simp_all add: me_receive_heartbeat_def Let_def)
  show "nodes_ok ?m" by (rule nodes_ok_set[OF assms(1) _ m(1)]) (simp add: id)
  show "members ?m = members m" unfolding members_def m(1) dict_keys_set[OF n] ..
  show "healthy_ids ?m = insert p (healthy_ids m)" unfolding healthy_ids_def m(1) by auto
  show "me_current_primary ?m = me_current_primary m" by (rule m(2))
qed

lemma failover_event_fields:
  "fe_old_primary (fst (record_failover start finish old reason new fo)) = old"
  "fe_new_primary (fst (record_failover start finish old reason new fo)) = new"
  "fe_state (fst (record_failover start finish old reason new fo)) = fo_state fo"
  "fo_state (snd (record_failover start finish old reason new fo)) = fo_state fo"
  "fo_original_primary (snd (record_failover start finish old reason new fo)) = fo_original_primary fo"
  "fo_on_failover (snd (record_failover start finish old reason new fo)) = fo_on_failover fo"
  "fo_on_failback (snd (record_failover start finish old reason new fo)) = fo_on_failback fo"
  "fo_auto_failback (snd (record_failover start finish old reason new fo)) = fo_auto_failback fo"
  by (simp_all add: record_failover_def Let_def)

section \<open>Properties\<close>

text \<open>
  C18. The failover controller and its mediator, in every state they can reach through heartbeats,
  elections, automatic and manual failovers and failbacks: between calls the controller is in the
  state NORMAL or FAILED_OVER; every failover and failback is in the history; each failover was counted as successful
  or failed, exactly when no callback is registered (one that raises counts twice), and FAILED_OVER is then the state of the last
  event; and at most one node has the primary's role.
\<close>

theorem failover_state_machine:
  assumes "reach fo_init fo_step (fo, m)"
  shows "fo_state fo \<in> {NORMAL, FAILED_OVER} \<and>
    int (length (fo_history fo)) = fs_total_failovers (fo_stats fo) + fs_total_failbacks (fo_stats fo) \<and>
    fs_total_failovers (fo_stats fo) \<le> fs_successful_failovers (fo_stats fo) + fs_failed_failovers (fo_stats fo) \<and>
    (fo_on_failover fo = None \<longrightarrow>
       fs_total_failovers (fo_stats fo) = fs_successful_failovers (fo_stats fo) + fs_failed_failovers (fo_stats fo)) \<and>
    (fo_on_failover fo = None \<and> fo_on_failback fo = None \<longrightarrow>
       (fo_state fo = FAILED_OVER \<longleftrightarrow> fo_history fo \<noteq> [] \<and> fe_state (last (fo_history fo)) = FAILED_OVER)) \<and>
    (\<forall>k \<in> primary_ids m. me_current_primary m = Some k)"
  using failovers.reach_inv[OF assms] unfolding fo_pair_inv_def fo_inv_def me_inv_def by simp

lemma demo_lead:
  "me_set_primary ''a'' (partition_side up self) = (True, led_by ''a'' (partition_side up self))"
  using set_primary_led[OF partition_side_simps(1), of "''a''"] by (simp add: partition_side_simps)

lemma demo_lead_init: "me_init (led_by ''a'' (partition_side up self))"
  unfolding me_init_def using demo_lead[of up self] partition_side_simps(1)[of up self] by blast

lemma demo_lead_reach: "reach me_init me_step (led_by ''a'' (partition_side up self))"
  by (rule reach_init) (rule demo_lead_init)

theorem failover_state_machine_witness:
  "fo_state (fst (snd (manual_failover 0 1 (Some ''b'')
     (FailoverController 5000 True, led_by ''a'' (partition_side [''a'', ''b''] ''a'')))))
   \<in> {NORMAL, FAILED_OVER}"
proof -
  let ?s = "(FailoverController 5000 True, led_by ''a'' (partition_side [''a'', ''b''] ''a''))"
  have "fo_init ?s" unfolding fo_init_def fst_conv snd_conv using demo_lead_init by blast
  then have r: "reach fo_init fo_step ?s" by (rule reach_init)
  obtain fo m where t: "snd (manual_failover 0 1 (Some ''b'') ?s) = (fo, m)" by (metis surj_pair)
  have "fo_step ?s (fo, m)" unfolding t[symmetric] by (rule fo_manual)
  with r have "reach fo_init fo_step (fo, m)" by (rule reach_step)
  from failover_state_machine [OF this] have "fo_state fo \<in> {NORMAL, FAILED_OVER}" by (rule conjunct1)
  then show ?thesis unfolding t fst_conv .
qed

text \<open>
  C17. A failover and the failback after it restore the cluster. When the primary falls silent and a
  majority with a data node is left, the check makes another, healthy node the only primary and
  records the lost one; once the lost node sends a heartbeat, the next failback check makes it the only
  primary again, and the controller is back to NORMAL.
\<close>

theorem failover_then_failback:
  assumes "reach me_init me_step m" and "fo_state fo = NORMAL" and "fo_auto_failback fo"
    and "fo_on_failover fo = None" and "fo_on_failback fo = None"
    and "me_current_primary m = Some p" and "p \<noteq> []" and "p \<in> members m" and "p \<notin> healthy_ids m"
    and "me_has_quorum m" and "candidate_ids m \<noteq> {}" and "[] \<notin> members m"
    and "check_and_failover t0 t1 (fo, m) = (r1, fo1, m1)"
    and "check_and_failback t3 t4 (fo1, snd (me_receive_heartbeat t2 p ts cp m1)) = (r2, fo2, m2)"
  shows "(\<exists>q event. q \<noteq> p \<and> q \<in> healthy_ids m1 \<and> primary_ids m1 = {q} \<and> me_current_primary m1 = Some q \<and>
      r1 = Inr (Some event) \<and> fe_old_primary event = Some p \<and> fe_new_primary event = Some q \<and>
      fo_state fo1 = FAILED_OVER) \<and>
    primary_ids m2 = {p} \<and> me_current_primary m2 = Some p \<and> fo_state fo2 = NORMAL \<and> fo_original_primary fo2 = None"
proof -
  have ok: "nodes_ok m" using mediators.reach_inv[OF assms(1)] by (simp add: me_inv_def)
  define q where "q = Min (candidate_ids m)"
  have q: "q \<in> candidate_ids m" unfolding q_def using assms(11) by simp
  then have qh: "q \<in> healthy_ids m" "q \<in> members m" "q \<noteq> p" "q \<noteq> []"
    using candidates_healthy healthy_members assms(9,12) by blast+
  have e: "(if truthy None then (None, m) else me_initiate_election m) = (Some q, led_by q (count_election m))"
    using election_led[OF ok] assms(10,11) by (simp add: truthy_def q_def)
  have x: "execute_failover t0 t1 (Some p) NODE_FAILURE None (fo, m)
      = (Inr (fst (record_failover t0 t1 (Some p) NODE_FAILURE (Some q) (failover_won (Some p) fo))),
         snd (record_failover t0 t1 (Some p) NODE_FAILURE (Some q) (failover_won (Some p) fo)),
         led_by q (count_election m))"
    using execute_failover_eq[OF e, of t0 t1 "Some p" NODE_FAILURE fo] assms(4) qh(4)
    by (simp add: truthy_def)
  have r1: "r1 = Inr (Some (fst (record_failover t0 t1 (Some p) NODE_FAILURE (Some q) (failover_won (Some p) fo))))"
    and fo1: "fo1 = snd (record_failover t0 t1 (Some p) NODE_FAILURE (Some q) (failover_won (Some p) fo))"
    and m1: "m1 = led_by q (count_election m)"
    using assms(13) primary_down[OF assms(2,6,7,8,9) ok, of t0 t1] x by simp_all
  have ok1: "nodes_ok m1" "members m1 = members m" using ok m1 by (simp_all add: led_by_ok)
  have p1: "primary_ids m1 = {q}" "healthy_ids m1 = healthy_ids m" "me_current_primary m1 = Some q"
    using m1 led_by_primary[of "count_election m" q] ok qh(2) by simp_all
  let ?m = "snd (me_receive_heartbeat t2 p ts cp m1)"
  have p2: "p \<in> members m1" using ok1(2) assms(8) by simp
  note hb = receive_heartbeat_known[OF ok1(1) p2, of t2 ts cp]
  have fo1': "fo_state fo1 = FAILED_OVER" "fo_original_primary fo1 = Some p" "fo_auto_failback fo1"
    "fo_on_failback fo1 = None"
    using fo1 assms(3,5) by (simp_all add: failover_event_fields failover_won_def)
  have p3: "p \<in> healthy_ids ?m" "p \<in> members ?m" using hb(2,3) p2 by simp_all
  obtain r fo3 m3 where x2: "execute_failback t3 t4 (fo1, ?m) = (r, fo3, m3)" by (metis surj_pair)
  from execute_failback_led[OF hb(1) fo1'(2) p3(2) fo1'(4) x2]
  obtain event where ev: "r = Inr event" "fo_state fo3 = NORMAL" "fo_original_primary fo3 = None" "m3 = led_by p ?m"
    by blast
  have "fo2 = fo3" "m2 = m3"
    using assms(14) original_back[OF fo1'(3,1,2) assms(7) p3(1), of t3 t4] x2 ev(1) by simp_all
  then have "primary_ids m2 = {p} \<and> me_current_primary m2 = Some p \<and> fo_state fo2 = NORMAL \<and> fo_original_primary fo2 = None"
    using ev led_by_primary[OF hb(1) p3(2)] by simp
  moreover have "\<exists>q event. q \<noteq> p \<and> q \<in> healthy_ids m1 \<and> primary_ids m1 = {q} \<and> me_current_primary m1 = Some q \<and>
      r1 = Inr (Some event) \<and> fe_old_primary event = Some p \<and> fe_new_primary event = Some q \<and> fo_state fo1 = FAILED_OVER"
    using qh p1 r1 fo1'(1) by (intro exI conjI) (auto simp: failover_event_fields)
  ultimately show ?thesis by blast
qed

theorem failover_then_failback_witness:
  "case check_and_failover 10 11 (FailoverController 5000 True, led_by ''a'' (partition_side [''b'', ''c''] ''b'')) of
     (r1, fo1, m1) \<Rightarrow>
       (case check_and_failback 13 14 (fo1, snd (me_receive_heartbeat 12 ''a'' 12 None m1)) of
          (r2, fo2, m2) \<Rightarrow> primary_ids m2 = {''a''} \<and> fo_state fo2 = NORMAL)"
proof -
  let ?fo = "FailoverController 5000 True" and ?side = "partition_side [''b'', ''c''] ''b''"
  let ?m = "led_by ''a'' ?side"
  obtain r1 fo1 m1 where x1: "check_and_failover 10 11 (?fo, ?m) = (r1, fo1, m1)" by (metis surj_pair)
  obtain r2 fo2 m2 where x2: "check_and_failback 13 14 (fo1, snd (me_receive_heartbeat 12 ''a'' 12 None m1)) = (r2, fo2, m2)"
    by (metis surj_pair)
  have ok: "nodes_ok ?m" by (rule led_by_ok[OF partition_side_simps(1)])
  have ids: "members ?m = {''a'', ''b'', ''c''}" "healthy_ids ?m = {''b'', ''c''}"
    by (auto simp: partition_side_simps)
  have q: "me_has_quorum ?m" using has_quorum_iff[OF ok] ids by simp
  have "''b'' \<in> candidate_ids ?m"
    by (simp add: candidate_ids_def led_by_get partition_side_def is_candidate_def promote_def NodeInfo_def)
  then have c: "candidate_ids ?m \<noteq> {}" by blast
  have fo: "fo_state ?fo = NORMAL" "fo_auto_failback ?fo" "fo_on_failover ?fo = None" "fo_on_failback ?fo = None"
    by (simp_all add: FailoverController_def)
  have m: "me_current_primary ?m = Some ''a''" "''a'' \<in> members ?m" "''a'' \<notin> healthy_ids ?m" "[] \<notin> members ?m"
    using ids by simp_all
  show ?thesis
    using failover_then_failback [OF demo_lead_reach fo m(1) _ m(2,3) q c m(4) x1 x2] x1 x2 by simp
qed

end
