(* ===== verification/Replication.thy ===== *)
theory Replication
  imports Config
begin

text \<open>
  \<^verbatim>\<open>activecluster/replication.py\<close>: operations are numbered and sent to the peers, at once (SYNC) or through
  a journal that a background task works off (ASYNC). What a POST is answered with and the clock are
  arguments. The engine suspends while it waits for peers, so writes may be queued between two
  operations of one pass over the journal: the machine at the end has these as separate steps.
\<close>

section \<open>State\<close>

datatype replication_mode = SYNC | ASYNC

datatype replication_state = RP_HEALTHY | RP_DEGRADED | RP_BROKEN | RP_SYNCING

record replication_peer =
  rp_node_id :: string
  rp_url :: string
  rp_state :: replication_state
  rp_last_heartbeat :: double
  rp_lag_bytes :: int
  rp_lag_operations :: int

text \<open>The dictionary \<^verbatim>\<open>data\<close> of an operation: one shape for writes, one for deletes.\<close>

datatype operation_data =
    WriteData (od_offset: int) (od_block_id: string) (od_fingerprint: string) (od_hex: string)
  | DeleteData (od_block_id: string)

record replication_operation =
  op_sequence_number :: int
  op_operation_type :: string
  op_volume_id :: string
  op_data :: operation_data
  op_timestamp :: double

record replication_stats =
  rs_operations_replicated :: int
  rs_bytes_replicated :: int
  rs_operations_pending :: int
  rs_replication_errors :: int
  rs_avg_latency_ms :: double

record replication =
  re_node_id :: string
  re_mode :: replication_mode
  re_timeout_ms :: int
  re_peers :: "(string, replication_peer) dict"
  re_journal :: "replication_operation list"
  re_sequence_number :: int
  re_task :: bool
  re_stats :: replication_stats

definition ReplicationMode :: "string \<Rightarrow> replication_mode result" where
  "ReplicationMode v =
     (if v = ''sync'' then Inr SYNC else if v = ''async'' then Inr ASYNC
      else Inl (ValueError ''not a valid ReplicationMode''))"

definition ReplicationEngine :: "string \<Rightarrow> replication_mode \<Rightarrow> int \<Rightarrow> replication" where
  "ReplicationEngine node_id mode timeout_ms =
     \<lparr> re_node_id = node_id, re_mode = mode, re_timeout_ms = timeout_ms, re_peers = [], re_journal = [],
       re_sequence_number = 0, re_task = False,
       re_stats = \<lparr> rs_operations_replicated = 0, rs_bytes_replicated = 0, rs_operations_pending = 0,
                    rs_replication_errors = 0, rs_avg_latency_ms = 0 \<rparr> \<rparr>"

section \<open>Operations\<close>

definition re_add_peer :: "double \<Rightarrow> string \<Rightarrow> string \<Rightarrow> replication \<Rightarrow> replication_peer \<times> replication" where
  "re_add_peer now node_id url re =
     (let peer = \<lparr> rp_node_id = node_id, rp_url = url, rp_state = RP_SYNCING, rp_last_heartbeat = now,
                   rp_lag_bytes = 0, rp_lag_operations = 0 \<rparr>
      in (peer, re\<lparr>re_peers := dict_set node_id peer (re_peers re)\<rparr>))"

definition re_remove_peer :: "string \<Rightarrow> replication \<Rightarrow> bool \<times> replication" where
  "re_remove_peer node_id re =
     (if has_key (re_peers re) node_id then (True, re\<lparr>re_peers := dict_del node_id (re_peers re)\<rparr>)
      else (False, re))"

text \<open>\<^verbatim>\<open>data.hex()\<close>\<close>

definition hex_digit :: "nat \<Rightarrow> char" where
  "hex_digit n = ''0123456789abcdef'' ! n"

definition to_hex :: "bytes \<Rightarrow> string" where
  "to_hex data = concat (map (\<lambda>b. [hex_digit (unat b div 16), hex_digit (unat b mod 16)]) data)"

record replication_request =
  rq_source_node :: string
  rq_operation :: replication_operation

type_synonym replication_post = "string \<Rightarrow> replication_request \<Rightarrow> int option"

definition apply_url :: "replication_peer \<Rightarrow> string" where
  "apply_url peer = rp_url peer @ ''/api/v1/replication/apply''"

definition request_of :: "replication \<Rightarrow> replication_operation \<Rightarrow> replication_request" where
  "request_of re operation = \<lparr> rq_source_node = re_node_id re, rq_operation = operation \<rparr>"

definition count_error :: "replication \<Rightarrow> replication" where
  "count_error re = re\<lparr>re_stats := (re_stats re)\<lparr>rs_replication_errors := rs_replication_errors (re_stats re) + 1\<rparr>\<rparr>"

definition send_to_peer ::
    "replication_post \<Rightarrow> (string \<Rightarrow> double) \<Rightarrow> replication_operation \<Rightarrow> string \<times> replication_peer \<Rightarrow> replication
     \<Rightarrow> bool \<times> replication" where
  "send_to_peer post clock operation = (\<lambda>(peer_id, peer) re.
     (case post (apply_url peer) (request_of re operation) of
        None \<Rightarrow>
          (False, count_error (re\<lparr>re_peers := dict_set peer_id (peer\<lparr>rp_state := RP_DEGRADED\<rparr>) (re_peers re)\<rparr>))
      | Some status_code \<Rightarrow>
          if status_code = 200 then
            (True, re\<lparr>re_peers := dict_set peer_id
               (peer\<lparr>rp_state := RP_HEALTHY, rp_last_heartbeat := clock peer_id\<rparr>) (re_peers re)\<rparr>)
          else (False, count_error re)))"

text \<open>The tasks given to \<^verbatim>\<open>gather\<close> and the number of those that returned True.\<close>

fun send_all ::
    "replication_post \<Rightarrow> (string \<Rightarrow> double) \<Rightarrow> replication_operation \<Rightarrow> (string \<times> replication_peer) list \<Rightarrow> replication
     \<Rightarrow> nat \<times> replication" where
  "send_all post clock operation [] re = (0, re)"
| "send_all post clock operation (p # ps) re =
     (case send_to_peer post clock operation p re of
        (ok, re) \<Rightarrow>
          (case send_all post clock operation ps re of (n, re) \<Rightarrow> (if ok then n + 1 else n, re)))"

definition latency_average :: "double \<Rightarrow> double \<Rightarrow> double" where
  "latency_average avg latency = fadd (fmul avg (fl (9 / 10))) (fmul latency (fl (1 / 10)))"

definition sync_replicate ::
    "replication_post \<Rightarrow> (string \<Rightarrow> double) \<Rightarrow> double \<Rightarrow> double \<Rightarrow> replication_operation \<Rightarrow> replication
     \<Rightarrow> bool \<times> replication" where
  "sync_replicate post clock start finish operation re =
     (if re_peers re = [] then (True, re)
      else case send_all post clock operation
                  (filter (\<lambda>(peer_id, peer). rp_state peer \<noteq> RP_BROKEN) (re_peers re)) re of
             (success_count, re) \<Rightarrow>
               let latency = fmul (fsub finish start) 1000; st = re_stats re
               in (success_count > 0 \<or> re_peers re = [],
                   re\<lparr>re_stats := st\<lparr> rs_operations_replicated := rs_operations_replicated st + 1,
                        rs_avg_latency_ms := latency_average (rs_avg_latency_ms st) latency \<rparr>\<rparr>))"

definition queue_for_async :: "replication_operation \<Rightarrow> replication \<Rightarrow> replication" where
  "queue_for_async operation re =
     (let st = re_stats re
      in re\<lparr> re_journal := re_journal re @ [operation],
             re_stats := st\<lparr>rs_operations_pending := rs_operations_pending st + 1\<rparr> \<rparr>)"

definition next_operation ::
    "double \<Rightarrow> string \<Rightarrow> string \<Rightarrow> operation_data \<Rightarrow> replication \<Rightarrow> replication_operation \<times> replication" where
  "next_operation now operation_type volume_id data re =
     (let re = re\<lparr>re_sequence_number := re_sequence_number re + 1\<rparr>
      in (\<lparr> op_sequence_number = re_sequence_number re, op_operation_type = operation_type,
            op_volume_id = volume_id, op_data = data, op_timestamp = now \<rparr>, re))"

definition dispatch ::
    "replication_post \<Rightarrow> (string \<Rightarrow> double) \<Rightarrow> double \<Rightarrow> double \<Rightarrow> replication_operation \<times> replication
     \<Rightarrow> bool \<times> replication" where
  "dispatch post clock start finish = (\<lambda>(operation, re).
     if re_mode re = SYNC then sync_replicate post clock start finish operation re
     else (True, queue_for_async operation re))"

definition replicate_write ::
    "replication_post \<Rightarrow> (string \<Rightarrow> double) \<Rightarrow> double \<Rightarrow> double \<Rightarrow> double \<Rightarrow> string \<Rightarrow> int \<Rightarrow> string \<Rightarrow> string
     \<Rightarrow> bytes \<Rightarrow> replication \<Rightarrow> bool \<times> replication" where
  "replicate_write post clock now start finish volume_id off block_id fingerprint data re =
     dispatch post clock start finish
       (next_operation now ''write'' volume_id (WriteData off block_id fingerprint (to_hex data)) re)"

definition replicate_delete ::
    "replication_post \<Rightarrow> (string \<Rightarrow> double) \<Rightarrow> double \<Rightarrow> double \<Rightarrow> double \<Rightarrow> string \<Rightarrow> string \<Rightarrow> replication
     \<Rightarrow> bool \<times> replication" where
  "replicate_delete post clock now start finish volume_id block_id re =
     dispatch post clock start finish (next_operation now ''delete'' volume_id (DeleteData block_id) re)"

definition start_async_replication :: "replication \<Rightarrow> replication" where
  "start_async_replication re = re\<lparr>re_task := True\<rparr>"

definition stop_async_replication :: "replication \<Rightarrow> replication" where
  "stop_async_replication re = re\<lparr>re_task := False\<rparr>"

text \<open>The body of the loop over the copy of the journal.\<close>

definition process_operation ::
    "replication_post \<Rightarrow> (string \<Rightarrow> double) \<Rightarrow> double \<Rightarrow> double \<Rightarrow> replication_operation \<Rightarrow> replication \<Rightarrow> replication" where
  "process_operation post clock start finish operation re =
     (case sync_replicate post clock start finish operation re of
        (success, re) \<Rightarrow>
          if success \<and> operation \<in> set (re_journal re) then
            let st = re_stats re
            in re\<lparr> re_journal := remove1 operation (re_journal re),
                   re_stats := st\<lparr>rs_operations_pending := rs_operations_pending st - 1\<rparr> \<rparr>
          else re)"

definition process_journal ::
    "replication_post \<Rightarrow> (string \<Rightarrow> double) \<Rightarrow> double \<Rightarrow> double \<Rightarrow> replication \<Rightarrow> replication" where
  "process_journal post clock start finish re =
     (if re_journal re = [] then re
      else fold (process_operation post clock start finish) (re_journal re) re)"

definition re_get_peer_status :: "string \<Rightarrow> replication \<Rightarrow> replication_peer option" where
  "re_get_peer_status node_id re = dict_get (re_peers re) node_id"

fun replication_state_value :: "replication_state \<Rightarrow> string" where
  "replication_state_value RP_HEALTHY = ''healthy''"
| "replication_state_value RP_DEGRADED = ''degraded''"
| "replication_state_value RP_BROKEN = ''broken''"
| "replication_state_value RP_SYNCING = ''syncing''"

fun replication_mode_value :: "replication_mode \<Rightarrow> string" where
  "replication_mode_value SYNC = ''sync''"
| "replication_mode_value ASYNC = ''async''"

record replication_report =
  rr_mode :: string
  rr_peers :: "(string, string) dict"
  rr_stats :: replication_stats
  rr_journal_size :: nat

definition re_get_stats :: "replication \<Rightarrow> replication_report" where
  "re_get_stats re =
     \<lparr> rr_mode = replication_mode_value (re_mode re),
       rr_peers = map (\<lambda>(peer_id, peer). (peer_id, replication_state_value (rp_state peer))) (re_peers re),
       rr_stats = re_stats re, rr_journal_size = length (re_journal re) \<rparr>"

definition re_close :: "replication \<Rightarrow> replication" where
  "re_close re = stop_async_replication re"

section \<open>Sending to the peers\<close>

text \<open>What the acknowledgement of an operation means: there is no peer, or one that is not broken answers 200.\<close>

definition answers_ok ::
    "replication_post \<Rightarrow> replication \<Rightarrow> replication_operation \<Rightarrow> string \<times> replication_peer \<Rightarrow> bool" where
  "answers_ok post re operation p \<longleftrightarrow> post (apply_url (snd p)) (request_of re operation) = Some 200"

definition acknowledged :: "replication_post \<Rightarrow> replication \<Rightarrow> replication_operation \<Rightarrow> bool" where
  "acknowledged post re operation \<longleftrightarrow> re_peers re = [] \<or>
     (\<exists>p \<in> set (re_peers re). rp_state (snd p) \<noteq> RP_BROKEN \<and> answers_ok post re operation p)"

text \<open>The peer as it is after it was contacted.\<close>

definition contacted ::
    "replication_post \<Rightarrow> (string \<Rightarrow> double) \<Rightarrow> replication \<Rightarrow> replication_operation \<Rightarrow> string \<times> replication_peer
     \<Rightarrow> replication_peer" where
  "contacted post clock re operation p =
     (case post (apply_url (snd p)) (request_of re operation) of
        None \<Rightarrow> (snd p)\<lparr>rp_state := RP_DEGRADED\<rparr>
      | Some c \<Rightarrow> if c = 200 then (snd p)\<lparr>rp_state := RP_HEALTHY, rp_last_heartbeat := clock (fst p)\<rparr> else snd p)"

text \<open>What sending keeps of the engine.\<close>

definition same_queue :: "replication \<Rightarrow> replication \<Rightarrow> bool" where
  "same_queue re re' \<longleftrightarrow> re_node_id re' = re_node_id re \<and> re_mode re' = re_mode re \<and> re_journal re' = re_journal re \<and>
     re_sequence_number re' = re_sequence_number re \<and>
     rs_operations_pending (re_stats re') = rs_operations_pending (re_stats re)"

lemma same_queue_refl [simp]: "same_queue re re"
  by (simp add: same_queue_def)

lemma same_queue_trans: "same_queue a b \<Longrightarrow> same_queue b c \<Longrightarrow> same_queue a c"
  by (simp add: same_queue_def)

lemma request_same: "same_queue re re' \<Longrightarrow> request_of re' operation = request_of re operation"
  by (simp add: same_queue_def request_of_def)

lemma answers_same: "same_queue re re' \<Longrightarrow> answers_ok post re' operation p = answers_ok post re operation p"
  by (simp add: answers_ok_def request_same)

lemma contacted_same: "same_queue re re' \<Longrightarrow> contacted post clock re' operation p = contacted post clock re operation p"
  by (simp add: contacted_def request_same)

lemma send_to_peer_eq:
  "send_to_peer post clock operation p re =
     (answers_ok post re operation p,
      (if answers_ok post re operation p then re else count_error re)
        \<lparr>re_peers := (if \<exists>c. post (apply_url (snd p)) (request_of re operation) = Some c \<and> c \<noteq> 200
                      then re_peers re
                      else dict_set (fst p) (contacted post clock re operation p) (re_peers re))\<rparr>)"
  by (cases p; cases "post (apply_url (snd p)) (request_of re operation)")
    (simp_all add: send_to_peer_def answers_ok_def contacted_def count_error_def)

lemma send_to_peer_effect:
  assumes "send_to_peer post clock operation p re = (ok, re')"
  shows "ok = answers_ok post re operation p" and "same_queue re re'"
    and "rs_replication_errors (re_stats re') = rs_replication_errors (re_stats re) + of_bool (\<not> ok)"
    and "dict_get (re_peers re) (fst p) = Some (snd p) \<Longrightarrow> dict_get (re_peers re') k
          = (if k = fst p then Some (contacted post clock re operation p) else dict_get (re_peers re) k)"
proof -
  note eq = assms[unfolded send_to_peer_eq prod.inject]
  show ok: "ok = answers_ok post re operation p" using eq by simp
  show "same_queue re re'" unfolding conjunct2[OF eq, symmetric] by (simp add: same_queue_def count_error_def)
  show "rs_replication_errors (re_stats re') = rs_replication_errors (re_stats re) + of_bool (\<not> ok)"
    unfolding conjunct2[OF eq, symmetric] ok by (simp add: count_error_def)
  show "dict_get (re_peers re') k
      = (if k = fst p then Some (contacted post clock re operation p) else dict_get (re_peers re) k)"
    if "dict_get (re_peers re) (fst p) = Some (snd p)"
  proof (cases "\<exists>c. post (apply_url (snd p)) (request_of re operation) = Some c \<and> c \<noteq> 200")
    case True
    then have "contacted post clock re operation p = snd p" by (auto simp: contacted_def)
    then show ?thesis unfolding conjunct2[OF eq, symmetric] using True that by simp
  next
    case False
    then show ?thesis unfolding conjunct2[OF eq, symmetric] by auto
  qed
qed

lemma send_all_stats:
  "send_all post clock operation ps re = (n, re') \<Longrightarrow>
   re_stats re' = (re_stats re)\<lparr>rs_replication_errors := rs_replication_errors (re_stats re')\<rparr>"
proof (induction ps arbitrary: re n)
  case (Cons p ps)
  obtain ok re1 where s1: "send_to_peer post clock operation p re = (ok, re1)" by (metis surj_pair)
  obtain m where s2: "send_all post clock operation ps re1 = (m, re')"
    using Cons.prems s1 by (auto split: prod.splits)
  define x y where "x = rs_replication_errors (re_stats re1)" and "y = rs_replication_errors (re_stats re')"
  have "re_stats re1 = (re_stats re)\<lparr>rs_replication_errors := x\<rparr>"
    using s1 by (auto simp: send_to_peer_eq count_error_def x_def)
  moreover have "re_stats re' = (re_stats re1)\<lparr>rs_replication_errors := y\<rparr>" unfolding y_def by (rule Cons.IH[OF s2])
  ultimately have "re_stats re' = (re_stats re)\<lparr>rs_replication_errors := y\<rparr>" by simp
  then show ?case unfolding y_def .
qed simp

lemma send_all_effect:
  assumes "send_all post clock operation ps re = (n, re')" and "distinct (map fst ps)"
    and "\<forall>p \<in> set ps. dict_get (re_peers re) (fst p) = Some (snd p)"
  shows "n = length (filter (answers_ok post re operation) ps) \<and> same_queue re re' \<and>
    rs_replication_errors (re_stats re')
      = rs_replication_errors (re_stats re) + int (length (filter (\<lambda>p. \<not> answers_ok post re operation p) ps)) \<and>
    (\<forall>k. dict_get (re_peers re') k
       = (case map_of ps k of None \<Rightarrow> dict_get (re_peers re) k
          | Some peer \<Rightarrow> Some (contacted post clock re operation (k, peer))))"
  using assms
proof (induction ps arbitrary: re n)
  case (Cons p ps)
  obtain ok re1 where s1: "send_to_peer post clock operation p re = (ok, re1)" by (metis surj_pair)
  obtain m where s2: "send_all post clock operation ps re1 = (m, re')" and n: "n = (if ok then m + 1 else m)"
    using Cons.prems(1) s1 by (auto split: prod.splits)
  from send_to_peer_effect[OF s1] Cons.prems(3)
  have e: "ok = answers_ok post re operation p" and q: "same_queue re re1"
    and err: "rs_replication_errors (re_stats re1) = rs_replication_errors (re_stats re) + of_bool (\<not> ok)"
    and g: "\<And>k. dict_get (re_peers re1) k
      = (if k = fst p then Some (contacted post clock re operation p) else dict_get (re_peers re) k)"
    by auto
  have "\<forall>x \<in> set ps. dict_get (re_peers re1) (fst x) = Some (snd x)"
    using Cons.prems(2,3) g by (auto simp: rev_image_eqI)
  from Cons.IH[OF s2 _ this] Cons.prems(2)
  have ih: "m = length (filter (answers_ok post re operation) ps)" "same_queue re1 re'"
    "rs_replication_errors (re_stats re')
      = rs_replication_errors (re_stats re1) + int (length (filter (\<lambda>p. \<not> answers_ok post re operation p) ps))"
    "\<And>k. dict_get (re_peers re') k
       = (case map_of ps k of None \<Rightarrow> dict_get (re_peers re1) k
          | Some peer \<Rightarrow> Some (contacted post clock re operation (k, peer)))"
    unfolding answers_same[OF q] contacted_same[OF q] by auto
  have "map_of ps (fst p) = None" using Cons.prems(2) by (simp add: map_of_eq_None_iff)
  then show ?case
    using ih e n err g same_queue_trans[OF q ih(2)] by (cases p) (auto split: option.splits)
qed simp

lemma map_of_filter_vals:
  assumes "wf_dict d"
  shows "map_of (filter (\<lambda>p. P (snd p)) d) k = (case map_of d k of None \<Rightarrow> None | Some v \<Rightarrow> if P v then Some v else None)"
  using assms
proof (induction d)
  case (Cons p d)
  have "map_of d (fst p) = None" using Cons.prems by (simp add: wf_dict_def map_of_eq_None_iff)
  then show ?case using Cons by (cases p) (auto simp: wf_dict_def split: option.splits)
qed simp

definition contactable :: "replication \<Rightarrow> (string \<times> replication_peer) list" where
  "contactable re = filter (\<lambda>p. rp_state (snd p) \<noteq> RP_BROKEN) (re_peers re)"

lemma sync_replicate_effect:
  assumes "wf_dict (re_peers re)" and run: "sync_replicate post clock start finish operation re = (ok, re')"
  shows "ok = acknowledged post re operation \<and> same_queue re re' \<and>
    rs_replication_errors (re_stats re') = rs_replication_errors (re_stats re)
      + int (length (filter (\<lambda>p. \<not> answers_ok post re operation p) (contactable re))) \<and>
    (\<forall>k. dict_get (re_peers re') k
       = map_option (\<lambda>peer. if rp_state peer = RP_BROKEN then peer else contacted post clock re operation (k, peer))
           (dict_get (re_peers re) k))"
proof (cases "re_peers re = []")
  case True
  then show ?thesis using run by (simp add: sync_replicate_def acknowledged_def contactable_def)
next
  case False
  obtain n re1 where s: "send_all post clock operation (contactable re) re = (n, re1)" by (metis surj_pair)
  have d: "distinct (map fst (contactable re))"
    using assms(1) by (simp add: contactable_def wf_dict_def distinct_map_filter)
  have m: "\<forall>p \<in> set (contactable re). dict_get (re_peers re) (fst p) = Some (snd p)"
    using assms(1) by (auto simp: contactable_def wf_dict_def)
  note e = send_all_effect[OF s d m]
  note get = map_of_filter_vals[OF assms(1), of "\<lambda>peer. rp_state peer \<noteq> RP_BROKEN", folded contactable_def]
  have peers: "\<forall>k. dict_get (re_peers re1) k
      = map_option (\<lambda>peer. if rp_state peer = RP_BROKEN then peer else contacted post clock re operation (k, peer))
          (dict_get (re_peers re) k)"
    using e get by (auto split: option.splits)
  obtain k peer where "dict_get (re_peers re) k = Some peer"
    using False by (cases "re_peers re") (auto, metis map_of_Cons_code(2) surj_pair)
  then have "dict_get (re_peers re1) k \<noteq> None" using peers by simp
  then have ne: "re_peers re1 \<noteq> []" by (cases "re_peers re1") simp_all
  have n: "n > 0 \<longleftrightarrow> (\<exists>p \<in> set (re_peers re). rp_state (snd p) \<noteq> RP_BROKEN \<and> answers_ok post re operation p)"
    using e by (auto simp: contactable_def filter_empty_conv)
  have filt: "filter (\<lambda>(peer_id, peer). rp_state peer \<noteq> RP_BROKEN) (re_peers re) = contactable re"
    unfolding contactable_def by (rule filter_cong) auto
  have re': "ok = (n > 0)" "re_peers re' = re_peers re1" "same_queue re1 re'"
    "rs_replication_errors (re_stats re') = rs_replication_errors (re_stats re1)"
    using run False ne s by (simp_all add: sync_replicate_def filt Let_def same_queue_def) (auto simp: same_queue_def)
  have "ok = acknowledged post re operation" using re'(1) n False by (simp add: acknowledged_def)
  moreover have "same_queue re re'" using e re'(3) same_queue_trans by blast
  ultimately show ?thesis using e re' peers by simp
qed

lemma sync_replicate_stats:
  assumes "wf_dict (re_peers re)" and run: "sync_replicate post clock start finish operation re = (ok, re')"
  shows "re_stats re' = (if re_peers re = [] then re_stats re
    else (re_stats re)\<lparr> rs_operations_replicated := rs_operations_replicated (re_stats re) + 1,
           rs_replication_errors := rs_replication_errors (re_stats re)
             + int (length (filter (\<lambda>p. \<not> answers_ok post re operation p) (contactable re))),
           rs_avg_latency_ms := latency_average (rs_avg_latency_ms (re_stats re)) (fmul (fsub finish start) 1000) \<rparr>)"
proof (cases "re_peers re = []")
  case True
  then show ?thesis using run by (simp add: sync_replicate_def)
next
  case False
  have filt: "filter (\<lambda>(peer_id, peer). rp_state peer \<noteq> RP_BROKEN) (re_peers re) = contactable re"
    unfolding contactable_def by (rule filter_cong) auto
  obtain n re1 where s: "send_all post clock operation (contactable re) re = (n, re1)" by (metis surj_pair)
  define x where "x = rs_replication_errors (re_stats re1)"
  have "re_stats re1 = (re_stats re)\<lparr>rs_replication_errors := x\<rparr>" using send_all_stats[OF s] by (simp add: x_def)
  moreover have "re_stats re' = (re_stats re1)\<lparr> rs_operations_replicated := rs_operations_replicated (re_stats re1) + 1,
      rs_avg_latency_ms := latency_average (rs_avg_latency_ms (re_stats re1)) (fmul (fsub finish start) 1000) \<rparr>"
    using run False s by (auto simp: sync_replicate_def filt Let_def)
  ultimately show ?thesis using sync_replicate_effect[OF assms] False by simp
qed

lemma sync_replicate_wf:
  assumes "wf_dict (re_peers re)"
  shows "wf_dict (re_peers (snd (sync_replicate post clock start finish operation re)))"
proof -
  have send: "wf_dict (re_peers re) \<Longrightarrow> wf_dict (re_peers (snd (send_to_peer post clock operation p re)))" for p re
    by (simp add: send_to_peer_eq count_error_def)
  have "wf_dict (re_peers re) \<Longrightarrow> wf_dict (re_peers (snd (send_all post clock operation ps re)))" for ps re
  proof (induction ps arbitrary: re)
    case (Cons p ps)
    then show ?case using send[of re p] by (simp add: split_beta)
  qed simp
  then show ?thesis using assms by (simp add: sync_replicate_def Let_def split_beta)
qed

section \<open>The journal\<close>

text \<open>
  The engine in ASYNC mode with its background task: the operations of the current pass that are
  still to be sent, and two ghosts, the operations accepted so far, in order, and those acknowledged.
\<close>

record replicator =
  rw_engine :: replication
  rw_in_flight :: "replication_operation list"
  rw_accepted :: "replication_operation list"
  rw_acked :: "replication_operation set"

inductive re_step :: "replicator \<Rightarrow> replicator \<Rightarrow> bool" where
  re_writes: "replicate_write post clock now start finish vid off bid fp data (rw_engine w) = (ok, re') \<Longrightarrow>
     re_step w (w\<lparr> rw_engine := re', rw_accepted := rw_accepted w @ [fst (next_operation now ''write'' vid
       (WriteData off bid fp (to_hex data)) (rw_engine w))] \<rparr>)"
| re_deletes: "replicate_delete post clock now start finish vid bid (rw_engine w) = (ok, re') \<Longrightarrow>
     re_step w (w\<lparr> rw_engine := re', rw_accepted := rw_accepted w @ [fst (next_operation now ''delete'' vid
       (DeleteData bid) (rw_engine w))] \<rparr>)"
| re_pass: "re_step w (w\<lparr>rw_in_flight := re_journal (rw_engine w)\<rparr>)"
| re_sends: "rw_in_flight w = operation # rest \<Longrightarrow>
     re_step w (w\<lparr> rw_engine := process_operation post clock start finish operation (rw_engine w),
       rw_in_flight := rest,
       rw_acked := rw_acked w \<union> {x. x = operation \<and> acknowledged post (rw_engine w) operation} \<rparr>)"
| re_joins: "re_step w (w\<lparr>rw_engine := snd (re_add_peer now node url (rw_engine w))\<rparr>)"
| re_leaves: "re_step w (w\<lparr>rw_engine := snd (re_remove_peer node (rw_engine w))\<rparr>)"

definition re_init :: "replicator \<Rightarrow> bool" where
  "re_init w \<longleftrightarrow> (\<exists>node timeout. w = \<lparr> rw_engine = ReplicationEngine node ASYNC timeout, rw_in_flight = [],
     rw_accepted = [], rw_acked = {} \<rparr>)"

text \<open>The journal is what was accepted and not yet acknowledged, in the order of acceptance.\<close>

definition re_inv :: "replicator \<Rightarrow> bool" where
  "re_inv w \<longleftrightarrow>
     wf_dict (re_peers (rw_engine w)) \<and> re_mode (rw_engine w) = ASYNC \<and>
     re_journal (rw_engine w) = filter (\<lambda>x. x \<notin> rw_acked w) (rw_accepted w) \<and>
     map op_sequence_number (rw_accepted w) = map (\<lambda>i. int i + 1) [0..<length (rw_accepted w)] \<and>
     re_sequence_number (rw_engine w) = int (length (rw_accepted w)) \<and>
     rs_operations_pending (re_stats (rw_engine w)) = int (length (re_journal (rw_engine w))) \<and>
     rw_acked w \<subseteq> set (rw_accepted w) \<and> set (rw_in_flight w) \<subseteq> set (re_journal (rw_engine w)) \<and>
     distinct (rw_in_flight w)"

lemma accepted_distinct:
  assumes "map op_sequence_number xs = map (\<lambda>i. int i + 1) [0..<length xs]"
  shows "distinct xs"
proof -
  have "distinct (map op_sequence_number xs)" unfolding assms by (simp add: distinct_map inj_on_def)
  then show ?thesis by (simp add: distinct_map)
qed

lemma next_operation_simps:
  "fst (next_operation now t vid d re) = \<lparr> op_sequence_number = re_sequence_number re + 1, op_operation_type = t,
     op_volume_id = vid, op_data = d, op_timestamp = now \<rparr>"
  "snd (next_operation now t vid d re) = re\<lparr>re_sequence_number := re_sequence_number re + 1\<rparr>"
  by (simp_all add: next_operation_def Let_def)

lemma re_inv_accept:
  assumes inv: "re_inv w" and op: "operation = fst (next_operation now t vid d (rw_engine w))"
    and run: "dispatch post clock start finish (next_operation now t vid d (rw_engine w)) = (ok, re')"
  shows "re_inv (w\<lparr>rw_engine := re', rw_accepted := rw_accepted w @ [operation]\<rparr>)"
proof -
  note I = inv[unfolded re_inv_def]
  have re': "re' = queue_for_async operation (snd (next_operation now t vid d (rw_engine w)))"
    using run op I by (simp add: dispatch_def split_beta next_operation_simps(2))
  have seq: "op_sequence_number operation = int (length (rw_accepted w)) + 1"
    using op I by (simp add: next_operation_simps)
  have new: "operation \<notin> set (rw_accepted w)"
  proof
    assume "operation \<in> set (rw_accepted w)"
    then have "op_sequence_number operation \<in> set (map op_sequence_number (rw_accepted w))" by simp
    then have "int (length (rw_accepted w)) + 1 \<in> (\<lambda>i. int i + 1) ` {0..<length (rw_accepted w)}"
      using seq I by simp
    then show False by auto
  qed
  have "re_journal re' = re_journal (rw_engine w) @ [operation]"
    by (simp add: re' queue_for_async_def Let_def next_operation_simps)
  moreover have "rw_acked w \<subseteq> set (rw_accepted w)" using I by blast
  ultimately show ?thesis
    using I seq new
    by (auto simp: re_inv_def re' queue_for_async_def Let_def next_operation_simps)
qed

lemma remove1_filter:
  assumes "distinct xs"
  shows "remove1 x (filter P xs) = filter (\<lambda>y. P y \<and> y \<noteq> x) xs"
proof -
  have "remove1 x (filter P xs) = filter (\<lambda>y. P y \<and> x \<noteq> y) xs"
    using assms by (simp add: distinct_remove1_removeAll removeAll_filter_not_eq conj_commute)
  also have "\<dots> = filter (\<lambda>y. P y \<and> y \<noteq> x) xs" by (rule filter_cong) auto
  finally show ?thesis .
qed

lemma re_inv_process:
  assumes inv: "re_inv w" and fl: "rw_in_flight w = operation # rest"
  shows "re_inv (w\<lparr> rw_engine := process_operation post clock start finish operation (rw_engine w),
    rw_in_flight := rest,
    rw_acked := rw_acked w \<union> {x. x = operation \<and> acknowledged post (rw_engine w) operation} \<rparr>)"
proof -
  note I = inv[unfolded re_inv_def]
  obtain ok re1 where s: "sync_replicate post clock start finish operation (rw_engine w) = (ok, re1)" by (metis surj_pair)
  have wf: "wf_dict (re_peers (rw_engine w))" using I by blast
  from sync_replicate_effect[OF wf s]
  have ok: "ok = acknowledged post (rw_engine w) operation" and q: "same_queue (rw_engine w) re1" by blast+
  have wf1: "wf_dict (re_peers re1)" using sync_replicate_wf[OF wf, of post clock start finish operation] s by simp
  have mem: "operation \<in> set (re_journal (rw_engine w))" "operation \<notin> set rest" using I fl by auto
  note j = q[unfolded same_queue_def]
  show ?thesis
  proof (cases ok)
    case False
    then show ?thesis
      using I s ok j wf1 fl mem by (auto simp: re_inv_def process_operation_def)
  next
    case True
    have d: "distinct (rw_accepted w)" using I accepted_distinct by blast
    have "process_operation post clock start finish operation (rw_engine w)
        = re1\<lparr>re_journal := remove1 operation (re_journal (rw_engine w)),
              re_stats := (re_stats re1)\<lparr>rs_operations_pending := rs_operations_pending (re_stats re1) - 1\<rparr>\<rparr>"
      using s True j mem(1) by (simp add: process_operation_def Let_def)
    moreover have "remove1 operation (re_journal (rw_engine w))
        = filter (\<lambda>x. x \<notin> rw_acked w \<union> {operation}) (rw_accepted w)"
      using I remove1_filter[OF d, of operation "\<lambda>x. x \<notin> rw_acked w"] by (simp add: conj_commute)
    moreover have "length (re_journal (rw_engine w)) = Suc (length (remove1 operation (re_journal (rw_engine w))))"
      using mem(1) by (metis One_nat_def Suc_pred length_pos_if_in_set length_remove1)
    moreover have "set rest \<subseteq> set (remove1 operation (re_journal (rw_engine w)))"
    proof
      fix x assume "x \<in> set rest"
      then have "x \<in> set (re_journal (rw_engine w))" "x \<noteq> operation" using I fl mem by auto
      then show "x \<in> set (remove1 operation (re_journal (rw_engine w)))" by (simp add: in_set_remove1)
    qed
    moreover have "operation \<in> set (rw_accepted w)" using I mem(1) by auto
    ultimately show ?thesis
      using I s ok j wf1 fl True by (auto simp: re_inv_def)
  qed
qed

lemma re_inv_step:
  assumes "re_inv w" and "re_step w w'"
  shows "re_inv w'"
  using assms(2)
proof cases
  case (re_writes post clock now start finish vid off bid fp data ok re')
  then show ?thesis using re_inv_accept[OF assms(1) refl] by (simp add: replicate_write_def)
next
  case (re_deletes post clock now start finish vid bid ok re')
  then show ?thesis using re_inv_accept[OF assms(1) refl] by (simp add: replicate_delete_def)
next
  case re_pass
  have "distinct (rw_accepted w)" using assms(1) accepted_distinct unfolding re_inv_def by blast
  then have "distinct (re_journal (rw_engine w))" using assms(1) by (simp add: re_inv_def)
  then show ?thesis using assms(1) re_pass by (simp add: re_inv_def)
next
  case (re_sends operation rest post clock start finish)
  then show ?thesis using re_inv_process[OF assms(1)] by simp
next
  case (re_joins now node url)
  then show ?thesis using assms(1) by (auto simp: re_inv_def re_add_peer_def Let_def)
next
  case (re_leaves node)
  then show ?thesis using assms(1) by (auto simp: re_inv_def re_remove_peer_def)
qed

lemma re_inv_init: "re_init w \<Longrightarrow> re_inv w"
  by (auto simp: re_init_def re_inv_def ReplicationEngine_def)

interpretation replicators: invariant_machine re_init re_step re_inv
  by unfold_locales (fact re_inv_init, fact re_inv_step)

text \<open>One undisturbed pass: whatever is acknowledged leaves the journal.\<close>

lemma process_operation_journal:
  assumes "wf_dict (re_peers re)"
  shows "re_journal (process_operation post clock start finish operation re)
    = (if acknowledged post re operation then remove1 operation (re_journal re) else re_journal re)"
    and "wf_dict (re_peers (process_operation post clock start finish operation re))"
proof -
  obtain ok re1 where s: "sync_replicate post clock start finish operation re = (ok, re1)" by (metis surj_pair)
  from sync_replicate_effect[OF assms s]
  have ok: "ok = acknowledged post re operation" and q: "re_journal re1 = re_journal re"
    by (auto simp: same_queue_def)
  have "wf_dict (re_peers re1)" using sync_replicate_wf[OF assms, of post clock start finish operation] s by simp
  then show "re_journal (process_operation post clock start finish operation re)
      = (if acknowledged post re operation then remove1 operation (re_journal re) else re_journal re)"
    and "wf_dict (re_peers (process_operation post clock start finish operation re))"
    using s ok q by (auto simp: process_operation_def Let_def remove1_idem)
qed

text \<open>A peer that answers 200 to everything is never left out, so everything is acknowledged.\<close>

definition reliable_peer :: "replication_post \<Rightarrow> string \<Rightarrow> string \<Rightarrow> replication \<Rightarrow> bool" where
  "reliable_peer post k url re \<longleftrightarrow> (\<forall>rq. post (url @ ''/api/v1/replication/apply'') rq = Some 200) \<and>
     (\<exists>peer. dict_get (re_peers re) k = Some peer \<and> rp_url peer = url \<and> rp_state peer \<noteq> RP_BROKEN)"

lemma reliable_acknowledged: "reliable_peer post k url re \<Longrightarrow> acknowledged post re operation"
  by (force simp: reliable_peer_def acknowledged_def answers_ok_def apply_url_def dest: map_of_SomeD)

lemma reliable_process:
  assumes "wf_dict (re_peers re)" and "reliable_peer post k url re"
  shows "reliable_peer post k url (process_operation post clock start finish operation re)"
proof -
  obtain ok re1 where s: "sync_replicate post clock start finish operation re = (ok, re1)" by (metis surj_pair)
  obtain peer where peer: "dict_get (re_peers re) k = Some peer" "rp_url peer = url" "rp_state peer \<noteq> RP_BROKEN"
    and post: "\<And>rq. post (url @ ''/api/v1/replication/apply'') rq = Some 200"
    using assms(2) by (auto simp: reliable_peer_def)
  have "dict_get (re_peers re1) k = Some (peer\<lparr>rp_state := RP_HEALTHY, rp_last_heartbeat := clock k\<rparr>)"
    using sync_replicate_effect[OF assms(1) s] peer post by (simp add: contacted_def apply_url_def)
  moreover have "re_peers (process_operation post clock start finish operation re) = re_peers re1"
    using s by (simp add: process_operation_def Let_def)
  ultimately show ?thesis using peer post by (simp add: reliable_peer_def)
qed

lemma process_journal_drains:
  assumes "wf_dict (re_peers re)" and "reliable_peer post k url re"
  shows "re_journal (process_journal post clock start finish re) = []"
proof -
  have "re_journal (fold (process_operation post clock start finish) ops re) = []"
    if "wf_dict (re_peers re)" "reliable_peer post k url re" "re_journal re = ops" for ops re
    using that
  proof (induction ops arbitrary: re)
    case (Cons operation ops)
    have "re_journal (process_operation post clock start finish operation re) = ops"
      using process_operation_journal(1)[OF Cons.prems(1)] reliable_acknowledged[OF Cons.prems(2)] Cons.prems(3) by simp
    then show ?case
      using Cons.IH[OF process_operation_journal(2)[OF Cons.prems(1)] reliable_process[OF Cons.prems(1,2)]] by simp
  qed simp
  then show ?thesis using assms by (simp add: process_journal_def)
qed

section \<open>Properties\<close>

text \<open>
  C12. The replication journal loses nothing and invents nothing. In every state the engine can reach in ASYNC
  mode, with writes and deletes queued at any moment of a pass over the journal and peers coming, going
  and failing: the journal is exactly the list of the accepted operations that have not been acknowledged yet (by a
  peer, or by a pass that found no peer registered), in the order of acceptance; they are numbered 1, 2, 3, ... without gaps; \<^verbatim>\<open>operations_pending\<close> is its length;
  and one pass with a peer that answers every request empties it.
\<close>

theorem journal_is_unacknowledged:
  assumes "reach re_init re_step w"
  shows "re_journal (rw_engine w) = filter (\<lambda>x. x \<notin> rw_acked w) (rw_accepted w) \<and>
    map op_sequence_number (rw_accepted w) = map (\<lambda>i. int i + 1) [0..<length (rw_accepted w)] \<and>
    rs_operations_pending (re_stats (rw_engine w)) = int (length (re_journal (rw_engine w))) \<and>
    (\<forall>post k url clock start finish. reliable_peer post k url (rw_engine w) \<longrightarrow>
       re_journal (process_journal post clock start finish (rw_engine w)) = [])"
  using replicators.reach_inv[OF assms] process_journal_drains unfolding re_inv_def by blast

theorem journal_is_unacknowledged_witness:
  "\<exists>w :: replicator. map op_operation_type (rw_accepted w) = [''delete''] \<and>
     re_journal (rw_engine w) = filter (\<lambda>x. x \<notin> rw_acked w) (rw_accepted w) \<and> length (re_journal (rw_engine w)) = 1"
proof -
  let ?w0 = "\<lparr> rw_engine = ReplicationEngine ''n'' ASYNC 5000, rw_in_flight = [], rw_accepted = [], rw_acked = {} \<rparr>"
  obtain ok re' where d: "replicate_delete (\<lambda>_ _. None) (\<lambda>_. 0) 1 2 3 ''v'' ''b'' (rw_engine ?w0) = (ok, re')"
    by (metis surj_pair)
  define w where "w = ?w0\<lparr> rw_engine := re', rw_accepted := rw_accepted ?w0 @ [fst (next_operation 1 ''delete'' ''v''
    (DeleteData ''b'') (rw_engine ?w0))] \<rparr>"
  have "reach re_init re_step ?w0" by (rule reach_init) (auto simp: re_init_def)
  moreover have "re_step ?w0 w" unfolding w_def by (rule re_deletes[OF d])
  ultimately have "reach re_init re_step w" by (rule reach_step)
  note j = journal_is_unacknowledged [OF this]
  have "map op_operation_type (rw_accepted w) = [''delete'']" "rw_acked w = {}" "length (rw_accepted w) = 1"
    by (simp_all add: w_def next_operation_def Let_def)
  then have "length (re_journal (rw_engine w)) = 1" "map op_operation_type (rw_accepted w) = [''delete'']"
    using j by simp_all
  then show ?thesis using j by (intro exI[of _ w]) (elim conjE, intro conjI)
qed

text \<open>
  C23. What the acknowledgement of a synchronous write means: it is True exactly when there is no peer, or at
  least one peer that is not broken answered 200 -- one is enough, whatever the others did. Every peer that
  was contacted is healthy after a 200, degraded after an exception and unchanged otherwise. The statistics: without a
  peer nothing is counted; otherwise one operation is counted, acknowledged or not, each failure is counted, the latency enters the
  moving average, and \<^verbatim>\<open>bytes_replicated\<close> and \<^verbatim>\<open>operations_pending\<close> stay. The journal is not touched.
\<close>

theorem sync_write_acknowledged_by_one:
  assumes "wf_dict (re_peers re)" and "re_mode re = SYNC"
    and "replicate_write post clock now start finish vid off bid fp data re = (ok, re')"
    and "operation = fst (next_operation now ''write'' vid (WriteData off bid fp (to_hex data)) re)"
  shows "(ok \<longleftrightarrow> re_peers re = [] \<or>
      (\<exists>p \<in> set (re_peers re). rp_state (snd p) \<noteq> RP_BROKEN \<and> answers_ok post re operation p)) \<and>
    (\<forall>k. dict_get (re_peers re') k
       = map_option (\<lambda>peer. if rp_state peer = RP_BROKEN then peer else contacted post clock re operation (k, peer))
           (dict_get (re_peers re) k)) \<and>
    re_stats re' = (if re_peers re = [] then re_stats re
      else (re_stats re)\<lparr> rs_operations_replicated := rs_operations_replicated (re_stats re) + 1,
             rs_replication_errors := rs_replication_errors (re_stats re)
               + int (length (filter (\<lambda>p. \<not> answers_ok post re operation p) (contactable re))),
             rs_avg_latency_ms := latency_average (rs_avg_latency_ms (re_stats re)) (fmul (fsub finish start) 1000) \<rparr>) \<and>
    re_journal re' = re_journal re \<and> re_sequence_number re' = re_sequence_number re + 1"
proof -
  let ?re = "re\<lparr>re_sequence_number := re_sequence_number re + 1\<rparr>"
  have s: "sync_replicate post clock start finish operation ?re = (ok, re')"
    using assms(2,3,4) by (simp add: replicate_write_def dispatch_def split_beta next_operation_simps)
  have same: "answers_ok post ?re = answers_ok post re" "contacted post clock ?re = contacted post clock re"
    "contactable ?re = contactable re"
    by (simp_all add: answers_ok_def contacted_def contactable_def request_of_def fun_eq_iff)
  show ?thesis
    using sync_replicate_effect[of ?re, OF _ s] sync_replicate_stats[of ?re, OF _ s] assms(1)
    unfolding acknowledged_def same same_queue_def by simp
qed

text \<open>Two peers, of which one answers.\<close>

theorem sync_write_acknowledged_by_one_witness:
  "fst (replicate_write (\<lambda>url _. if url = ''u1/api/v1/replication/apply'' then Some 200 else None) (\<lambda>_. 0) 1 2 3
     ''v'' 0 ''b'' ''f'' [1] (snd (re_add_peer 0 ''p2'' ''u2'' (snd (re_add_peer 0 ''p1'' ''u1''
       (ReplicationEngine ''n'' SYNC 5000))))))"
proof -
  let ?post = "\<lambda>url _. if url = ''u1/api/v1/replication/apply'' then Some 200 else None"
  let ?re = "snd (re_add_peer 0 ''p2'' ''u2'' (snd (re_add_peer 0 ''p1'' ''u1'' (ReplicationEngine ''n'' SYNC 5000))))"
  obtain ok re' where r: "replicate_write ?post (\<lambda>_. 0) 1 2 3 ''v'' 0 ''b'' ''f'' [1] ?re = (ok, re')"
    by (metis surj_pair)
  have wf: "wf_dict (re_peers ?re)" and mode: "re_mode ?re = SYNC"
    by (simp_all add: re_add_peer_def ReplicationEngine_def Let_def wf_dict_def)
  have "\<exists>p \<in> set (re_peers ?re). rp_state (snd p) \<noteq> RP_BROKEN \<and> answers_ok ?post ?re operation p" for operation
    by (simp add: re_add_peer_def ReplicationEngine_def Let_def answers_ok_def apply_url_def)
  then have ok using sync_write_acknowledged_by_one [OF wf mode r refl] by blast
  then show ?thesis unfolding r fst_conv .
qed

end
