(* ===== verification/Active_Cluster.thy ===== *)
theory Active_Cluster
  imports Failover Replication
begin

text \<open>
  \<^verbatim>\<open>activecluster/cluster.py\<close>: a cluster node, made of a mediator, a failover controller that shares the
  mediator, and a replication engine. Python's \<^verbatim>\<open>hash\<close> on strings, which differs from process to process,
  is an argument, as are the clock readings.
\<close>

section \<open>State\<close>

datatype cluster_state = CS_INITIALIZING | CS_HEALTHY | CS_DEGRADED | CS_FAILED | CS_MAINTENANCE

record cluster_health =
  ch_state :: cluster_state
  ch_node_count :: nat
  ch_healthy_nodes :: nat
  ch_has_quorum :: bool
  ch_primary_node :: "string option"
  ch_replication_lag_ms :: double

record active_cluster =
  ac_settings :: settings
  ac_node_id :: string
  ac_mediator :: mediator
  ac_replication :: replication
  ac_failover :: failover
  ac_state :: cluster_state
  ac_initialized :: bool
  ac_monitor_task :: bool

definition ActiveCluster :: "settings \<Rightarrow> active_cluster result" where
  "ActiveCluster cfg =
     (case ReplicationMode (cfg_replication_mode cfg) of
        Inl e \<Rightarrow> Inl e
      | Inr mode \<Rightarrow>
          Inr \<lparr> ac_settings = cfg, ac_node_id = cfg_node_id cfg,
                ac_mediator = Mediator (cfg_node_id cfg) (cfg_heartbeat_interval_ms cfg) (cfg_failover_timeout_ms cfg),
                ac_replication = ReplicationEngine (cfg_node_id cfg) mode (cfg_failover_timeout_ms cfg),
                ac_failover = FailoverController (cfg_failover_timeout_ms cfg) True,
                ac_state = CS_INITIALIZING, ac_initialized = False, ac_monitor_task = False \<rparr>)"

section \<open>Operations\<close>

text \<open>The id \<^verbatim>\<open>f"node-{hash(peer_url) % 1000}"\<close> of a peer.\<close>

definition peer_id_of :: "(string \<Rightarrow> int) \<Rightarrow> string \<Rightarrow> string" where
  "peer_id_of hash url = ''node-'' @ str_int (hash url mod 1000)"

definition api_url :: "settings \<Rightarrow> string" where
  "api_url cfg = ''http://'' @ cfg_api_host cfg @ '':'' @ str_int (cfg_api_port cfg)"

definition add_peer_node ::
    "(string \<Rightarrow> int) \<Rightarrow> (string \<Rightarrow> double) \<Rightarrow> string \<Rightarrow> active_cluster \<Rightarrow> active_cluster" where
  "add_peer_node hash clock url ac =
     (let peer_id = peer_id_of hash url
      in ac\<lparr> ac_mediator := snd (me_add_node (clock url) peer_id SECONDARY url (ac_mediator ac)),
             ac_replication := snd (re_add_peer (clock url) peer_id url (ac_replication ac)) \<rparr>)"

definition ac_initialize ::
    "(string \<Rightarrow> int) \<Rightarrow> double \<Rightarrow> (string \<Rightarrow> double) \<Rightarrow> node_role \<Rightarrow> active_cluster \<Rightarrow> active_cluster" where
  "ac_initialize hash now clock role ac =
     (if ac_initialized ac then ac
      else
        let ac = ac\<lparr>ac_mediator := me_register_self now role (api_url (ac_settings ac)) (ac_mediator ac)\<rparr>;
            ac = fold (add_peer_node hash clock) (cfg_peer_nodes (ac_settings ac)) ac;
            ac = (if role = PRIMARY
                  then ac\<lparr>ac_mediator := snd (me_set_primary (ac_node_id ac) (ac_mediator ac))\<rparr> else ac);
            ac = ac\<lparr>ac_mediator := me_start_heartbeat (ac_mediator ac)\<rparr>;
            ac = (if re_mode (ac_replication ac) = ASYNC
                  then ac\<lparr>ac_replication := start_async_replication (ac_replication ac)\<rparr> else ac)
        in ac\<lparr>ac_monitor_task := True, ac_initialized := True, ac_state := CS_HEALTHY\<rparr>)"

text \<open>\<^verbatim>\<open>shutdown\<close> cancels the monitor but keeps the reference to its task.\<close>

definition ac_shutdown :: "active_cluster \<Rightarrow> active_cluster" where
  "ac_shutdown ac =
     ac\<lparr> ac_state := CS_MAINTENANCE, ac_mediator := me_close (ac_mediator ac),
         ac_replication := re_close (ac_replication ac), ac_initialized := False \<rparr>"

definition healthy_count :: "cluster_status \<Rightarrow> nat" where
  "healthy_count status = length (filter ns_is_healthy (dict_values (cs_nodes status)))"

definition ac_update_state :: "active_cluster \<Rightarrow> active_cluster" where
  "ac_update_state ac =
     (let status = me_get_cluster_status (ac_mediator ac)
      in ac\<lparr>ac_state :=
           (if \<not> cs_has_quorum status then CS_FAILED
            else if cs_current_primary status = None then CS_DEGRADED
            else if healthy_count status = length (cs_nodes status) then CS_HEALTHY
            else if healthy_count status > 0 then CS_DEGRADED
            else CS_FAILED)\<rparr>)"

definition with_failover :: "active_cluster \<Rightarrow> failover \<times> mediator \<Rightarrow> active_cluster" where
  "with_failover ac s = ac\<lparr>ac_failover := fst s, ac_mediator := snd s\<rparr>"

text \<open>
  One turn of the monitor, with the clock readings of the two procedures; an exception ends the turn and
  is swallowed.
\<close>

definition monitor_turn ::
    "double \<Rightarrow> double \<Rightarrow> double \<Rightarrow> double \<Rightarrow> active_cluster \<Rightarrow> active_cluster" where
  "monitor_turn t0 t1 t2 t3 ac =
     (case check_and_failover t0 t1 (ac_failover ac, ac_mediator ac) of
        (Inl e, s) \<Rightarrow> with_failover ac s
      | (Inr _, s) \<Rightarrow>
          (case check_and_failback t2 t3 s of
             (Inl e, s) \<Rightarrow> with_failover ac s
           | (Inr _, s) \<Rightarrow> ac_update_state (with_failover ac s)))"

definition ac_get_primary :: "active_cluster \<Rightarrow> string option" where
  "ac_get_primary ac = me_get_primary (ac_mediator ac)"

definition ac_is_primary :: "active_cluster \<Rightarrow> bool" where
  "ac_is_primary ac \<longleftrightarrow> me_get_primary (ac_mediator ac) = Some (ac_node_id ac)"

definition ac_replicate_write ::
    "replication_post \<Rightarrow> (string \<Rightarrow> double) \<Rightarrow> double \<Rightarrow> double \<Rightarrow> double \<Rightarrow> string \<Rightarrow> int \<Rightarrow> string \<Rightarrow> string
     \<Rightarrow> bytes \<Rightarrow> active_cluster \<Rightarrow> bool \<times> active_cluster" where
  "ac_replicate_write post clock now start finish vid off bid fp data ac =
     (case replicate_write post clock now start finish vid off bid fp data (ac_replication ac) of
        (ok, re) \<Rightarrow> (ok, ac\<lparr>ac_replication := re\<rparr>))"

definition ac_replicate_delete ::
    "replication_post \<Rightarrow> (string \<Rightarrow> double) \<Rightarrow> double \<Rightarrow> double \<Rightarrow> double \<Rightarrow> string \<Rightarrow> string \<Rightarrow> active_cluster
     \<Rightarrow> bool \<times> active_cluster" where
  "ac_replicate_delete post clock now start finish vid bid ac =
     (case replicate_delete post clock now start finish vid bid (ac_replication ac) of
        (ok, re) \<Rightarrow> (ok, ac\<lparr>ac_replication := re\<rparr>))"

definition ac_manual_failover ::
    "double \<Rightarrow> double \<Rightarrow> string option \<Rightarrow> active_cluster \<Rightarrow> (active_cluster, failover_event) outcome" where
  "ac_manual_failover t0 t1 target_node ac =
     (case manual_failover t0 t1 target_node (ac_failover ac, ac_mediator ac) of
        (r, s) \<Rightarrow> (r, with_failover ac s))"

definition ac_manual_failback ::
    "double \<Rightarrow> double \<Rightarrow> active_cluster \<Rightarrow> (active_cluster, failover_event option) outcome" where
  "ac_manual_failback t0 t1 ac =
     (case manual_failback t0 t1 (ac_failover ac, ac_mediator ac) of (r, s) \<Rightarrow> (r, with_failover ac s))"

definition ac_get_health :: "active_cluster \<Rightarrow> cluster_health" where
  "ac_get_health ac =
     (let status = me_get_cluster_status (ac_mediator ac)
      in \<lparr> ch_state = ac_state ac, ch_node_count = length (cs_nodes status),
           ch_healthy_nodes = healthy_count status, ch_has_quorum = cs_has_quorum status,
           ch_primary_node = cs_current_primary status,
           ch_replication_lag_ms = rs_avg_latency_ms (rr_stats (re_get_stats (ac_replication ac))) \<rparr>)"

fun cluster_state_value :: "cluster_state \<Rightarrow> string" where
  "cluster_state_value CS_INITIALIZING = ''initializing''"
| "cluster_state_value CS_HEALTHY = ''healthy''"
| "cluster_state_value CS_DEGRADED = ''degraded''"
| "cluster_state_value CS_FAILED = ''failed''"
| "cluster_state_value CS_MAINTENANCE = ''maintenance''"

record cluster_report =
  cr_node_id :: string
  cr_state :: string
  cr_cluster :: cluster_status
  cr_mediator :: mediator_stats
  cr_replication :: replication_report
  cr_failover :: failover_report

definition ac_get_stats :: "active_cluster \<Rightarrow> cluster_report" where
  "ac_get_stats ac =
     \<lparr> cr_node_id = ac_node_id ac, cr_state = cluster_state_value (ac_state ac),
       cr_cluster = me_get_cluster_status (ac_mediator ac), cr_mediator = me_get_stats (ac_mediator ac),
       cr_replication = re_get_stats (ac_replication ac), cr_failover = fo_get_stats (ac_failover ac) \<rparr>"

text \<open>The singleton: none when clustering is off, made and initialized on the first call.\<close>

definition get_cluster ::
    "(string \<Rightarrow> int) \<Rightarrow> double \<Rightarrow> (string \<Rightarrow> double) \<Rightarrow> settings \<Rightarrow> active_cluster option
     \<Rightarrow> (active_cluster option, active_cluster option) outcome" where
  "get_cluster hash now clock cfg cluster =
     (if \<not> cfg_cluster_enabled cfg then (Inr None, cluster)
      else case cluster of
             Some ac \<Rightarrow> (Inr (Some ac), cluster)
           | None \<Rightarrow>
               (case ActiveCluster cfg of
                  Inl e \<Rightarrow> (Inl e, cluster)
                | Inr ac \<Rightarrow> (Inr (Some (ac_initialize hash now clock PRIMARY ac)),
                             Some (ac_initialize hash now clock PRIMARY ac))))"

section \<open>After the start\<close>

text \<open>
  The mediator of a node that has just been initialized: the node itself and one entry per peer id, and every
  other node was last heard of when it was added.
\<close>

definition started ::
    "(string \<Rightarrow> int) \<Rightarrow> (string \<Rightarrow> double) \<Rightarrow> string \<Rightarrow> string list \<Rightarrow> mediator \<Rightarrow> bool" where
  "started hash clock self urls m \<longleftrightarrow>
     nodes_ok m \<and> me_node_id m = self \<and> members m = insert self (peer_id_of hash ` set urls) \<and>
     (\<forall>k n. dict_get (me_nodes m) k = Some n \<longrightarrow> k \<noteq> self \<longrightarrow> (\<exists>url \<in> set urls. nd_last_heartbeat n = clock url))"

lemma set_keys_dict_set: "set (dict_keys (dict_set k v d)) = insert k (set (dict_keys d))"
  by (simp add: dom_map_of_conv_image_fst[symmetric] update_conv')

lemma started_add:
  assumes "started hash clock self urls m"
  shows "started hash clock self (urls @ [url]) (snd (me_add_node (clock url) (peer_id_of hash url) SECONDARY url m))"
proof -
  let ?m = "snd (me_add_node (clock url) (peer_id_of hash url) SECONDARY url m)"
  have m: "me_nodes ?m = dict_set (peer_id_of hash url) (NodeInfo (clock url) (peer_id_of hash url) SECONDARY url) (me_nodes m)"
    "me_node_id ?m = me_node_id m"
    by (simp_all add: me_add_node_def Let_def)
  have "nodes_ok ?m"
    by (rule nodes_ok_set[OF _ _ m(1)]) (use assms in \<open>simp_all add: started_def NodeInfo_def\<close>)
  moreover have "members ?m = insert self (peer_id_of hash ` set (urls @ [url]))"
    using assms by (auto simp: members_def m(1) set_keys_dict_set started_def simp del: set_map)
  ultimately show ?thesis
    using assms m by (auto simp: started_def NodeInfo_def split: if_splits)
qed

lemma started_fold:
  assumes "started hash clock self done_urls (ac_mediator ac)"
  shows "started hash clock self (done_urls @ urls) (ac_mediator (fold (add_peer_node hash clock) urls ac)) \<and>
    ac_node_id (fold (add_peer_node hash clock) urls ac) = ac_node_id ac \<and>
    me_failure_threshold_ms (ac_mediator (fold (add_peer_node hash clock) urls ac))
      = me_failure_threshold_ms (ac_mediator ac)"
  using assms
proof (induction urls arbitrary: ac done_urls)
  case (Cons url urls)
  have "started hash clock self (done_urls @ [url]) (ac_mediator (add_peer_node hash clock url ac))"
    using started_add[OF Cons.prems] by (simp add: add_peer_node_def Let_def)
  from Cons.IH[OF this] show ?case
    by (simp add: add_peer_node_def me_add_node_def Let_def)
qed simp

lemma started_led: "started hash clock self urls m \<Longrightarrow> started hash clock self urls (led_by p m)"
  by (auto simp: started_def led_by_ok led_by_get)

lemma started_initialize:
  assumes "ActiveCluster cfg = Inr ac0"
  shows "started hash clock (cfg_node_id cfg) (cfg_peer_nodes cfg)
      (ac_mediator (ac_initialize hash now clock role ac0)) \<and>
    me_failure_threshold_ms (ac_mediator (ac_initialize hash now clock role ac0)) = cfg_failover_timeout_ms cfg"
proof -
  let ?self = "cfg_node_id cfg"
  have ac0: "ac_settings ac0 = cfg" "ac_node_id ac0 = ?self" "\<not> ac_initialized ac0"
    "ac_mediator ac0 = Mediator ?self (cfg_heartbeat_interval_ms cfg) (cfg_failover_timeout_ms cfg)"
    using assms by (auto simp: ActiveCluster_def split: sum.splits)
  define ac1 where "ac1 = ac0\<lparr>ac_mediator := me_register_self now role (api_url cfg) (ac_mediator ac0)\<rparr>"
  have s1: "ac_settings ac1 = cfg" using ac0(1) by (simp add: ac1_def)
  define ac2 where "ac2 = fold (add_peer_node hash clock) (cfg_peer_nodes cfg) ac1"
  have "started hash clock ?self [] (ac_mediator ac1)"
    unfolding ac1_def started_def nodes_ok_def members_def ac0(4)
    by (auto simp: me_register_self_def Mediator_def NodeInfo_def wf_dict_def split: if_splits)
  from started_fold[OF this, of "cfg_peer_nodes cfg"]
  have st: "started hash clock ?self (cfg_peer_nodes cfg) (ac_mediator ac2)" and "ac_node_id ac2 = ?self"
    and th: "me_failure_threshold_ms (ac_mediator ac2) = cfg_failover_timeout_ms cfg"
    using ac0 by (simp_all add: ac2_def ac1_def me_register_self_def Mediator_def)
  moreover from st have "nodes_ok (ac_mediator ac2)" "?self \<in> members (ac_mediator ac2)"
    by (simp_all add: started_def)
  ultimately have "ac_mediator (ac_initialize hash now clock role ac0)
      = me_start_heartbeat (if role = PRIMARY then led_by ?self (ac_mediator ac2) else ac_mediator ac2)"
    unfolding ac_initialize_def ac0(1) ac1_def[symmetric] Let_def s1 ac2_def[symmetric]
    using ac0(3) by (simp add: set_primary_led)
  moreover have "started hash clock ?self (cfg_peer_nodes cfg) (me_start_heartbeat m)
      = started hash clock ?self (cfg_peer_nodes cfg) m" for m
    by (simp add: started_def me_start_heartbeat_def nodes_ok_def members_def)
  ultimately show ?thesis using st started_led[OF st] th by (simp add: me_start_heartbeat_def)
qed

lemma unknown_heartbeats:
  assumes "\<forall>(t, source, ts, cp) \<in> set beats. source \<notin> members m"
  shows "fold (\<lambda>(t, source, ts, cp) m. snd (me_receive_heartbeat t source ts cp m)) beats m = m"
  using assms
proof (induction beats)
  case (Cons b beats)
  obtain t source ts cp where b: "b = (t, source, ts, cp)" by (cases b)
  then have "dict_get (me_nodes m) source = None"
    using Cons.prems by (simp add: members_def map_of_eq_None_iff)
  then have "snd (me_receive_heartbeat t source ts cp m) = m"
    by (simp add: me_receive_heartbeat_def Let_def)
  then show ?case using Cons b by simp
qed simp

lemma silent_peers:
  assumes "started hash clock self urls m" and "me_failure_threshold_ms m = threshold"
    and "\<forall>url \<in> set urls. of_int threshold < fmul (fsub later (clock url)) 1000"
  shows "healthy_ids (me_check_node_health later m) \<subseteq> {self}" "members (me_check_node_health later m) = members m"
proof -
  have "nd_healthy (snd (check_node later m (k, n))) \<Longrightarrow> k = self" if "dict_get (me_nodes m) k = Some n" for k n
    using that assms by (force simp: check_node_def is_silent_def started_def split: if_splits)
  then show "healthy_ids (me_check_node_health later m) \<subseteq> {self}"
    by (auto simp: healthy_ids_def me_check_node_health_def check_node_get)
  show "members (me_check_node_health later m) = members m"
    by (simp add: members_def me_check_node_health_def image_image)
qed

lemma status_quorum: "cs_has_quorum (me_get_cluster_status m) = me_has_quorum m"
  by (simp add: me_get_cluster_status_def me_has_quorum_def Let_def)

section \<open>Properties\<close>

text \<open>
  C34. A manual failover does not last. When the old primary is healthy (an operator moves the lead for
  maintenance), the target becomes the primary, and the next turn of the cluster's own monitor moves
  the lead back, whatever node was asked for.
\<close>

theorem monitor_undoes_manual_failover:
  assumes "reach me_init me_step (ac_mediator ac)" and "fo_auto_failback (ac_failover ac)"
    and "fo_on_failover (ac_failover ac) = None" and "fo_on_failback (ac_failover ac) = None"
    and "ac_get_primary ac = Some p" and "p \<noteq> []" and "p \<in> healthy_ids (ac_mediator ac)"
    and "t \<noteq> []" and "t \<in> members (ac_mediator ac)"
    and "ac_manual_failover t0 t1 (Some t) ac = (r, ac1)"
  shows "ac_get_primary ac1 = Some t \<and> primary_ids (ac_mediator ac1) = {t} \<and>
    ac_get_primary (monitor_turn t2 t3 t4 t5 ac1) = Some p \<and>
    primary_ids (ac_mediator (monitor_turn t2 t3 t4 t5 ac1)) = {p}"
proof -
  let ?fo = "ac_failover ac" and ?m = "ac_mediator ac"
  have ok: "nodes_ok ?m" using mediators.reach_inv[OF assms(1)] by (simp add: me_inv_def)
  let ?m1 = "led_by t ?m" and ?fo1 = "snd (record_failover t0 t1 (Some p) MANUAL (Some t) (failover_won (Some p) ?fo))"
  have "(if truthy (Some t) then (Some t, ?m1) else me_initiate_election ?m1) = (Some t, ?m1)"
    using assms(8) by (simp add: truthy_def)
  from execute_failover_eq[OF this, of t0 t1 "Some p" MANUAL ?fo]
  have "snd (manual_failover t0 t1 (Some t) (?fo, ?m)) = (?fo1, ?m1)"
    using assms(3,5,8,9) set_primary_led[OF ok, of t]
    by (simp add: manual_failover_def Let_def truthy_def me_get_primary_def ac_get_primary_def)
  then have ac1: "ac1 = with_failover ac (?fo1, ?m1)"
    using assms(10) by (auto simp: ac_manual_failover_def split: prod.splits)
  have ok1: "nodes_ok ?m1" "p \<in> healthy_ids ?m1" "p \<in> members ?m1"
    using ok led_by_ok assms(7) healthy_members[of ?m] by auto
  have fo1: "fo_state ?fo1 = FAILED_OVER" "fo_original_primary ?fo1 = Some p" "fo_auto_failback ?fo1"
    "fo_on_failback ?fo1 = None"
    using assms(2,4) by (simp_all add: failover_event_fields failover_won_def)
  have no: "check_and_failover t2 t3 (?fo1, ?m1) = (Inr None, ?fo1, ?m1)"
    using fo1(1) by (simp add: check_and_failover_def Let_def)
  obtain r2 fo2 m2 where x: "execute_failback t4 t5 (?fo1, ?m1) = (r2, fo2, m2)" by (metis surj_pair)
  from execute_failback_led[OF ok1(1) fo1(2) ok1(3) fo1(4) x] obtain event where r2: "r2 = Inr event" "m2 = led_by p ?m1"
    by blast
  have "check_and_failback t4 t5 (?fo1, ?m1) = (Inr (Some event), fo2, m2)"
    using original_back[OF fo1(3,1,2) assms(6) ok1(2), of t4 t5] x r2 by simp
  then have "ac_mediator (monitor_turn t2 t3 t4 t5 ac1) = led_by p ?m1"
    using ac1 no r2 by (simp add: monitor_turn_def with_failover_def ac_update_state_def Let_def)
  then show ?thesis
    using ac1 led_by_primary[OF ok assms(9)] led_by_primary[OF ok1(1,3)]
    by (simp add: ac_get_primary_def me_get_primary_def with_failover_def)
qed

definition demo_cluster :: active_cluster where
  "demo_cluster = \<lparr> ac_settings = default_settings, ac_node_id = ''a'',
     ac_mediator = led_by ''a'' (partition_side [''a'', ''b'', ''c''] ''a''),
     ac_replication = ReplicationEngine ''a'' SYNC 5000, ac_failover = FailoverController 5000 True,
     ac_state = CS_HEALTHY, ac_initialized = True, ac_monitor_task = True \<rparr>"

theorem monitor_undoes_manual_failover_witness:
  "ac_get_primary (monitor_turn 2 3 4 5 (snd (ac_manual_failover 0 1 (Some ''b'') demo_cluster))) = Some ''a''"
proof -
  let ?c = demo_cluster
  have c: "fo_auto_failback (ac_failover ?c)" "fo_on_failover (ac_failover ?c) = None" "fo_on_failback (ac_failover ?c) = None"
    "ac_get_primary ?c = Some ''a''" "''a'' \<in> healthy_ids (ac_mediator ?c)" "''b'' \<in> members (ac_mediator ?c)"
    by (simp_all add: demo_cluster_def FailoverController_def ac_get_primary_def me_get_primary_def partition_side_simps)
  have r: "reach me_init me_step (ac_mediator ?c)" by (simp add: demo_cluster_def demo_lead_reach)
  obtain r1 c1 where x: "ac_manual_failover 0 1 (Some ''b'') ?c = (r1, c1)" by (metis surj_pair)
  show ?thesis
    using monitor_undoes_manual_failover [OF r c(1-4) _ c(5) _ c(6) x, of 2 3 4 5] x by simp
qed

text \<open>
  C35. Clusters with peers report failure. \<^verbatim>\<open>initialize\<close> files each peer under an id made from the hash of its URL,
  while peers sign their heartbeats with their configured node id: heartbeats from ids that are not
  filed change nothing at all, and once the failover timeout has passed since the start, the health
  check has declared every peer dead and the state of the cluster is FAILED, however many peers are alive.
\<close>

theorem unregistered_heartbeats_fail_cluster:
  assumes "ActiveCluster cfg = Inr ac0" and "ac = ac_initialize hash now clock role ac0"
    and "cfg_peer_nodes cfg \<noteq> []" and "\<forall>url \<in> set (cfg_peer_nodes cfg). peer_id_of hash url \<noteq> cfg_node_id cfg"
    and "\<forall>(t, source, ts, cp) \<in> set beats. source \<notin> members (ac_mediator ac)"
    and "m = fold (\<lambda>(t, source, ts, cp) m. snd (me_receive_heartbeat t source ts cp m)) beats (ac_mediator ac)"
    and "\<forall>url \<in> set (cfg_peer_nodes cfg). of_int (cfg_failover_timeout_ms cfg) < fmul (fsub later (clock url)) 1000"
  shows "m = ac_mediator ac \<and>
    ac_state (ac_update_state (ac\<lparr>ac_mediator := me_check_node_health later m\<rparr>)) = CS_FAILED"
proof -
  have m: "m = ac_mediator ac" using assms(5,6) unknown_heartbeats by simp
  let ?self = "cfg_node_id cfg"
  from started_initialize[OF assms(1), of hash clock now role]
  have st: "started hash clock ?self (cfg_peer_nodes cfg) m"
    and th: "me_failure_threshold_ms m = cfg_failover_timeout_ms cfg"
    using m assms(2) by simp_all
  let ?m = "me_check_node_health later m"
  note silent = silent_peers[OF st th assms(7)]
  have ok: "nodes_ok ?m" using st check_health_ok by (simp add: started_def)
  obtain url where "url \<in> set (cfg_peer_nodes cfg)" using assms(3) by (cases "cfg_peer_nodes cfg") auto
  then have "{?self, peer_id_of hash url} \<subseteq> members ?m" "card {?self, peer_id_of hash url} = 2"
    using st assms(4) silent(2) by (auto simp: started_def)
  then have "2 \<le> card (members ?m)" by (metis card_mono finite_set members_def)
  moreover have "card (healthy_ids ?m) \<le> 1" using card_mono[OF _ silent(1)] by simp
  ultimately have "\<not> me_has_quorum ?m" using has_quorum_iff[OF ok] by simp
  then show ?thesis using m by (simp add: ac_update_state_def status_quorum Let_def)
qed

theorem unregistered_heartbeats_fail_cluster_witness:
  "\<exists>ac0. ActiveCluster (default_settings\<lparr>cfg_peer_nodes := [''http://b'']\<rparr>) = Inr ac0 \<and>
     ac_state (ac_update_state ((ac_initialize (\<lambda>_. 7) 0 (\<lambda>_. 0) PRIMARY ac0)
       \<lparr>ac_mediator := me_check_node_health 10 (snd (me_receive_heartbeat 9 ''node-2'' 9 None
          (ac_mediator (ac_initialize (\<lambda>_. 7) 0 (\<lambda>_. 0) PRIMARY ac0))))\<rparr>)) = CS_FAILED"
proof -
  let ?cfg = "default_settings\<lparr>cfg_peer_nodes := [''http://b'']\<rparr>" and ?hash = "\<lambda>_::string. 7::int"
  obtain ac0 where ac0: "ActiveCluster ?cfg = Inr ac0"
    by (simp add: ActiveCluster_def ReplicationMode_def default_settings_def)
  let ?ac = "ac_initialize ?hash 0 (\<lambda>_. 0) PRIMARY ac0"
  have id: "peer_id_of ?hash url = ''node-7''" for url
    by (simp add: peer_id_of_def str_int_def str_nat.simps)
  have "members (ac_mediator ?ac) = {''node-1'', ''node-7''}"
    using started_initialize[OF ac0, of ?hash "\<lambda>_. 0" 0 PRIMARY] id
    by (auto simp: started_def default_settings_def)
  then have beats: "\<forall>(t, source, ts, cp) \<in> set [(9, ''node-2'', 9, None)]. source \<notin> members (ac_mediator ?ac)" by simp
  have silent: "\<forall>url \<in> set (cfg_peer_nodes ?cfg). of_int (cfg_failover_timeout_ms ?cfg) < fmul (fsub 10 0) 1000"
    using fl_numeral[of "num.Bit0 (num.Bit1 (num.Bit0 num.One))"] fl_of_int[of 10000]
    by (simp add: default_settings_def fmul_def fsub_def)
  have peers: "cfg_peer_nodes ?cfg \<noteq> []" "\<forall>url \<in> set (cfg_peer_nodes ?cfg). peer_id_of ?hash url \<noteq> cfg_node_id ?cfg"
    by (simp_all add: id default_settings_def)
  from conjunct2[OF unregistered_heartbeats_fail_cluster [OF ac0 refl peers beats refl silent]]
  have "ac_state (ac_update_state (?ac\<lparr>ac_mediator := me_check_node_health 10
      (snd (me_receive_heartbeat 9 ''node-2'' 9 None (ac_mediator ?ac)))\<rparr>)) = CS_FAILED"
    by (simp only: fold.simps prod.case comp_apply id_apply)
  with ac0 show ?thesis by (intro exI[of _ ac0] conjI)
qed

end
