(* ===== verification/Cluster_Api.thy ===== *)
theory Cluster_Api
  imports Api Active_Cluster
begin

text \<open>
  \<^verbatim>\<open>api/routes/replication.py\<close> with \<^verbatim>\<open>api/schemas/replication.py\<close>: the handlers of the cluster resource over
  the cluster singleton. When clustering is off they answer for a single node or refuse.
\<close>

section \<open>Schemas\<close>

record peer_node =
  pn_node_id :: string
  pn_url :: string
  pn_state :: string
  pn_last_heartbeat :: double
  pn_lag_bytes :: int

record add_peer_request =
  aq_node_id :: string
  aq_url :: string

text \<open>\<^verbatim>\<open>Field(..., pattern=r"^https?://")\<close>\<close>

definition AddPeerRequest :: "add_peer_request \<Rightarrow> bool" where
  "AddPeerRequest request \<longleftrightarrow>
     take 7 (aq_url request) = ''http://'' \<or> take 8 (aq_url request) = ''https://''"

record replication_status_response =
  rx_mode :: string
  rx_node_id :: string
  rx_is_primary :: bool
  rx_peers :: "peer_node list"
  rx_operations_replicated :: int
  rx_operations_pending :: int
  rx_avg_latency_ms :: double

record cluster_status_response =
  cx_node_id :: string
  cx_state :: string
  cx_current_primary :: "string option"
  cx_has_quorum :: bool
  cx_node_count :: nat
  cx_healthy_nodes :: nat
  cx_replication_lag_ms :: double

record failover_request =
  fq_target_node :: "string option"

record failover_response =
  fx_old_primary :: "string option"
  fx_new_primary :: "string option"
  fx_reason :: string
  fx_state :: string
  fx_duration_ms :: "double option"

record heartbeat_request =
  hq_source_node :: string
  hq_timestamp :: double
  hq_current_primary :: "string option"

record heartbeat_response =
  hx_node_id :: string
  hx_current_primary :: "string option"
  hx_timestamp :: double

record apply_response =
  ax_status :: string
  ax_sequence_number :: int

section \<open>Handlers\<close>

text \<open>
  What \<^verbatim>\<open>get_cluster\<close> reads when it has to make the cluster: the string hash of the process and the clock.
\<close>

record cluster_env =
  ev_hash :: "string \<Rightarrow> int"
  ev_now :: double
  ev_clock :: "string \<Rightarrow> double"

text \<open>\<^verbatim>\<open>cluster = await get_cluster()\<close>, with the answer when there is none.\<close>

definition with_cluster ::
    "cluster_env \<Rightarrow> settings \<Rightarrow> 'a response \<Rightarrow> (active_cluster \<Rightarrow> 'a response \<times> active_cluster)
     \<Rightarrow> (active_cluster option, 'a) handler" where
  "with_cluster ev cfg standalone handle g =
     (case get_cluster (ev_hash ev) (ev_now ev) (ev_clock ev) cfg g of
        (Inl e, g) \<Rightarrow> (Raised e, g)
      | (Inr None, g) \<Rightarrow> (standalone, g)
      | (Inr (Some ac), g) \<Rightarrow> (case handle ac of (r, ac) \<Rightarrow> (r, Some ac)))"

definition not_enabled :: "'a response" where
  "not_enabled = HTTPException HTTP_400_BAD_REQUEST ''Clustering is not enabled''"

definition get_cluster_status ::
    "cluster_env \<Rightarrow> settings \<Rightarrow> (active_cluster option, cluster_status_response) handler" where
  "get_cluster_status ev cfg = with_cluster ev cfg
     (Reply HTTP_200_OK \<lparr> cx_node_id = cfg_node_id cfg, cx_state = ''standalone'',
        cx_current_primary = Some (cfg_node_id cfg), cx_has_quorum = True, cx_node_count = 1,
        cx_healthy_nodes = 1, cx_replication_lag_ms = 0 \<rparr>)
     (\<lambda>ac. let health = ac_get_health ac
           in (Reply HTTP_200_OK \<lparr> cx_node_id = ac_node_id ac, cx_state = cluster_state_value (ch_state health),
                 cx_current_primary = ch_primary_node health, cx_has_quorum = ch_has_quorum health,
                 cx_node_count = ch_node_count health, cx_healthy_nodes = ch_healthy_nodes health,
                 cx_replication_lag_ms = ch_replication_lag_ms health \<rparr>, ac))"

definition peer_to_node :: "replication_peer \<Rightarrow> peer_node" where
  "peer_to_node peer =
     \<lparr> pn_node_id = rp_node_id peer, pn_url = rp_url peer, pn_state = replication_state_value (rp_state peer),
       pn_last_heartbeat = rp_last_heartbeat peer, pn_lag_bytes = rp_lag_bytes peer \<rparr>"

definition get_replication_status ::
    "cluster_env \<Rightarrow> settings \<Rightarrow> (active_cluster option, replication_status_response) handler" where
  "get_replication_status ev cfg = with_cluster ev cfg
     (Reply HTTP_200_OK \<lparr> rx_mode = ''disabled'', rx_node_id = cfg_node_id cfg, rx_is_primary = True, rx_peers = [],
        rx_operations_replicated = 0, rx_operations_pending = 0, rx_avg_latency_ms = 0 \<rparr>)
     (\<lambda>ac. let stats = re_get_stats (ac_replication ac);
               peers = List.map_filter (\<lambda>(peer_id, state). re_get_peer_status peer_id (ac_replication ac)) (rr_peers stats)
           in (Reply HTTP_200_OK \<lparr> rx_mode = rr_mode stats, rx_node_id = ac_node_id ac,
                 rx_is_primary = ac_is_primary ac, rx_peers = map peer_to_node peers,
                 rx_operations_replicated = rs_operations_replicated (rr_stats stats),
                 rx_operations_pending = rs_operations_pending (rr_stats stats),
                 rx_avg_latency_ms = rs_avg_latency_ms (rr_stats stats) \<rparr>, ac))"

definition add_peer ::
    "cluster_env \<Rightarrow> settings \<Rightarrow> double \<Rightarrow> add_peer_request \<Rightarrow> (active_cluster option, peer_node) handler" where
  "add_peer ev cfg now request = validated (AddPeerRequest request) (with_cluster ev cfg not_enabled
     (\<lambda>ac. case re_add_peer now (aq_node_id request) (aq_url request) (ac_replication ac) of
             (peer, re) \<Rightarrow> (Reply HTTP_201_CREATED (peer_to_node peer), ac\<lparr>ac_replication := re\<rparr>)))"

definition remove_peer :: "cluster_env \<Rightarrow> settings \<Rightarrow> string \<Rightarrow> (active_cluster option, unit) handler" where
  "remove_peer ev cfg node_id = with_cluster ev cfg not_enabled
     (\<lambda>ac. case re_remove_peer node_id (ac_replication ac) of
             (ok, re) \<Rightarrow>
               (if \<not> ok then HTTPException HTTP_404_NOT_FOUND (''Peer '' @ node_id @ '' not found'')
                else Reply HTTP_204_NO_CONTENT (), ac\<lparr>ac_replication := re\<rparr>))"

fun failover_reason_value :: "failover_reason \<Rightarrow> string" where
  "failover_reason_value NODE_FAILURE = ''node_failure''"
| "failover_reason_value MANUAL = ''manual''"
| "failover_reason_value NETWORK_PARTITION = ''network_partition''"
| "failover_reason_value MAINTENANCE = ''maintenance''"

definition event_to_response :: "failover_event \<Rightarrow> failover_response" where
  "event_to_response event =
     \<lparr> fx_old_primary = fe_old_primary event, fx_new_primary = fe_new_primary event,
       fx_reason = failover_reason_value (fe_reason event), fx_state = failover_state_value (fe_state event),
       fx_duration_ms = fe_duration_ms event \<rparr>"

definition trigger_failover ::
    "cluster_env \<Rightarrow> settings \<Rightarrow> double \<Rightarrow> double \<Rightarrow> failover_request \<Rightarrow> (active_cluster option, failover_response) handler" where
  "trigger_failover ev cfg t0 t1 request = with_cluster ev cfg not_enabled
     (\<lambda>ac. case ac_manual_failover t0 t1 (fq_target_node request) ac of
             (Inl e, ac) \<Rightarrow> (Raised e, ac)
           | (Inr event, ac) \<Rightarrow> (Reply HTTP_200_OK (event_to_response event), ac))"

definition trigger_failback ::
    "cluster_env \<Rightarrow> settings \<Rightarrow> double \<Rightarrow> double \<Rightarrow> (active_cluster option, failover_response) handler" where
  "trigger_failback ev cfg t0 t1 = with_cluster ev cfg not_enabled
     (\<lambda>ac. case ac_manual_failback t0 t1 ac of
             (Inl e, ac) \<Rightarrow> (Raised e, ac)
           | (Inr None, ac) \<Rightarrow>
               (HTTPException HTTP_400_BAD_REQUEST ''No failback available (not in failed-over state)'', ac)
           | (Inr (Some event), ac) \<Rightarrow> (Reply HTTP_200_OK (event_to_response event), ac))"

definition receive_heartbeat ::
    "cluster_env \<Rightarrow> settings \<Rightarrow> double \<Rightarrow> heartbeat_request \<Rightarrow> (active_cluster option, heartbeat_response) handler" where
  "receive_heartbeat ev cfg now request = with_cluster ev cfg
     (Reply HTTP_200_OK \<lparr> hx_node_id = cfg_node_id cfg, hx_current_primary = Some (cfg_node_id cfg),
        hx_timestamp = hq_timestamp request \<rparr>)
     (\<lambda>ac. case me_receive_heartbeat now (hq_source_node request) (hq_timestamp request)
                  (hq_current_primary request) (ac_mediator ac) of
             (response, m) \<Rightarrow>
               (Reply HTTP_200_OK \<lparr> hx_node_id = hr_node_id response, hx_current_primary = hr_current_primary response,
                  hx_timestamp = hr_timestamp response \<rparr>, ac\<lparr>ac_mediator := m\<rparr>))"

text \<open>
  \<^verbatim>\<open>apply_replication\<close> only acknowledges; it does not look at the state. The schema \<^verbatim>\<open>ApplyReplicationRequest\<close> is the
  request the replication engine of the sender builds.
\<close>

definition apply_replication :: "replication_request \<Rightarrow> ('g, apply_response) handler" where
  "apply_replication request g =
     (Reply HTTP_200_OK \<lparr> ax_status = ''ok'', ax_sequence_number = op_sequence_number (rq_operation request) \<rparr>, g)"

end
