(* ===== verification/Metrics_Api.thy ===== *)
theory Metrics_Api
  imports Cluster_Api
begin

text \<open>
  \<^verbatim>\<open>api/routes/metrics.py\<close>: the statistics of the components, selected and regrouped. The dictionaries of
  the source are records with one field per key.
\<close>

section \<open>Reduction, flash and volumes\<close>

record reduction_metrics =
  mx_overall_reduction_ratio :: double
  mx_dedupe_ratio :: double
  mx_unique_blocks :: int
  mx_duplicate_blocks :: int
  mx_compression_ratio :: double
  mx_algorithm :: string
  mx_zero_blocks_found :: int
  mx_pattern_blocks_found :: int
  mx_pattern_saved :: int
  mx_dedupe_saved :: int
  mx_compression_saved :: int

definition get_reduction_metrics :: "settings \<Rightarrow> (controller option, reduction_metrics) handler" where
  "get_reduction_metrics cfg = with_controller cfg (\<lambda>sc.
     let stats = pe_get_stats fb_get_stats (sc_purity sc); overall = pst_overall stats
     in case (pst_deduplication stats, pst_compression stats) of
          ((dedupe, d_ratio, table_size), (compression, c_ratio, algorithm)) \<Rightarrow>
            (Reply HTTP_200_OK
               \<lparr> mx_overall_reduction_ratio = pst_total_reduction_ratio stats, mx_dedupe_ratio = d_ratio,
                 mx_unique_blocks = ds_unique_blocks dedupe, mx_duplicate_blocks = ds_duplicate_blocks dedupe,
                 mx_compression_ratio = c_ratio, mx_algorithm = algorithm,
                 mx_zero_blocks_found = ps_zero_blocks_found (pst_pattern_removal stats),
                 mx_pattern_blocks_found = ps_pattern_blocks_found (pst_pattern_removal stats),
                 mx_pattern_saved = rs_pattern_bytes_saved overall, mx_dedupe_saved = rs_dedupe_bytes_saved overall,
                 mx_compression_saved = rs_compression_bytes_saved overall \<rparr>, sc))"

fun gc_state_value :: "gc_state \<Rightarrow> string" where
  "gc_state_value GC_IDLE = ''idle''"
| "gc_state_value GC_RUNNING = ''running''"
| "gc_state_value GC_STOPPED = ''stopped''"

record flash_metrics =
  fm_total_bytes :: int
  fm_used_bytes :: int
  fm_free_bytes :: int
  fm_utilization :: double
  fm_health_percentage :: double
  fm_avg_erase_count :: double
  fm_max_erase_count :: int
  fm_blocks_moved :: int
  fm_wear_variance :: double
  fm_gc_state :: string
  fm_blocks_reclaimed :: int
  fm_gc_runs :: int

definition get_flash_metrics :: "settings \<Rightarrow> (controller option, flash_metrics) handler" where
  "get_flash_metrics cfg = with_controller cfg (\<lambda>sc.
     case flash_get_stats (sc_directflash sc) of
       Inl e \<Rightarrow> (Raised e, sc)
     | Inr stats \<Rightarrow>
         (Reply HTTP_200_OK
            \<lparr> fm_total_bytes = fr_total_capacity_bytes stats, fm_used_bytes = fr_used_bytes stats,
              fm_free_bytes = fr_free_bytes stats, fm_utilization = fr_utilization stats,
              fm_health_percentage = fr_health_percentage stats,
              fm_avg_erase_count = br_avg_erase_count (fr_blocks stats),
              fm_max_erase_count = br_max_erase_count (fr_blocks stats),
              fm_blocks_moved = lr_blocks_moved (fr_wear_leveling stats),
              fm_wear_variance = lr_wear_variance (fr_wear_leveling stats),
              fm_gc_state = gc_state_value (gr_state (fr_garbage_collection stats)),
              fm_blocks_reclaimed = gs_blocks_reclaimed (gr_stats (fr_garbage_collection stats)),
              fm_gc_runs = gs_gc_runs (gr_stats (fr_garbage_collection stats)) \<rparr>, sc))"

record volume_metrics =
  vx_total :: int
  vx_provisioned_bytes :: int
  vx_used_bytes :: int
  vx_snapshots_total :: int
  vx_snapshots_by_volume :: "(string, int) dict"

definition get_volume_metrics :: "settings \<Rightarrow> (controller option, volume_metrics) handler" where
  "get_volume_metrics cfg = with_controller cfg (\<lambda>sc.
     let volume_stats = vm_get_stats (sc_volume_manager sc); snapshot_stats = sm_get_stats (sc_snapshot_manager sc)
     in (Reply HTTP_200_OK
           \<lparr> vx_total = vs_total_volumes volume_stats, vx_provisioned_bytes = vs_total_provisioned_bytes volume_stats,
             vx_used_bytes = vs_total_used_bytes volume_stats, vx_snapshots_total = ss_total_snapshots snapshot_stats,
             vx_snapshots_by_volume = ss_snapshots_by_volume snapshot_stats \<rparr>, sc))"

section \<open>Replication and everything\<close>

record replication_metrics =
  rm_mode :: string
  rm_peers :: nat
  rm_replicated :: int
  rm_pending :: int
  rm_errors :: int
  rm_latency_ms :: double
  rm_failover_state :: string
  rm_total_failovers :: int
  rm_avg_time_ms :: double

text \<open>\<open>None\<close> is the answer \<^verbatim>\<open>{"enabled": False, ...}\<close>.\<close>

definition get_replication_metrics ::
    "cluster_env \<Rightarrow> settings \<Rightarrow> (active_cluster option, replication_metrics option) handler" where
  "get_replication_metrics ev cfg = with_cluster ev cfg (Reply HTTP_200_OK None)
     (\<lambda>ac. let stats = re_get_stats (ac_replication ac); failover_stats = fo_get_stats (ac_failover ac)
           in (Reply HTTP_200_OK (Some
                 \<lparr> rm_mode = rr_mode stats, rm_peers = length (rr_peers stats),
                   rm_replicated = rs_operations_replicated (rr_stats stats),
                   rm_pending = rs_operations_pending (rr_stats stats),
                   rm_errors = rs_replication_errors (rr_stats stats),
                   rm_latency_ms = rs_avg_latency_ms (rr_stats stats),
                   rm_failover_state = fr_state failover_stats,
                   rm_total_failovers = fs_total_failovers (fr_stats failover_stats),
                   rm_avg_time_ms = fs_avg_failover_time_ms (fr_stats failover_stats) \<rparr>), ac))"

record system_metrics =
  sx_storage :: controller_report
  sx_cluster :: "cluster_report option"

text \<open>\<^verbatim>\<open>get_metrics\<close> uses both singletons.\<close>

definition get_metrics ::
    "cluster_env \<Rightarrow> settings \<Rightarrow> (controller option \<times> active_cluster option, system_metrics) handler" where
  "get_metrics ev cfg = (\<lambda>(g, c).
     case get_controller cfg g of
       (Inl e, g) \<Rightarrow> (Raised e, g, c)
     | (Inr sc, g) \<Rightarrow>
         (case sc_get_stats sc of
            Inl e \<Rightarrow> (Raised e, g, c)
          | Inr stats \<Rightarrow>
              (case with_cluster ev cfg (Reply HTTP_200_OK \<lparr> sx_storage = stats, sx_cluster = None \<rparr>)
                      (\<lambda>ac. (Reply HTTP_200_OK \<lparr> sx_storage = stats, sx_cluster = Some (ac_get_stats ac) \<rparr>, ac)) c of
                 (r, c) \<Rightarrow> (r, g, c))))"

end
