(* ===== verification/Predictor.thy ===== *)
theory Predictor
  imports Storage_Controller "HOL-Library.List_Lexorder" "HOL-Library.Char_ord"
begin

text \<open>
  \<^verbatim>\<open>analytics/predictor.py\<close>: capacity forecast by linear regression, data temperature, drive health and
  tiering recommendations, computed from the statistics of the controller. All floating-point
  operations are the rounded ones. Clock readings are arguments; where the source reads the clock once
  per volume or block, the argument is a function.
\<close>

section \<open>State\<close>

datatype data_temperature = HOT | WARM | COLD | FROZEN

datatype tier_type = NVME | SSD | HDD | ARCHIVE

fun temperature_value :: "data_temperature \<Rightarrow> string" where
  "temperature_value HOT = ''hot''"
| "temperature_value WARM = ''warm''"
| "temperature_value COLD = ''cold''"
| "temperature_value FROZEN = ''frozen''"

fun tier_value :: "tier_type \<Rightarrow> string" where
  "tier_value NVME = ''nvme''"
| "tier_value SSD = ''ssd''"
| "tier_value HDD = ''hdd''"
| "tier_value ARCHIVE = ''archive''"

record capacity_forecast =
  cf_current_used_bytes :: int
  cf_current_total_bytes :: int
  cf_current_utilization :: double
  cf_predicted_used_bytes_7d :: int
  cf_predicted_used_bytes_30d :: int
  cf_predicted_used_bytes_90d :: int
  cf_days_until_80_percent :: "int option"
  cf_days_until_90_percent :: "int option"
  cf_days_until_full :: "int option"
  cf_growth_rate_bytes_per_day :: double
  cf_confidence :: double

record drive_health =
  dh_overall_score :: double
  dh_wear_level :: double
  dh_erase_count_avg :: double
  dh_erase_count_max :: int
  dh_bad_block_count :: int
  dh_predicted_end_of_life_days :: "int option"
  dh_status :: string
  dh_recommendations :: "string list"

text \<open>\<open>None\<close> stands for the infinite age of data that were never accessed.\<close>

record tiering_recommendation =
  tr_volume_id :: string
  tr_volume_name :: string
  tr_current_tier :: tier_type
  tr_recommended_tier :: tier_type
  tr_temperature :: data_temperature
  tr_last_access_seconds :: "double option"
  tr_access_count :: int
  tr_estimated_savings_bytes :: int
  tr_reason :: string

record access_record =
  ar_volume_id :: string
  ar_block_offset :: int
  ar_access_count :: int
  ar_last_access_time :: double
  ar_total_bytes_accessed :: int

type_synonym access_records = "(int, access_record) dict"

record predictor =
  pd_capacity_history :: "(double \<times> int) list"
  pd_access_records :: "(string, access_records) dict"
  pd_volume_tiers :: "(string, tier_type) dict"
  pd_sample_interval :: int
  pd_max_history_points :: int

definition TEMP_HOT_THRESHOLD :: int where "TEMP_HOT_THRESHOLD = 3600"

definition TEMP_WARM_THRESHOLD :: int where "TEMP_WARM_THRESHOLD = 86400"

definition TEMP_COLD_THRESHOLD :: int where "TEMP_COLD_THRESHOLD = 604800"

definition StoragePredictor :: predictor where
  "StoragePredictor = \<lparr> pd_capacity_history = [], pd_access_records = [], pd_volume_tiers = [],
     pd_sample_interval = 300, pd_max_history_points = 2016 \<rparr>"

section \<open>Recording\<close>

definition record_capacity_sample :: "double \<Rightarrow> controller \<Rightarrow> predictor \<Rightarrow> (predictor, unit) outcome" where
  "record_capacity_sample timestamp sc pd =
     (case flash_get_stats (sc_directflash sc) of
        Inl e \<Rightarrow> (Inl e, pd)
      | Inr stats \<Rightarrow>
          let history = pd_capacity_history pd @ [(timestamp, fr_used_bytes stats)]
          in (Inr (), pd\<lparr>pd_capacity_history :=
                (if int (length history) > pd_max_history_points pd
                 then py_slice_from history (- pd_max_history_points pd) else history)\<rparr>))"

definition record_access :: "double \<Rightarrow> string \<Rightarrow> int \<Rightarrow> int \<Rightarrow> predictor \<Rightarrow> predictor" where
  "record_access now volume_id block_offset sz pd =
     (let records = (case dict_get (pd_access_records pd) volume_id of None \<Rightarrow> [] | Some rs \<Rightarrow> rs);
          r = (case dict_get records block_offset of
                 None \<Rightarrow> \<lparr> ar_volume_id = volume_id, ar_block_offset = block_offset, ar_access_count = 0,
                           ar_last_access_time = 0, ar_total_bytes_accessed = 0 \<rparr>
               | Some r \<Rightarrow> r);
          r = r\<lparr> ar_access_count := ar_access_count r + 1, ar_last_access_time := now,
                 ar_total_bytes_accessed := ar_total_bytes_accessed r + sz \<rparr>
      in pd\<lparr>pd_access_records := dict_set volume_id (dict_set block_offset r records) (pd_access_records pd)\<rparr>)"

section \<open>Capacity forecast\<close>

record regression =
  rg_slope :: double
  rg_intercept :: double
  rg_sum_y :: int

definition linear_regression :: "(double \<times> int) list \<Rightarrow> regression" where
  "linear_regression history =
     (let n = float_of (int (length history));
          sum_x = fsum (map fst history);
          sum_y = sum_list (map snd history);
          sum_xy = fsum (map (\<lambda>(t, u). fmul t (float_of u)) history);
          sum_x2 = fsum (map (\<lambda>(t, u). fmul t t) history);
          denominator = fsub (fmul n sum_x2) (fmul sum_x sum_x);
          slope = (if denominator = 0 then 0
                   else fdiv (fsub (fmul n sum_xy) (fmul sum_x (float_of sum_y))) denominator);
          intercept = fdiv (fsub (float_of sum_y) (fmul slope sum_x)) n
      in \<lparr> rg_slope = slope, rg_intercept = intercept, rg_sum_y = sum_y \<rparr>)"

definition predict :: "regression \<Rightarrow> double \<Rightarrow> int \<Rightarrow> int \<Rightarrow> int \<Rightarrow> int" where
  "predict rg now current_used total_capacity days_ahead =
     (let future_time = fadd now (float_of (days_ahead * 86400));
          predicted = fadd (rg_intercept rg) (fmul (rg_slope rg) future_time)
      in max current_used (min (py_int predicted) total_capacity))"

definition growth_rate_per_day :: "regression \<Rightarrow> double" where
  "growth_rate_per_day rg = fmul (rg_slope rg) 86400"

definition days_until_threshold :: "regression \<Rightarrow> int \<Rightarrow> int \<Rightarrow> double \<Rightarrow> int option" where
  "days_until_threshold rg current_used total_capacity threshold_ratio =
     (if rg_slope rg \<le> 0 then None
      else
        let target_bytes = py_int (fmul (float_of total_capacity) threshold_ratio)
        in if current_used \<ge> target_bytes then Some 0
           else
             let bytes_remaining = target_bytes - current_used;
                 days = fdiv (float_of bytes_remaining) (max (growth_rate_per_day rg) 1)
             in Some (max 0 (py_int days)))"

definition confidence_of :: "regression \<Rightarrow> (double \<times> int) list \<Rightarrow> double" where
  "confidence_of rg history =
     (let mean_y = fdiv (of_int (rg_sum_y rg)) (of_nat (length history));
          ss_tot = fsum (map (\<lambda>(t, u). fsquare (fsub (float_of u) mean_y)) history);
          ss_res = fsum (map (\<lambda>(t, u). fsquare (fsub (float_of u)
                     (fadd (rg_intercept rg) (fmul (rg_slope rg) t)))) history);
          r_squared = (if ss_tot > 0 then fsub 1 (fdiv ss_res ss_tot) else 0)
      in max 0 (min 1 r_squared))"

definition get_capacity_forecast :: "double \<Rightarrow> controller \<Rightarrow> predictor \<Rightarrow> capacity_forecast result" where
  "get_capacity_forecast now sc pd =
     (case flash_get_stats (sc_directflash sc) of
        Inl e \<Rightarrow> Inl e
      | Inr stats \<Rightarrow>
          let used = fr_used_bytes stats; capacity = fr_total_capacity_bytes stats;
              history = pd_capacity_history pd; rg = linear_regression history
          in if length history < 2 then
               Inr \<lparr> cf_current_used_bytes = used, cf_current_total_bytes = capacity,
                     cf_current_utilization = fr_utilization stats, cf_predicted_used_bytes_7d = used,
                     cf_predicted_used_bytes_30d = used, cf_predicted_used_bytes_90d = used,
                     cf_days_until_80_percent = None, cf_days_until_90_percent = None,
                     cf_days_until_full = None, cf_growth_rate_bytes_per_day = 0, cf_confidence = 0 \<rparr>
             else
               Inr \<lparr> cf_current_used_bytes = used, cf_current_total_bytes = capacity,
                     cf_current_utilization = fr_utilization stats,
                     cf_predicted_used_bytes_7d = predict rg now used capacity 7,
                     cf_predicted_used_bytes_30d = predict rg now used capacity 30,
                     cf_predicted_used_bytes_90d = predict rg now used capacity 90,
                     cf_days_until_80_percent = days_until_threshold rg used capacity (fl (80 / 100)),
                     cf_days_until_90_percent = days_until_threshold rg used capacity (fl (90 / 100)),
                     cf_days_until_full = days_until_threshold rg used capacity (fl (99 / 100)),
                     cf_growth_rate_bytes_per_day = growth_rate_per_day rg,
                     cf_confidence = confidence_of rg history \<rparr>)"

section \<open>Temperature\<close>

definition last_access :: "access_records \<Rightarrow> double" where
  "last_access records = Max (set (map ar_last_access_time (dict_values records)))"

definition classify_age :: "double \<Rightarrow> data_temperature" where
  "classify_age age =
     (if age \<le> of_int TEMP_HOT_THRESHOLD then HOT
      else if age \<le> of_int TEMP_WARM_THRESHOLD then WARM
      else if age \<le> of_int TEMP_COLD_THRESHOLD then COLD
      else FROZEN)"

definition get_data_temperature :: "double \<Rightarrow> string \<Rightarrow> int option \<Rightarrow> predictor \<Rightarrow> data_temperature" where
  "get_data_temperature now volume_id block_offset pd =
     (case dict_get (pd_access_records pd) volume_id of
        None \<Rightarrow> FROZEN
      | Some records \<Rightarrow>
          (case block_offset of
             Some off \<Rightarrow>
               (case dict_get records off of
                  None \<Rightarrow> FROZEN
                | Some r \<Rightarrow> classify_age (fsub now (ar_last_access_time r)))
           | None \<Rightarrow>
               if records = [] then FROZEN else classify_age (fsub now (last_access records))))"

section \<open>Drive health\<close>

definition end_of_life_days :: "flash_report \<Rightarrow> int option" where
  "end_of_life_days stats =
     (let avg_erase = br_avg_erase_count (fr_blocks stats); max_erase = br_max_erase_count (fr_blocks stats);
          gc = gr_stats (fr_garbage_collection stats)
      in if avg_erase > 0 \<and> max_erase < 100000 \<and> gs_gc_runs gc > 0 then
           let remaining_cycles = 100000 - max_erase;
               cycles_per_day = fdiv (of_int (gs_blocks_reclaimed gc)) (of_int (max 1 (gs_gc_runs gc)))
           in if cycles_per_day > 0 then Some (py_int (fdiv (float_of remaining_cycles) cycles_per_day)) else None
         else None)"

definition overall_score :: "flash_report \<Rightarrow> double" where
  "overall_score stats =
     (let blocks = fr_blocks stats;
          wear_level = fmul (fdiv (br_avg_erase_count blocks) 100000) 100;
          base_score = fsub 100 wear_level;
          bad_block_ratio = (if bs_total_blocks (br_stats blocks) > 0
                             then fdiv (of_int (bs_bad_blocks (br_stats blocks))) (of_int (bs_total_blocks (br_stats blocks)))
                             else 0);
          bad_block_penalty = fmul bad_block_ratio 20;
          variance_penalty = min 10 (fdiv (lr_wear_variance (fr_wear_leveling stats)) 1000)
      in max 0 (fsub (fsub base_score bad_block_penalty) variance_penalty))"

definition health_advice :: "double \<Rightarrow> double \<Rightarrow> string \<times> string list" where
  "health_advice score variance =
     (if score \<ge> 80 then (''healthy'', [])
      else if score \<ge> 50 then
        (''warning'', [''Consider planning for drive replacement within 6 months''] @
           (if variance > 1000 then [''High wear variance detected - review wear leveling''] else []))
      else (''critical'', [''URGENT: Plan immediate drive replacement'',
                           ''Consider migrating data to healthy drives'']))"

definition get_drive_health :: "controller \<Rightarrow> drive_health result" where
  "get_drive_health sc =
     (case flash_get_stats (sc_directflash sc) of
        Inl e \<Rightarrow> Inl e
      | Inr stats \<Rightarrow>
          let blocks = fr_blocks stats; bad_blocks = bs_bad_blocks (br_stats blocks); score = overall_score stats
          in case health_advice score (lr_wear_variance (fr_wear_leveling stats)) of
               (status, advice) \<Rightarrow>
                 Inr \<lparr> dh_overall_score = score,
                       dh_wear_level = fmul (fdiv (br_avg_erase_count blocks) 100000) 100,
                       dh_erase_count_avg = br_avg_erase_count blocks,
                       dh_erase_count_max = br_max_erase_count blocks, dh_bad_block_count = bad_blocks,
                       dh_predicted_end_of_life_days = end_of_life_days stats, dh_status = status,
                       dh_recommendations = advice
                         @ (if bad_blocks > 0 then [str_int bad_blocks @ '' bad blocks detected - monitor closely''] else [])
                         @ (if fr_utilization stats > fl (9 / 10)
                            then [''Storage utilization above 90% - consider expansion''] else []) \<rparr>)"

section \<open>Tiering\<close>

fun tier_for :: "data_temperature \<Rightarrow> tier_type" where
  "tier_for HOT = NVME"
| "tier_for WARM = SSD"
| "tier_for COLD = HDD"
| "tier_for FROZEN = ARCHIVE"

fun tier_cost :: "tier_type \<Rightarrow> double" where
  "tier_cost NVME = 1"
| "tier_cost SSD = fl (5 / 10)"
| "tier_cost HDD = fl (2 / 10)"
| "tier_cost ARCHIVE = fl (5 / 100)"

definition current_tier_of :: "predictor \<Rightarrow> string \<Rightarrow> tier_type" where
  "current_tier_of pd volume_id = (case dict_get (pd_volume_tiers pd) volume_id of None \<Rightarrow> NVME | Some t \<Rightarrow> t)"

definition estimated_savings :: "tier_type \<Rightarrow> tier_type \<Rightarrow> int \<Rightarrow> int" where
  "estimated_savings current recommended used_bytes =
     (if tier_cost recommended < tier_cost current
      then py_int (fmul (float_of used_bytes) (fsub 1 (fdiv (tier_cost recommended) (tier_cost current))))
      else 0)"

text \<open>The values of the tiers are compared as strings.\<close>

definition tiering_reason :: "data_temperature \<Rightarrow> tier_type \<Rightarrow> tier_type \<Rightarrow> string" where
  "tiering_reason temperature current recommended =
     ''Data is '' @ temperature_value temperature @
       (if tier_value recommended < tier_value current
        then '' - move to faster tier for better performance''
        else '' - move to cheaper tier to reduce costs'')"

definition access_summary :: "predictor \<Rightarrow> string \<Rightarrow> double \<times> int" where
  "access_summary pd volume_id =
     (case dict_get (pd_access_records pd) volume_id of
        None \<Rightarrow> (0, 0)
      | Some records \<Rightarrow>
          if records = [] then (0, 0) else (last_access records, sum_vals ar_access_count records))"

definition recommend :: "(string \<Rightarrow> double) \<Rightarrow> double \<Rightarrow> predictor \<Rightarrow> volume \<Rightarrow> tiering_recommendation option" where
  "recommend clock now pd v =
     (let temperature = get_data_temperature (clock (v_id v)) (v_id v) None pd;
          current = current_tier_of pd (v_id v); recommended = tier_for temperature
      in case access_summary pd (v_id v) of
           (latest, accesses) \<Rightarrow>
             if recommended = current then None
             else Some \<lparr> tr_volume_id = v_id v, tr_volume_name = v_name v, tr_current_tier = current,
                         tr_recommended_tier = recommended, tr_temperature = temperature,
                         tr_last_access_seconds = (if latest > 0 then Some (fsub now latest) else None),
                         tr_access_count = accesses,
                         tr_estimated_savings_bytes = estimated_savings current recommended (v_used_bytes v),
                         tr_reason = tiering_reason temperature current recommended \<rparr>)"

definition get_tiering_recommendations ::
    "(string \<Rightarrow> double) \<Rightarrow> double \<Rightarrow> controller \<Rightarrow> predictor \<Rightarrow> tiering_recommendation list" where
  "get_tiering_recommendations clock now sc pd = List.map_filter (recommend clock now pd) (sc_list_volumes sc)"

definition set_volume_tier :: "string \<Rightarrow> tier_type \<Rightarrow> predictor \<Rightarrow> predictor" where
  "set_volume_tier volume_id tier pd = pd\<lparr>pd_volume_tiers := dict_set volume_id tier (pd_volume_tiers pd)\<rparr>"

section \<open>Reports\<close>

record volume_analytics =
  va_volume_id :: string
  va_volume_name :: string
  va_size_bytes :: int
  va_used_bytes :: int
  va_temperature :: string
  va_current_tier :: string
  va_total_accesses :: int
  va_total_bytes_accessed :: int
  va_hot_blocks :: int

text \<open>\<open>None\<close> is the answer \<^verbatim>\<open>{"error": "Volume not found"}\<close>.\<close>

definition get_volume_analytics ::
    "double \<Rightarrow> (int \<Rightarrow> double) \<Rightarrow> string \<Rightarrow> controller \<Rightarrow> predictor \<Rightarrow> volume_analytics option" where
  "get_volume_analytics now clock volume_id sc pd =
     (case sc_get_volume sc volume_id of
        None \<Rightarrow> None
      | Some v \<Rightarrow>
          let records = (case dict_get (pd_access_records pd) volume_id of None \<Rightarrow> [] | Some rs \<Rightarrow> rs)
          in Some \<lparr> va_volume_id = volume_id, va_volume_name = v_name v, va_size_bytes = v_size_bytes v,
                    va_used_bytes = v_used_bytes v,
                    va_temperature = temperature_value (get_data_temperature now volume_id None pd),
                    va_current_tier = tier_value (current_tier_of pd volume_id),
                    va_total_accesses = sum_vals ar_access_count records,
                    va_total_bytes_accessed = sum_vals ar_total_bytes_accessed records,
                    va_hot_blocks = int (length (filter
                      (\<lambda>(off, r). fsub (clock off) (ar_last_access_time r) \<le> of_int TEMP_HOT_THRESHOLD) records)) \<rparr>)"

record predictor_report =
  pt_capacity_samples :: nat
  pt_tracked_volumes :: nat
  pt_tracked_blocks :: int
  pt_sample_interval_seconds :: int
  pt_max_history_points :: int

definition pd_get_stats :: "predictor \<Rightarrow> predictor_report" where
  "pd_get_stats pd =
     \<lparr> pt_capacity_samples = length (pd_capacity_history pd),
       pt_tracked_volumes = length (pd_access_records pd),
       pt_tracked_blocks = sum_vals (\<lambda>blocks. int (length blocks)) (pd_access_records pd),
       pt_sample_interval_seconds = pd_sample_interval pd, pt_max_history_points = pd_max_history_points pd \<rparr>"

section \<open>Forecasts\<close>

lemma fl_neg: "x < 0 \<Longrightarrow> fl x < 0"
proof -
  assume "x < 0"
  then have "2 powi exp2_of (- x) \<le> - fl x" using fl_binade(1)[of "- x"] by simp
  moreover have "0 < (2::rat) powi exp2_of (- x)" by simp
  ultimately show ?thesis by linarith
qed

lemma slope_nonneg: "0 \<le> growth_rate_per_day rg \<Longrightarrow> 0 \<le> rg_slope rg"
  using fl_neg[of "rg_slope rg * 86400"] by (auto simp: growth_rate_per_day_def fmul_def not_le[symmetric])

lemma predict_bounds:
  assumes "used \<le> capacity"
  shows "used \<le> predict rg now used capacity d \<and> predict rg now used capacity d \<le> capacity"
  using assms by (simp add: predict_def Let_def)

lemma predict_mono:
  assumes "0 \<le> rg_slope rg" and "d \<le> d'"
  shows "predict rg now used capacity d \<le> predict rg now used capacity d'"
proof -
  have "float_of (d * 86400) \<le> float_of (d' * 86400)"
    using assms(2) unfolding float_of_def by (intro fl_mono) simp
  then have "fadd (rg_intercept rg) (fmul (rg_slope rg) (fadd now (float_of (d * 86400))))
      \<le> fadd (rg_intercept rg) (fmul (rg_slope rg) (fadd now (float_of (d' * 86400))))"
    by (intro fadd_mono fmul_mono assms(1) order_refl)
  from py_int_mono[OF this] show ?thesis by (auto simp: predict_def Let_def)
qed

definition days_ordered :: "int option \<Rightarrow> int option \<Rightarrow> bool" where
  "days_ordered a b \<longleftrightarrow> (case (a, b) of (None, None) \<Rightarrow> True | (Some x, Some y) \<Rightarrow> 0 \<le> x \<and> x \<le> y | _ \<Rightarrow> False)"

lemma days_mono:
  assumes "0 \<le> capacity" and "ratio \<le> ratio'"
  shows "days_ordered (days_until_threshold rg used capacity ratio) (days_until_threshold rg used capacity ratio')"
proof (cases "rg_slope rg \<le> 0")
  case False
  let ?t = "py_int (fmul (float_of capacity) ratio)" and ?t' = "py_int (fmul (float_of capacity) ratio')"
  have "0 \<le> float_of capacity" using assms(1) by (simp add: float_of_def fl_nonneg)
  then have t: "?t \<le> ?t'" by (intro py_int_mono fmul_mono assms(2))
  let ?g = "max (growth_rate_per_day rg) 1"
  have "fdiv (float_of (?t - used)) ?g \<le> fdiv (float_of (?t' - used)) ?g"
    using t unfolding float_of_def by (intro fdiv_mono fl_mono) auto
  from py_int_mono[OF this] show ?thesis
    using False t by (auto simp: days_until_threshold_def Let_def days_ordered_def)
qed (simp add: days_until_threshold_def days_ordered_def)

lemma flash_stats_used:
  assumes "fs_inv fs" and "0 \<le> bm_block_size (fs_bm fs)" and "flash_get_stats fs = Inr stats"
  shows "fr_used_bytes stats \<le> fr_total_capacity_bytes stats" and "0 \<le> fr_total_capacity_bytes stats"
proof -
  obtain blocks where b: "bm_get_stats (fs_bm fs) = Inr blocks"
    using assms(3) by (cases "bm_get_stats (fs_bm fs)") (simp_all add: flash_get_stats_def)
  have c: "flash_get_capacity fs = Inr (bs_total_blocks (br_stats blocks) * bm_block_size (fs_bm fs),
      bs_free_blocks (br_stats blocks) * bm_block_size (fs_bm fs))"
    by (simp add: flash_get_capacity_def b)
  have st: "br_stats blocks = bm_stats (fs_bm fs)"
    using b by (auto simp: bm_get_stats_def Let_def split: if_splits)
  have "0 \<le> bs_free_blocks (bm_stats (fs_bm fs))" "0 \<le> bs_total_blocks (bm_stats (fs_bm fs))"
    using assms(1) by (auto simp: fs_inv_def bm_ok_def bm_counts_def Let_def intro!: sum_vals_nonneg)
  then show "fr_used_bytes stats \<le> fr_total_capacity_bytes stats" and "0 \<le> fr_total_capacity_bytes stats"
    using assms(2,3) b c st by (auto simp: flash_get_stats_def split: sum.splits)
qed

section \<open>Recommendations\<close>

lemma tier_cost_bounds: "0 < tier_cost t" "tier_cost t \<le> 1"
proof -
  have "0 < fl x" if "0 < x" for x using fl_neg[of "- x"] that by simp
  then show "0 < tier_cost t" by (cases t) simp_all
  show "tier_cost t \<le> 1"
    using fl_mono[of "5 / 10" 1] fl_mono[of "2 / 10" 1] fl_mono[of "5 / 100" 1] by (cases t) simp_all
qed

lemma savings_bounds:
  assumes "0 \<le> used" and "used \<le> 2 ^ 53"
  shows "0 \<le> estimated_savings current recommended used \<and> estimated_savings current recommended used \<le> used"
proof (cases "tier_cost recommended < tier_cost current")
  case True
  let ?q = "fdiv (tier_cost recommended) (tier_cost current)"
  have q: "0 \<le> ?q" "?q \<le> 1"
    using True tier_cost_bounds(1)[of recommended] tier_cost_bounds(1)[of current]
    by (auto intro: fdiv_nonneg fdiv_le_1)
  have r: "0 \<le> fsub 1 ?q" "fsub 1 ?q \<le> 1"
    using q fl_mono[of "1 - ?q" 1] by (simp_all add: fsub_def fl_nonneg)
  have u: "float_of used = of_int used" unfolding float_of_def using assms by (intro fl_of_int) simp
  have "fmul (of_int used) (fsub 1 ?q) \<le> fmul (of_int used) 1"
    using assms(1) r by (intro fmul_mono) simp_all
  also have "\<dots> = of_int used" using u by (simp add: fmul_def float_of_def)
  finally have "py_int (fmul (of_int used) (fsub 1 ?q)) \<le> used"
    using py_int_mono by fastforce
  moreover have "0 \<le> fmul (of_int used) (fsub 1 ?q)" using assms(1) r(1) by (simp add: fmul_def fl_nonneg)
  ultimately show ?thesis using True u by (simp add: estimated_savings_def py_int_nonneg)
qed (use assms in \<open>simp add: estimated_savings_def\<close>)

lemma archive_least: "t \<noteq> ARCHIVE \<Longrightarrow> tier_value ARCHIVE < tier_value t"
  by (cases t) (simp_all add: less_char_def)

lemma recommend_Some:
  assumes "recommend clock now pd v = Some r"
  shows "tr_volume_id r = v_id v" "tr_current_tier r = current_tier_of pd (v_id v)"
    "tr_temperature r = get_data_temperature (clock (v_id v)) (v_id v) None pd"
    "tr_recommended_tier r = tier_for (tr_temperature r)" "tr_recommended_tier r \<noteq> tr_current_tier r"
    "tr_estimated_savings_bytes r = estimated_savings (tr_current_tier r) (tr_recommended_tier r) (v_used_bytes v)"
    "tr_reason r = tiering_reason (tr_temperature r) (tr_current_tier r) (tr_recommended_tier r)"
  using assms by (auto simp: recommend_def Let_def split: prod.splits if_splits)

lemma recommend_iff:
  "recommend clock now pd v \<noteq> None \<longleftrightarrow>
     tier_for (get_data_temperature (clock (v_id v)) (v_id v) None pd) \<noteq> current_tier_of pd (v_id v)"
  by (simp add: recommend_def Let_def split_beta)

lemma recommendation_ids:
  "map tr_volume_id (List.map_filter (recommend clock now pd) vs)
   = map v_id (filter (\<lambda>v. tier_for (get_data_temperature (clock (v_id v)) (v_id v) None pd)
       \<noteq> current_tier_of pd (v_id v)) vs)"
proof (induction vs)
  case (Cons v vs)
  show ?case
    using Cons recommend_iff[of clock now pd v] recommend_Some(1)[of clock now pd v]
    by (cases "recommend clock now pd v") (auto simp: map_filter_simps)
qed (simp add: map_filter_simps)

section \<open>Properties\<close>

text \<open>
  C29. Forecasts are sane, with every rounding of the regression. For a flash after any history of operations
  and any samples: the three predictions lie between what is used now and the capacity; when the growth is not negative they
  increase with the horizon; the days until 80, 90 and 99 percent are all absent, or not negative and
  in this order; and the confidence is between 0 and 1.
\<close>

theorem capacity_forecast_sane:
  assumes "fs_inv (sc_directflash sc)" and "0 \<le> bm_block_size (fs_bm (sc_directflash sc))"
    and "get_capacity_forecast now sc pd = Inr f"
  shows "(\<forall>p \<in> {cf_predicted_used_bytes_7d f, cf_predicted_used_bytes_30d f, cf_predicted_used_bytes_90d f}.
      cf_current_used_bytes f \<le> p \<and> p \<le> cf_current_total_bytes f) \<and>
    (0 \<le> cf_growth_rate_bytes_per_day f \<longrightarrow>
      cf_predicted_used_bytes_7d f \<le> cf_predicted_used_bytes_30d f \<and>
      cf_predicted_used_bytes_30d f \<le> cf_predicted_used_bytes_90d f) \<and>
    days_ordered (cf_days_until_80_percent f) (cf_days_until_90_percent f) \<and>
    days_ordered (cf_days_until_90_percent f) (cf_days_until_full f) \<and>
    0 \<le> cf_confidence f \<and> cf_confidence f \<le> 1"
proof -
  obtain stats where st: "flash_get_stats (sc_directflash sc) = Inr stats"
    using assms(3) by (cases "flash_get_stats (sc_directflash sc)") (simp_all add: get_capacity_forecast_def)
  note cap = flash_stats_used[OF assms(1,2) st]
  let ?rg = "linear_regression (pd_capacity_history pd)"
  have r: "fl (80 / 100) \<le> fl (90 / 100)" "fl (90 / 100) \<le> fl (99 / 100)" by (rule fl_mono, simp)+
  show ?thesis
  proof (cases "length (pd_capacity_history pd) < 2")
    case True
    then show ?thesis
      using assms(3) st cap by (auto simp: get_capacity_forecast_def Let_def days_ordered_def)
  next
    case False
    then have f: "f = \<lparr> cf_current_used_bytes = fr_used_bytes stats, cf_current_total_bytes = fr_total_capacity_bytes stats,
        cf_current_utilization = fr_utilization stats,
        cf_predicted_used_bytes_7d = predict ?rg now (fr_used_bytes stats) (fr_total_capacity_bytes stats) 7,
        cf_predicted_used_bytes_30d = predict ?rg now (fr_used_bytes stats) (fr_total_capacity_bytes stats) 30,
        cf_predicted_used_bytes_90d = predict ?rg now (fr_used_bytes stats) (fr_total_capacity_bytes stats) 90,
        cf_days_until_80_percent = days_until_threshold ?rg (fr_used_bytes stats) (fr_total_capacity_bytes stats) (fl (80 / 100)),
        cf_days_until_90_percent = days_until_threshold ?rg (fr_used_bytes stats) (fr_total_capacity_bytes stats) (fl (90 / 100)),
        cf_days_until_full = days_until_threshold ?rg (fr_used_bytes stats) (fr_total_capacity_bytes stats) (fl (99 / 100)),
        cf_growth_rate_bytes_per_day = growth_rate_per_day ?rg,
        cf_confidence = confidence_of ?rg (pd_capacity_history pd) \<rparr>"
      using assms(3) st by (simp add: get_capacity_forecast_def Let_def)
    have "0 \<le> confidence_of ?rg (pd_capacity_history pd) \<and> confidence_of ?rg (pd_capacity_history pd) \<le> 1"
      by (simp add: confidence_of_def Let_def)
    then show ?thesis
      using predict_bounds[OF cap(1)] predict_mono[OF slope_nonneg] days_mono[OF cap(2) r(1)] days_mono[OF cap(2) r(2)]
      unfolding f by simp
  qed
qed

text \<open>A controller over a fresh flash of two blocks, and two samples.\<close>

lemma demo_flash_stats:
  assumes "DirectFlashSimulator demo_flash = Inr fs"
  shows "\<exists>stats. flash_get_stats fs = Inr stats"
  using assms
  by (auto simp: DirectFlashSimulator_def BlockManager_def demo_flash_def default_settings_def flash_get_stats_def
      flash_get_capacity_def flash_get_health_def gc_get_stats_def gc_get_utilization_def bm_get_stats_def
      PhysicalBlock_def DEFAULT_MAX_ERASE_COUNT_def Let_def upto_rec1)

theorem capacity_forecast_sane_witness:
  "\<exists>sc f. get_capacity_forecast 200 sc (StoragePredictor\<lparr>pd_capacity_history := [(0, 10), (100, 20)]\<rparr>) = Inr f \<and>
     0 \<le> cf_confidence f \<and> cf_confidence f \<le> 1"
proof -
  let ?pd = "StoragePredictor\<lparr>pd_capacity_history := [(0, 10), (100, 20)]\<rparr>"
  obtain sc0 where "StorageController default_settings = Inr sc0" using demo_controller by (elim exE)
  obtain fs where fs: "DirectFlashSimulator demo_flash = Inr fs" using demo_flash_init by (elim exE)
  let ?sc = "sc0\<lparr>sc_directflash := fs\<rparr>"
  have flash: "sc_directflash ?sc = fs" by simp
  obtain stats where st: "flash_get_stats fs = Inr stats" using demo_flash_stats[OF fs] by (elim exE)
  obtain f where f: "get_capacity_forecast 200 ?sc ?pd = Inr f"
    unfolding get_capacity_forecast_def flash st by (simp add: Let_def split: if_splits)
  have inv: "fs_inv (sc_directflash ?sc)" unfolding flash by (rule fs_inv_init(1)[OF fs demo_flash_blocks])
  have bs: "0 \<le> bm_block_size (fs_bm (sc_directflash ?sc))"
    using fs by (auto simp: DirectFlashSimulator_def BlockManager_def demo_flash_def default_settings_def split: sum.splits if_splits)
  show ?thesis using capacity_forecast_sane [OF inv bs f] f by blast
qed

text \<open>
  C30. Tiering recommendations: there is one for exactly the volumes whose temperature calls for another tier than
  they are on; it names that tier, and the estimated saving is between 0 and the bytes used (up to
  2^53 of them). The stated reason is not reliable: the tiers are compared by the spelling of their names, in
  which archive comes first, so a volume of frozen data is told to move to the archive because that is
  the faster tier.
\<close>

theorem tiering_recommendations_correct:
  assumes "recs = get_tiering_recommendations clock now sc pd"
    and "\<forall>v \<in> set (sc_list_volumes sc). 0 \<le> v_used_bytes v \<and> v_used_bytes v \<le> 2 ^ 53"
  shows "map tr_volume_id recs = map v_id (filter (\<lambda>v. tier_for (get_data_temperature (clock (v_id v)) (v_id v) None pd)
      \<noteq> current_tier_of pd (v_id v)) (sc_list_volumes sc)) \<and>
    (\<forall>r \<in> set recs. tr_recommended_tier r = tier_for (tr_temperature r) \<and>
      (\<exists>v \<in> set (sc_list_volumes sc). tr_volume_id r = v_id v \<and> 0 \<le> tr_estimated_savings_bytes r \<and>
         tr_estimated_savings_bytes r \<le> v_used_bytes v) \<and>
      (tr_temperature r = FROZEN \<longrightarrow>
         tr_reason r = ''Data is frozen - move to faster tier for better performance''))"
proof -
  have "tr_recommended_tier r = tier_for (tr_temperature r) \<and>
      (\<exists>v \<in> set (sc_list_volumes sc). tr_volume_id r = v_id v \<and> 0 \<le> tr_estimated_savings_bytes r \<and>
         tr_estimated_savings_bytes r \<le> v_used_bytes v) \<and>
      (tr_temperature r = FROZEN \<longrightarrow> tr_reason r = ''Data is frozen - move to faster tier for better performance'')"
    if r: "r \<in> set recs" for r
  proof -
    obtain v where v: "v \<in> set (sc_list_volumes sc)" "recommend clock now pd v = Some r"
      using r assms(1) by (auto simp: get_tiering_recommendations_def List.map_filter_def)
    note s = recommend_Some[OF v(2)]
    have "0 \<le> tr_estimated_savings_bytes r \<and> tr_estimated_savings_bytes r \<le> v_used_bytes v"
      unfolding s(6) using assms(2) v(1) by (intro savings_bounds) blast+
    moreover have "tr_reason r = ''Data is frozen - move to faster tier for better performance''"
      if "tr_temperature r = FROZEN"
      using s(4,5,7) that archive_least[of "tr_current_tier r"] by (simp add: tiering_reason_def)
    ultimately show ?thesis using s(1,4) v(1) by blast
  qed
  then show ?thesis using recommendation_ids assms(1) by (simp add: get_tiering_recommendations_def)
qed

theorem tiering_recommendations_correct_witness:
  "\<exists>sc0. StorageController default_settings = Inr sc0 \<and>
     map tr_reason (get_tiering_recommendations (\<lambda>_. 0) 0 (snd (sc_create_volume ''v'' 0 ''vol'' 1 [] None sc0)) StoragePredictor)
     = [''Data is frozen - move to faster tier for better performance'']"
proof -
  obtain sc0 where sc0: "StorageController default_settings = Inr sc0" using demo_controller by (elim exE)
  let ?sc = "snd (sc_create_volume ''v'' 0 ''vol'' 1 [] None sc0)"
  let ?recs = "get_tiering_recommendations (\<lambda>_. 0) 0 ?sc StoragePredictor"
  have frozen: "get_data_temperature t vid None StoragePredictor = FROZEN" "current_tier_of StoragePredictor vid = NVME" for t vid
    by (simp_all add: get_data_temperature_def current_tier_of_def StoragePredictor_def)
  obtain v where v: "sc_list_volumes ?sc = [v]" "v_used_bytes v = 0"
    using sc0
    by (auto simp: StorageController_def sc_list_volumes_def vm_list_volumes_def sc_create_volume_def vm_create_volume_def
        put_volume_def VolumeManager_def Let_def split: sum.splits)
  have u: "\<forall>v \<in> set (sc_list_volumes ?sc). 0 \<le> v_used_bytes v \<and> v_used_bytes v \<le> 2 ^ 53" unfolding v(1) using v(2) by simp
  note T = tiering_recommendations_correct [OF refl u, of "\<lambda>_. 0" 0 StoragePredictor]
  have "map tr_volume_id ?recs = [v_id v]" using T unfolding v(1) by (simp add: frozen)
  then obtain r where r: "?recs = [r]" by (cases ?recs) auto
  have "tr_temperature r = FROZEN"
    using r recommend_Some(3)[of "\<lambda>_. 0" 0 StoragePredictor v r] unfolding get_tiering_recommendations_def v(1)
    by (cases "recommend (\<lambda>_. 0) 0 StoragePredictor v") (simp_all add: map_filter_simps frozen)
  then have "map tr_reason ?recs = [''Data is frozen - move to faster tier for better performance'']"
    using T unfolding r by simp
  with sc0 show ?thesis by (intro exI conjI)
qed

end
