(* ===== verification/Analytics_Api.thy ===== *)
theory Analytics_Api
  imports Api Predictor
begin

text \<open>
  \<^verbatim>\<open>api/routes/analytics.py\<close>: the handlers of the predictive analytics, over the controller and the predictor that
  is made on its first use. The predictor refers to the controller, so the model keeps the two side by side.
\<close>

section \<open>Rounding to decimals\<close>

text \<open>
  \<^verbatim>\<open>round(x, n)\<close> on floats: the exact value is rounded to \<open>n\<close> decimals, ties to the even digit, and the result
  is the nearest double.
\<close>

definition py_round :: "double \<Rightarrow> nat \<Rightarrow> double" where
  "py_round x n = fl (of_int (round_even (x * 10 ^ n)) / 10 ^ n)"

lemma py_round_mono: "x \<le> y \<Longrightarrow> py_round x n \<le> py_round y n"
  unfolding py_round_def by (intro fl_mono divide_right_mono) (simp_all add: round_even_mono mult_right_mono)

lemma py_round_of_int: "\<bar>m\<bar> \<le> 2 ^ 53 \<Longrightarrow> py_round (of_int m) n = of_int m"
proof -
  assume m: "\<bar>m\<bar> \<le> 2 ^ 53"
  have "round_even (of_int m * 10 ^ n) = m * 10 ^ n"
    using round_even_of_int[of "m * 10 ^ n"] by simp
  then show ?thesis using fl_of_int[OF m] by (simp add: py_round_def)
qed

section \<open>The predictor behind its singleton\<close>

type_synonym analytics_state = "controller option \<times> predictor option"

text \<open>
  \<^verbatim>\<open>get_predictor\<close>. A predictor keeps the controller it was made with, which is the controller of the process and lives in the
  first component: once there is a predictor \<^verbatim>\<open>get_controller\<close> returns that one and changes nothing (\<open>get_predictor_again\<close>).
\<close>

definition get_predictor :: "settings \<Rightarrow> analytics_state \<Rightarrow> (analytics_state, controller \<times> predictor) outcome" where
  "get_predictor cfg = (\<lambda>(g, p).
     case get_controller cfg g of
       (Inl e, g) \<Rightarrow> (Inl e, g, p)
     | (Inr sc, g) \<Rightarrow>
         (case p of
            Some pd \<Rightarrow> (Inr (sc, pd), g, p)
          | None \<Rightarrow> (Inr (sc, StoragePredictor), g, Some StoragePredictor)))"

text \<open>A handler that starts with \<^verbatim>\<open>predictor = await get_predictor()\<close>.\<close>

definition with_predictor ::
    "settings \<Rightarrow> (controller \<Rightarrow> predictor \<Rightarrow> 'a response \<times> predictor) \<Rightarrow> (analytics_state, 'a) handler" where
  "with_predictor cfg handle s =
     (case get_predictor cfg s of
        (Inl e, s) \<Rightarrow> (Raised e, s)
      | (Inr (sc, pd), g, p) \<Rightarrow> (case handle sc pd of (r, pd) \<Rightarrow> (r, g, Some pd)))"

section \<open>Handlers\<close>

record analytics_overview =
  ao_status :: string
  ao_predictor_stats :: predictor_report

definition get_analytics_overview :: "settings \<Rightarrow> (analytics_state, analytics_overview) handler" where
  "get_analytics_overview cfg = with_predictor cfg (\<lambda>sc pd.
     (Reply HTTP_200_OK \<lparr> ao_status = ''active'', ao_predictor_stats = pd_get_stats pd \<rparr>, pd))"

record prediction =
  px_used_bytes :: int
  px_utilization_percent :: double

record forecast_response =
  fo_used_bytes :: int
  fo_total_bytes :: int
  fo_utilization_percent :: double
  fo_7_days :: prediction
  fo_30_days :: prediction
  fo_90_days :: prediction
  fo_days_until_80_percent :: "int option"
  fo_days_until_90_percent :: "int option"
  fo_days_until_full :: "int option"
  fo_bytes_per_day :: double
  fo_gb_per_day :: double
  fo_confidence :: double

definition prediction_of :: "int \<Rightarrow> int \<Rightarrow> prediction" where
  "prediction_of used capacity =
     \<lparr> px_used_bytes = used,
       px_utilization_percent = py_round (fmul (fdiv (of_int used) (of_int capacity)) 100) 2 \<rparr>"

text \<open>The divisions by the total capacity raise when it is zero.\<close>

definition forecast_to_response :: "capacity_forecast \<Rightarrow> forecast_response result" where
  "forecast_to_response forecast =
     (let capacity = cf_current_total_bytes forecast
      in if capacity = 0 then Inl ZeroDivisionError
         else Inr \<lparr> fo_used_bytes = cf_current_used_bytes forecast, fo_total_bytes = capacity,
                    fo_utilization_percent = py_round (fmul (cf_current_utilization forecast) 100) 2,
                    fo_7_days = prediction_of (cf_predicted_used_bytes_7d forecast) capacity,
                    fo_30_days = prediction_of (cf_predicted_used_bytes_30d forecast) capacity,
                    fo_90_days = prediction_of (cf_predicted_used_bytes_90d forecast) capacity,
                    fo_days_until_80_percent = cf_days_until_80_percent forecast,
                    fo_days_until_90_percent = cf_days_until_90_percent forecast,
                    fo_days_until_full = cf_days_until_full forecast,
                    fo_bytes_per_day = cf_growth_rate_bytes_per_day forecast,
                    fo_gb_per_day = py_round (fdiv (cf_growth_rate_bytes_per_day forecast) (1024 ^ 3)) 4,
                    fo_confidence = py_round (cf_confidence forecast) 3 \<rparr>)"

definition forecast_route :: "settings \<Rightarrow> double \<Rightarrow> (analytics_state, forecast_response) handler" where
  "forecast_route cfg now = with_predictor cfg (\<lambda>sc pd.
     case get_capacity_forecast now sc pd of
       Inl e \<Rightarrow> (Raised e, pd)
     | Inr forecast \<Rightarrow>
         (case forecast_to_response forecast of
            Inl e \<Rightarrow> (Raised e, pd)
          | Inr body \<Rightarrow> (Reply HTTP_200_OK body, pd)))"

text \<open>The answer \<^verbatim>\<open>{"status": "recorded"}\<close>.\<close>

definition sample_route :: "settings \<Rightarrow> double \<Rightarrow> (analytics_state, string) handler" where
  "sample_route cfg now = with_predictor cfg (\<lambda>sc pd.
     case record_capacity_sample now sc pd of
       (Inl e, pd) \<Rightarrow> (Raised e, pd)
     | (Inr _, pd) \<Rightarrow> (Reply HTTP_200_OK ''recorded'', pd))"

record health_response =
  hp_overall_score :: double
  hp_status :: string
  hp_wear_level_percent :: double
  hp_erase_count_avg :: double
  hp_erase_count_max :: int
  hp_bad_block_count :: int
  hp_end_of_life_days :: "int option"
  hp_recommendations :: "string list"

definition health_to_response :: "drive_health \<Rightarrow> health_response" where
  "health_to_response health =
     \<lparr> hp_overall_score = py_round (dh_overall_score health) 2, hp_status = dh_status health,
       hp_wear_level_percent = py_round (dh_wear_level health) 2,
       hp_erase_count_avg = py_round (dh_erase_count_avg health) 2, hp_erase_count_max = dh_erase_count_max health,
       hp_bad_block_count = dh_bad_block_count health, hp_end_of_life_days = dh_predicted_end_of_life_days health,
       hp_recommendations = dh_recommendations health \<rparr>"

definition health_route :: "settings \<Rightarrow> (analytics_state, health_response) handler" where
  "health_route cfg = with_predictor cfg (\<lambda>sc pd.
     case get_drive_health sc of
       Inl e \<Rightarrow> (Raised e, pd)
     | Inr health \<Rightarrow> (Reply HTTP_200_OK (health_to_response health), pd))"

record recommendation_response =
  tx_volume_id :: string
  tx_volume_name :: string
  tx_current_tier :: string
  tx_recommended_tier :: string
  tx_temperature :: string
  tx_last_access_seconds :: "double option"
  tx_access_count :: int
  tx_estimated_savings_bytes :: int
  tx_reason :: string

definition recommendation_to_response :: "tiering_recommendation \<Rightarrow> recommendation_response" where
  "recommendation_to_response r =
     \<lparr> tx_volume_id = tr_volume_id r, tx_volume_name = tr_volume_name r,
       tx_current_tier = tier_value (tr_current_tier r), tx_recommended_tier = tier_value (tr_recommended_tier r),
       tx_temperature = temperature_value (tr_temperature r), tx_last_access_seconds = tr_last_access_seconds r,
       tx_access_count = tr_access_count r, tx_estimated_savings_bytes = tr_estimated_savings_bytes r,
       tx_reason = tr_reason r \<rparr>"

record tiering_response =
  tg_count :: nat
  tg_recommendations :: "recommendation_response list"

definition tiering_route ::
    "settings \<Rightarrow> (string \<Rightarrow> double) \<Rightarrow> double \<Rightarrow> (analytics_state, tiering_response) handler" where
  "tiering_route cfg clock now = with_predictor cfg (\<lambda>sc pd.
     let recommendations = get_tiering_recommendations clock now sc pd
     in (Reply HTTP_200_OK \<lparr> tg_count = length recommendations,
           tg_recommendations = map recommendation_to_response recommendations \<rparr>, pd))"

record temperature_response =
  tp_volume_id :: string
  tp_temperature :: string
  tp_hot_seconds :: int
  tp_warm_seconds :: int
  tp_cold_seconds :: int

definition get_volume_temperature ::
    "settings \<Rightarrow> double \<Rightarrow> string \<Rightarrow> (analytics_state, temperature_response) handler" where
  "get_volume_temperature cfg now vid = with_predictor cfg (\<lambda>sc pd.
     (Reply HTTP_200_OK \<lparr> tp_volume_id = vid, tp_temperature = temperature_value (get_data_temperature now vid None pd),
        tp_hot_seconds = TEMP_HOT_THRESHOLD, tp_warm_seconds = TEMP_WARM_THRESHOLD,
        tp_cold_seconds = TEMP_COLD_THRESHOLD \<rparr>, pd))"

definition volume_analytics_route ::
    "settings \<Rightarrow> double \<Rightarrow> (int \<Rightarrow> double) \<Rightarrow> string \<Rightarrow> (analytics_state, volume_analytics) handler" where
  "volume_analytics_route cfg now clock vid = with_predictor cfg (\<lambda>sc pd.
     case get_volume_analytics now clock vid sc pd of
       None \<Rightarrow> (HTTPException HTTP_404_NOT_FOUND ''Volume not found'', pd)
     | Some analytics \<Rightarrow> (Reply HTTP_200_OK analytics, pd))"

text \<open>\<^verbatim>\<open>TierType(tier.lower())\<close>; \<^verbatim>\<open>str.lower\<close> on ASCII letters. Lowering another letter never gives the letters of a tier's name.\<close>

definition lower_char :: "char \<Rightarrow> char" where
  "lower_char ch = (let n = of_char ch :: nat in if 65 \<le> n \<and> n \<le> 90 then char_of (n + 32) else ch)"

definition TierType :: "string \<Rightarrow> tier_type option" where
  "TierType v = List.find (\<lambda>t. tier_value t = v) [NVME, SSD, HDD, ARCHIVE]"

record tier_response =
  ti_volume_id :: string
  ti_tier :: string
  ti_status :: string

definition set_tier_route :: "settings \<Rightarrow> string \<Rightarrow> string \<Rightarrow> (analytics_state, tier_response) handler" where
  "set_tier_route cfg vid tier s =
     (case TierType (map lower_char tier) of
        None \<Rightarrow>
          (HTTPException HTTP_400_BAD_REQUEST
             ''Invalid tier. Valid options: ['nvme', 'ssd', 'hdd', 'archive']'', s)
      | Some tier_type \<Rightarrow>
          with_predictor cfg (\<lambda>sc pd.
            case sc_get_volume sc vid of
              None \<Rightarrow> (HTTPException HTTP_404_NOT_FOUND ''Volume not found'', pd)
            | Some v \<Rightarrow>
                (Reply HTTP_200_OK \<lparr> ti_volume_id = vid, ti_tier = tier_value tier_type, ti_status = ''updated'' \<rparr>,
                 Predictor.set_volume_tier vid tier_type pd)) s)"

definition record_access_route ::
    "settings \<Rightarrow> double \<Rightarrow> string \<Rightarrow> int \<Rightarrow> int \<Rightarrow> (analytics_state, string) handler" where
  "record_access_route cfg now vid block_offset sz = with_predictor cfg (\<lambda>sc pd.
     (Reply HTTP_200_OK ''recorded'', record_access now vid block_offset sz pd))"

section \<open>Tiers\<close>

lemma TierType_value [simp]: "TierType (tier_value t) = Some t"
  by (cases t) (simp_all add: TierType_def)

lemma TierType_Some: "TierType v = Some t \<longleftrightarrow> v = tier_value t"
  by (cases t) (auto simp: TierType_def)

lemma get_predictor_again: "get_predictor cfg (Some sc, Some pd) = (Inr (sc, pd), Some sc, Some pd)"
  by (simp add: get_predictor_def get_controller_def)

lemma get_predictor_run:
  assumes "get_controller cfg g = (Inr sc, g')"
  shows "get_predictor cfg (g, p) = (Inr (sc, case p of None \<Rightarrow> StoragePredictor | Some pd \<Rightarrow> pd), g',
    Some (case p of None \<Rightarrow> StoragePredictor | Some pd \<Rightarrow> pd))"
  using assms by (simp add: get_predictor_def split: option.splits)

text \<open>The tier the predictor of a state has for a volume.\<close>

definition tier_in :: "analytics_state \<Rightarrow> string \<Rightarrow> tier_type" where
  "tier_in s vid = current_tier_of (case snd s of None \<Rightarrow> StoragePredictor | Some pd \<Rightarrow> pd) vid"

lemma tier_in_simps [simp]: "tier_in (g, Some pd) vid = current_tier_of pd vid"
  by (simp add: tier_in_def)

text \<open>
  C31. Assigning a tier through the API. A name that is not a tier in any spelling of its letters is refused with 400 and
  nothing changes; an unknown volume is refused with 404 and no assignment changes; otherwise the volume and no
  other has the tier from then on, the analytics of the volume report it, and it is recommended to move exactly when
  its temperature calls for another tier.
\<close>

theorem set_tier_served:
  assumes "get_controller cfg g = (Inr sc, g')" and "set_tier_route cfg vid tier (g, p) = (r, s)"
    and "volume_analytics_route cfg now clock vid s = (a, s')"
  shows "case TierType (map lower_char tier) of
      None \<Rightarrow> (\<exists>detail. r = HTTPException 400 detail) \<and> s = (g, p)
    | Some t \<Rightarrow>
        if sc_get_volume sc vid = None
        then r = HTTPException 404 ''Volume not found'' \<and> a = HTTPException 404 ''Volume not found'' \<and>
          tier_in s = tier_in (g, p)
        else r = Reply 200 \<lparr>ti_volume_id = vid, ti_tier = tier_value t, ti_status = ''updated''\<rparr> \<and>
          tier_in s = (tier_in (g, p))(vid := t) \<and>
          (\<exists>body. a = Reply 200 body \<and> va_volume_id body = vid \<and> va_current_tier body = tier_value t) \<and>
          (\<forall>v. v_id v = vid \<longrightarrow>
             (recommend clk now (the (snd s)) v = None
              \<longleftrightarrow> tier_for (get_data_temperature (clk vid) vid None (the (snd s))) = t))"
proof -
  define pd where "pd = (case p of None \<Rightarrow> StoragePredictor | Some pd \<Rightarrow> pd)"
  note gp = get_predictor_run[OF assms(1), of p, folded pd_def]
  have g': "g' = Some sc" using assms(1) by (auto simp: get_controller_def split: option.splits sum.splits)
  have old: "tier_in (g, p) = current_tier_of pd" by (simp add: tier_in_def pd_def fun_eq_iff)
  show ?thesis
  proof (cases "TierType (map lower_char tier)")
    case None
    then show ?thesis using assms(2) by (auto simp: set_tier_route_def)
  next
    case t: (Some t)
    show ?thesis
    proof (cases "sc_get_volume sc vid")
      case None
      then have s: "r = HTTPException 404 ''Volume not found''" "s = (Some sc, Some pd)"
        using assms(2) t gp g' by (auto simp: set_tier_route_def with_predictor_def)
      moreover have "a = HTTPException 404 ''Volume not found''"
        using assms(3) None s(2) gp
        by (auto simp: volume_analytics_route_def with_predictor_def get_predictor_def get_volume_analytics_def)
      ultimately show ?thesis using t None old by (simp add: fun_eq_iff)
    next
      case (Some v)
      let ?pd = "Predictor.set_volume_tier vid t pd"
      have s: "r = Reply 200 \<lparr>ti_volume_id = vid, ti_tier = tier_value t, ti_status = ''updated''\<rparr>" "s = (Some sc, Some ?pd)"
        using assms(2) t gp g' Some by (auto simp: set_tier_route_def with_predictor_def)
      have new: "current_tier_of ?pd = (current_tier_of pd)(vid := t)"
        by (simp add: current_tier_of_def Predictor.set_volume_tier_def fun_eq_iff)
      have "\<exists>body. a = Reply 200 body \<and> va_volume_id body = vid \<and> va_current_tier body = tier_value t"
        using assms(3) s(2) Some new
        by (auto simp: volume_analytics_route_def with_predictor_def get_predictor_def get_volume_analytics_def Let_def)
      moreover have "recommend clk now ?pd w = None \<longleftrightarrow> tier_for (get_data_temperature (clk vid) vid None ?pd) = t"
        if "v_id w = vid" for w
        using recommend_iff[of clk now ?pd w] that new by auto
      ultimately show ?thesis using t Some s old new by (simp add: fun_eq_iff)
    qed
  qed
qed

theorem set_tier_served_witness:
  "\<exists>sc r s body s'. set_tier_route default_settings ''v1'' ''HDD'' (Some sc, None) = (r, s) \<and>
     volume_analytics_route default_settings 0 (\<lambda>_. 0) ''v1'' s = (Reply 200 body, s') \<and> va_current_tier body = ''hdd''"
proof -
  obtain sc0 where "StorageController default_settings = Inr sc0" using demo_controller by (elim exE)
  define sc where "sc = snd (sc_create_volume ''v1'' 1 ''vol'' 1 [] None sc0)"
  have v: "sc_get_volume sc ''v1'' \<noteq> None"
    by (simp add: sc_def sc_get_volume_def sc_create_volume_def vm_create_volume_def put_volume_def vm_get_volume_def Let_def split_beta)
  have t: "TierType (map lower_char ''HDD'') = Some HDD" by code_simp
  obtain r s where r: "set_tier_route default_settings ''v1'' ''HDD'' (Some sc, None) = (r, s)" by (metis surj_pair)
  obtain a s' where a: "volume_analytics_route default_settings 0 (\<lambda>_. 0) ''v1'' s = (a, s')" by (metis surj_pair)
  obtain body where "a = Reply 200 body" "va_current_tier body = ''hdd''"
    using set_tier_served [OF get_controller_Some r a] v unfolding t by auto
  with r a show ?thesis by blast
qed

text \<open>
  A volume that was never accessed and is not archived is recommended with an infinite age, a number that has no
  representation in JSON.
\<close>

lemma tiering_reply_infinite:
  assumes "get_controller cfg g = (Inr sc, g')" and "v \<in> set (sc_list_volumes sc)"
    and "dict_get (pd_access_records pd) (v_id v) = None" and "current_tier_of pd (v_id v) \<noteq> ARCHIVE"
    and "tiering_route cfg clock now (g, Some pd) = (Reply code body, s)"
  shows "\<exists>x \<in> set (tg_recommendations body). tx_volume_id x = v_id v \<and> tx_last_access_seconds x = None"
proof -
  obtain r where r: "recommend clock now pd v = Some r" "tr_volume_id r = v_id v" "tr_last_access_seconds r = None"
    using assms(3,4) by (auto simp: recommend_def access_summary_def get_data_temperature_def Let_def)
  then have "r \<in> set (get_tiering_recommendations clock now sc pd)"
    using assms(2) by (force simp: get_tiering_recommendations_def List.map_filter_def)
  moreover have "tg_recommendations body = map recommendation_to_response (get_tiering_recommendations clock now sc pd)"
    using assms(1,5) by (auto simp: tiering_route_def with_predictor_def get_predictor_def Let_def)
  ultimately show ?thesis using r(2,3) by (force simp: recommendation_to_response_def)
qed

end
