(* ===== verification/Application.thy ===== *)
theory Application
  imports Array_Api Metrics_Api Analytics_Api
begin

text \<open>
  \<^verbatim>\<open>api/main.py\<close>: the application over the three singletons of the process, its start and end (\<^verbatim>\<open>lifespan\<close>), the
  handlers defined beside the routers, and the table of mounted paths. The \<^verbatim>\<open>FastAPI\<close> object, the CORS middleware and
  \<^verbatim>\<open>uvicorn\<close> are the framework's.
\<close>

section \<open>State, start and end\<close>

record app =
  ap_controller :: "controller option"
  ap_cluster :: "active_cluster option"
  ap_predictor :: "predictor option"

definition new_process :: app where
  "new_process = \<lparr> ap_controller = None, ap_cluster = None, ap_predictor = None \<rparr>"

text \<open>
  The part of \<^verbatim>\<open>lifespan\<close> before the \<^verbatim>\<open>yield\<close>. \<^verbatim>\<open>initialize\<close> after \<^verbatim>\<open>get_controller\<close> matters when the controller of an
  earlier run was shut down.
\<close>

definition cluster_startup :: "cluster_env \<Rightarrow> settings \<Rightarrow> active_cluster option \<Rightarrow> (active_cluster option, unit) outcome" where
  "cluster_startup ev cfg c =
     (if \<not> cfg_cluster_enabled cfg then (Inr (), c)
      else case get_cluster (ev_hash ev) (ev_now ev) (ev_clock ev) cfg c of
             (Inl e, c) \<Rightarrow> (Inl e, c)
           | (Inr None, c) \<Rightarrow> (Inr (), c)
           | (Inr (Some ac), c) \<Rightarrow> (Inr (), Some (ac_initialize (ev_hash ev) (ev_now ev) (ev_clock ev) PRIMARY ac)))"

definition startup :: "cluster_env \<Rightarrow> settings \<Rightarrow> app \<Rightarrow> (app, unit) outcome" where
  "startup ev cfg ap =
     (case get_controller cfg (ap_controller ap) of
        (Inl e, g) \<Rightarrow> (Inl e, ap\<lparr>ap_controller := g\<rparr>)
      | (Inr sc, g) \<Rightarrow>
          (case cluster_startup ev cfg (ap_cluster ap) of
             (r, c) \<Rightarrow> (r, ap\<lparr>ap_controller := Some (sc_initialize sc), ap_cluster := c\<rparr>)))"

text \<open>The part after the \<^verbatim>\<open>yield\<close>; the controller is the one of the start.\<close>

definition cluster_shutdown :: "cluster_env \<Rightarrow> settings \<Rightarrow> active_cluster option \<Rightarrow> (active_cluster option, unit) outcome" where
  "cluster_shutdown ev cfg c =
     (if \<not> cfg_cluster_enabled cfg then (Inr (), c)
      else case get_cluster (ev_hash ev) (ev_now ev) (ev_clock ev) cfg c of
             (Inl e, c) \<Rightarrow> (Inl e, c)
           | (Inr None, c) \<Rightarrow> (Inr (), c)
           | (Inr (Some ac), c) \<Rightarrow> (Inr (), Some (ac_shutdown ac)))"

definition app_shutdown :: "cluster_env \<Rightarrow> settings \<Rightarrow> app \<Rightarrow> (app, unit) outcome" where
  "app_shutdown ev cfg ap =
     (case cluster_shutdown ev cfg (ap_cluster ap) of
        (r, c) \<Rightarrow> (r, ap\<lparr>ap_controller := map_option sc_shutdown (ap_controller ap), ap_cluster := c\<rparr>))"

section \<open>Handlers\<close>

record root_response =
  ro_name :: string
  ro_version :: string
  ro_description :: string

definition root :: "('g, root_response) handler" where
  "root g = (Reply HTTP_200_OK \<lparr> ro_name = ''PStorage API'', ro_version = ''0.1.0'',
     ro_description = ''Pure Storage-Inspired Storage Manager'' \<rparr>, g)"

record health_check =
  hc_status :: string
  hc_reduction_ratio :: double
  hc_cluster_enabled :: bool

definition health :: "cluster_env \<Rightarrow> settings \<Rightarrow> (app, health_check) handler" where
  "health ev cfg ap =
     (case get_controller cfg (ap_controller ap) of
        (Inl e, g) \<Rightarrow> (Raised e, ap\<lparr>ap_controller := g\<rparr>)
      | (Inr sc, g) \<Rightarrow>
          (case with_cluster ev cfg
                  (Reply HTTP_200_OK \<lparr> hc_status = ''healthy'', hc_reduction_ratio = sc_get_reduction_ratio sc,
                     hc_cluster_enabled = False \<rparr>)
                  (\<lambda>ac. (Reply HTTP_200_OK
                     \<lparr> hc_status = (if ch_has_quorum (ac_get_health ac) then ''healthy'' else ''degraded''),
                       hc_reduction_ratio = sc_get_reduction_ratio sc, hc_cluster_enabled = True \<rparr>, ac))
                  (ap_cluster ap) of
             (r, c) \<Rightarrow> (r, ap\<lparr>ap_controller := g, ap_cluster := c\<rparr>)))"

record array_entry =
  ae_id :: string
  ae_name :: string
  ae_model :: string
  ae_version :: string
  ae_total_bytes :: int
  ae_used_bytes :: int
  ae_reduction_ratio :: double

definition list_arrays :: "settings \<Rightarrow> (controller option, array_entry list) handler" where
  "list_arrays cfg = with_controller cfg (\<lambda>sc.
     case sc_get_stats sc of
       Inl e \<Rightarrow> (Raised e, sc)
     | Inr stats \<Rightarrow>
         (Reply HTTP_200_OK
            [\<lparr> ae_id = cfg_node_id cfg, ae_name = cfg_app_name cfg, ae_model = ''PStorage Virtual Array'',
               ae_version = ''0.1.0'', ae_total_bytes = fr_total_capacity_bytes (ct_flash stats),
               ae_used_bytes = fr_used_bytes (ct_flash stats),
               ae_reduction_ratio = pst_total_reduction_ratio (ct_data_reduction stats) \<rparr>], sc))"

section \<open>The mounted paths\<close>

text \<open>
  The prefix of the application, the prefixes of the routers and the paths of their handlers for \<^verbatim>\<open>POST\<close>, a segment of
  \<open>None\<close> standing for a path parameter such as \<^verbatim>\<open>{volume_id}\<close>.
\<close>

type_synonym path_template = "string option list"

definition volumes_router :: "path_template list" where
  "volumes_router = map (\<lambda>p. Some ''volumes'' # p)
     [[], [None, Some ''resize''], [None, Some ''clone''], [None, Some ''write'']]"

definition snapshots_router :: "path_template list" where
  "snapshots_router = map (\<lambda>p. [Some ''volumes'', None, Some ''snapshots''] @ p) [[], [None, Some ''restore'']]"

definition replication_router :: "path_template list" where
  "replication_router = map (\<lambda>p. Some ''cluster'' # p)
     [[Some ''peers''], [Some ''failover''], [Some ''failback''], [Some ''heartbeat''], [Some ''replication'', Some ''apply'']]"

definition analytics_router :: "path_template list" where
  "analytics_router = map (\<lambda>p. Some ''analytics'' # p)
     [[Some ''capacity'', Some ''sample''], [Some ''volume'', None, Some ''tier''], [Some ''access'', Some ''record'']]"

definition post_routes :: "path_template list" where
  "post_routes = map (\<lambda>p. [Some ''api'', Some ''v1''] @ p)
     (volumes_router @ snapshots_router @ replication_router @ analytics_router)"

text \<open>A path matches a template when the literal segments are equal.\<close>

definition matches :: "string list \<Rightarrow> path_template \<Rightarrow> bool" where
  "matches path template \<longleftrightarrow> list_all2 (\<lambda>s t. t = None \<or> t = Some s) path template"

definition mounted :: "string list \<Rightarrow> bool" where
  "mounted path \<longleftrightarrow> list_ex (matches path) post_routes"

text \<open>The path of a URL below its base.\<close>

definition url_of :: "string \<Rightarrow> string list \<Rightarrow> string" where
  "url_of base path = base @ concat (map (\<lambda>s. ''/'' @ s) path)"

section \<open>A restart of the application\<close>

lemma array_ok_shutdown:
  assumes "array_ok sha cdc U cfg used sc D"
  shows "array_ok sha cdc U cfg used (sc_shutdown sc) D" "array_view (sc_shutdown sc) D = array_view sc D"
proof -
  let ?fb = "pe_backend (sc_purity sc)"
  have "fb_inv sha (fb_shutdown ?fb) = fb_inv sha ?fb \<and> fb_stored (fb_shutdown ?fb) = fb_stored ?fb"
    by (rule fb_files_same) (simp add: fb_shutdown_def fb_files_def fun_eq_iff)
  then have "sc_inv sha cdc U used (sc_shutdown sc) D"
    using array_okD(1)[OF assms] by (simp add: sc_shutdown_def sc_inv_def pe_inv_def)
  then show "array_ok sha cdc U cfg used (sc_shutdown sc) D"
    using assms by (simp add: array_ok_def) (simp add: sc_shutdown_def)
qed (simp add: sc_shutdown_def array_view_def sc_view_def fun_eq_iff)

lemma array_ok_initialize:
  assumes "array_ok sha cdc U cfg used sc D"
  shows "array_ok sha cdc U cfg used (sc_initialize sc) D" "array_view (sc_initialize sc) D = array_view sc D"
  using assms sc_inv_initialize[OF array_okD(1)[OF assms]] by (simp_all add: array_ok_def array_view_def)

lemma restart_rel:
  assumes rel: "array_rel sha cdc U cfg used (ap_controller ap) m"
    and down: "app_shutdown ev cfg ap = (r1, ap1)" and up: "startup ev' cfg ap1 = (r2, ap2)"
  shows "array_rel sha cdc U cfg used (ap_controller ap2) m"
proof -
  obtain sc g D where sc: "get_controller cfg (ap_controller ap) = (Inr sc, g)" "array_ok sha cdc U cfg used sc D"
    "m = array_view sc D"
    using rel by (auto simp: array_rel_def)
  have ap1: "ap_controller ap1 = map_option sc_shutdown (ap_controller ap)"
    using down by (auto simp: app_shutdown_def split: prod.splits)
  obtain sc1 where sc1: "get_controller cfg (ap_controller ap1) = (Inr sc1, Some sc1)" "array_ok sha cdc U cfg used sc1 D"
    "array_view sc1 D = m"
  proof (cases "ap_controller ap")
    case None
    then show ?thesis using that sc ap1 by (auto simp: get_controller_def split: sum.splits)
  next
    case (Some x)
    then show ?thesis using that[of "sc_shutdown sc"] sc ap1 array_ok_shutdown[OF sc(2)] by simp
  qed
  then have "ap_controller ap2 = Some (sc_initialize sc1)"
    using up by (auto simp: startup_def split: prod.splits)
  then show ?thesis
    using array_ok_initialize[OF sc1(2)] sc1(3) by (auto simp: array_rel_def)
qed

text \<open>A new process answers as an array without volumes does.\<close>

lemma new_process_empty:
  assumes "StorageController cfg = Inr sc0" and "startup ev cfg new_process = (r, ap)"
  shows "\<exists>sc. ap_controller ap = Some sc \<and> sc_list_volumes sc = []"
proof -
  have vols: "vm_volumes (sc_volume_manager sc0) = []"
    using assms(1) by (auto simp: StorageController_def VolumeManager_def split: sum.splits)
  have "ap_controller ap = Some (sc_initialize (sc_initialize sc0))"
    using assms by (auto simp: startup_def new_process_def get_controller_def split: prod.splits)
  then show ?thesis using vols by (simp add: sc_list_volumes_def vm_list_volumes_def sc_initialize_def)
qed

lemma run_calls_append:
  "run_calls step (cs @ ds) s
   = (case run_calls step cs s of (as, s) \<Rightarrow> (case run_calls step ds s of (bs, s) \<Rightarrow> (as @ bs, s)))"
  by (induction cs arbitrary: s) (auto split: prod.splits)

text \<open>
  C21. The end of \<^verbatim>\<open>lifespan\<close> and a new start of it in the same process lose nothing. A history of requests for volumes, data and snapshots (no clone, no
  restore, blocks the reduction pipeline can represent) that is interrupted by
  \<^verbatim>\<open>lifespan\<close> ending and starting again, with or without a cluster, whatever the outcome of starting the
  cluster, is answered as the specification answers the whole history: volumes, data and snapshots written before are there after.
  The controller stays in memory meanwhile; a new process has a new controller without volumes (\<open>new_process_empty\<close>).
\<close>

theorem restart_keeps_array:
  assumes "StorageController cfg = Inr sc0" and "all_stages_on cfg" and "cfg_default_block_size cfg \<noteq> 0"
    and "codecs_ok cdc" and "collision_free sha (set (concat (map api_data (before @ after))))"
    and "\<forall>d \<in> set (concat (map api_data (before @ after))). storable (cfg_default_block_size cfg) d"
    and "distinct (concat (map api_ids (before @ after)))" and "[] \<notin> set (concat (map api_ids (before @ after)))"
    and "run_calls (api_step cfg sha cdc strftime) before None = (replies1, ap_controller ap)"
    and "app_shutdown ev cfg ap = (r1, ap1)" and "startup ev' cfg ap1 = (r2, ap2)"
    and "run_calls (api_step cfg sha cdc strftime) after (ap_controller ap2) = (replies2, g)"
  shows "map seen (replies1 @ replies2)
    = fst (run_calls (array_step (cfg_default_block_size cfg)) (before @ after) empty_array)"
proof -
  let ?U = "set (concat (map api_data (before @ after)))" and ?ids = "set (concat (map api_ids before))"
  have ok: "\<forall>c \<in> set (before @ after). api_ok ?U c" using assms(8) by (auto simp: api_ok_def)
  obtain m where m: "run_calls (array_step (cfg_default_block_size cfg)) before empty_array = (map seen replies1, m)"
    "array_rel sha cdc ?U cfg ({} \<union> ?ids) (ap_controller ap) m"
    using arrays.run_refines[OF array_rel_init[OF assms(1-6)] _ _ _ assms(9)] ok assms(7) by fastforce
  have "\<exists>n. run_calls (array_step (cfg_default_block_size cfg)) after m = (map seen replies2, n) \<and>
      array_rel sha cdc ?U cfg (({} \<union> ?ids) \<union> set (concat (map api_ids after))) g n"
    by (rule arrays.run_refines[OF restart_rel[OF m(2) assms(10,11)] _ _ _ assms(12)]) (use ok assms(7) in auto)
  then show ?thesis using m(1) by (auto simp: run_calls_append)
qed

definition demo_env :: cluster_env where
  "demo_env = \<lparr> ev_hash = (\<lambda>_. 0), ev_now = 0, ev_clock = (\<lambda>_. 0) \<rparr>"

theorem restart_keeps_array_witness:
  "\<exists>replies1 g1 ap1 ap2 replies2 g2 r1 r2.
     run_calls (api_step default_settings length_hash demo_codecs (\<lambda>_. []))
       [PostVolume ''v1'' 1 \<lparr>vc_name = ''vol'', vc_size_gb = 1, vc_description = [], vc_tags = []\<rparr>,
        PostWrite ''b1'' 2 ''v1'' \<lparr>wq_offset = 4096, wq_data = ''AQI=''\<rparr>] None = (replies1, g1) \<and>
     app_shutdown demo_env default_settings \<lparr>ap_controller = g1, ap_cluster = None, ap_predictor = None\<rparr> = (r1, ap1) \<and>
     startup demo_env default_settings ap1 = (r2, ap2) \<and>
     run_calls (api_step default_settings length_hash demo_codecs (\<lambda>_. [])) [GetRead ''v1'' 4096] (ap_controller ap2)
       = (replies2, g2) \<and>
     map seen (replies1 @ replies2) = [SeenVolume 201 ''v1'' (gb_to_bytes 1), Seen 200, SeenData 200 ''AQI='']"
proof -
  let ?b = "[PostVolume ''v1'' 1 \<lparr>vc_name = ''vol'', vc_size_gb = 1, vc_description = [], vc_tags = []\<rparr>,
    PostWrite ''b1'' 2 ''v1'' \<lparr>wq_offset = 4096, wq_data = ''AQI=''\<rparr>]" and ?a = "[GetRead ''v1'' 4096]"
  let ?step = "api_step default_settings length_hash demo_codecs (\<lambda>_. [])"
  obtain sc0 where sc0: "StorageController default_settings = Inr sc0" using demo_controller by (elim exE)
  obtain replies1 g1 where b: "run_calls ?step ?b None = (replies1, g1)" by (metis surj_pair)
  define ap where "ap = \<lparr>ap_controller = g1, ap_cluster = None, ap_predictor = None\<rparr>"
  obtain r1 ap1 where down: "app_shutdown demo_env default_settings ap = (r1, ap1)" by (metis surj_pair)
  obtain r2 ap2 where up: "startup demo_env default_settings ap1 = (r2, ap2)" by (metis surj_pair)
  obtain replies2 g2 where a: "run_calls ?step ?a (ap_controller ap2) = (replies2, g2)" by (metis surj_pair)
  have b': "run_calls ?step ?b None = (replies1, ap_controller ap)" using b by (simp only: ap_def app.simps)
  have data: "set (concat (map api_data (?b @ ?a))) = {[1, 2]}" by (simp add: demo_decode)
  have c: "collision_free length_hash (set (concat (map api_data (?b @ ?a))))" unfolding data by (rule demo_hash) simp
  have s: "\<forall>d \<in> set (concat (map api_data (?b @ ?a))). storable (cfg_default_block_size default_settings) d"
    unfolding data by (rule demo_storable)
  have i: "distinct (concat (map api_ids (?b @ ?a)))" "[] \<notin> set (concat (map api_ids (?b @ ?a)))" by simp_all
  have "map seen (replies1 @ replies2) = [SeenVolume 201 ''v1'' (gb_to_bytes 1), Seen 200, SeenData 200 ''AQI='']"
    unfolding restart_keeps_array [OF sc0 all_stages_on_default default_block_size demo_codecs_ok c s i b' down up a]
    using demo_answers by simp
  from b down[unfolded ap_def] up a this show ?thesis by (intro exI conjI)
qed

section \<open>Where replication is sent\<close>

text \<open>
  A peer's URL is the root of an application with these routes: a path outside the table is not answered with 200.
\<close>

definition serves_app :: "replication_post \<Rightarrow> string \<Rightarrow> bool" where
  "serves_app post base \<longleftrightarrow> (\<forall>path request. list_all (\<lambda>s. CHR ''/'' \<notin> set s) path \<longrightarrow> \<not> mounted path \<longrightarrow>
     post (url_of base path) request \<noteq> Some 200)"

lemmas router_defs = volumes_router_def snapshots_router_def replication_router_def analytics_router_def

lemma apply_not_mounted: "\<not> mounted [''api'', ''v1'', ''replication'', ''apply'']"
  by (simp add: mounted_def post_routes_def router_defs matches_def)

lemma apply_url_path: "apply_url peer = url_of (rp_url peer) [''api'', ''v1'', ''replication'', ''apply'']"
  by (simp add: apply_url_def url_of_def)

lemma apply_not_answered: "serves_app post (rp_url (snd p)) \<Longrightarrow> \<not> answers_ok post re operation p"
  using apply_not_mounted unfolding serves_app_def answers_ok_def apply_url_path by fastforce

definition unserved :: "replication_post \<Rightarrow> replication \<Rightarrow> bool" where
  "unserved post re \<longleftrightarrow> wf_dict (re_peers re) \<and> re_peers re \<noteq> [] \<and>
     (\<forall>k peer. dict_get (re_peers re) k = Some peer \<longrightarrow> serves_app post (rp_url peer))"

lemma unserved_sync:
  assumes u: "unserved post re" and run: "sync_replicate post clock start finish operation re = (ok, re')"
  shows "\<not> ok \<and> unserved post re' \<and> same_queue re re' \<and>
    rs_replication_errors (re_stats re') = rs_replication_errors (re_stats re) + int (length (contactable re))"
proof -
  have wf: "wf_dict (re_peers re)" and ne: "re_peers re \<noteq> []"
    and srv: "\<And>k peer. dict_get (re_peers re) k = Some peer \<Longrightarrow> serves_app post (rp_url peer)"
    using u by (auto simp: unserved_def)
  note E = sync_replicate_effect[OF wf run]
  have peers: "dict_get (re_peers re') k
      = map_option (\<lambda>peer. if rp_state peer = RP_BROKEN then peer else contacted post clock re operation (k, peer))
          (dict_get (re_peers re) k)" for k
    using E by blast
  have no: "\<not> answers_ok post re operation p" if "p \<in> set (re_peers re)" for p
    using apply_not_answered srv[of "fst p" "snd p"] that wf by (simp add: wf_dict_def)
  have "contactable re = filter (\<lambda>p. \<not> answers_ok post re operation p) (contactable re)"
    using no by (intro filter_True[symmetric]) (auto simp: contactable_def)
  moreover have "wf_dict (re_peers re')"
    using sync_replicate_wf[OF wf, of post clock start finish operation] run by simp
  moreover have "re_peers re' \<noteq> []"
  proof
    assume "re_peers re' = []"
    obtain p where "p \<in> set (re_peers re)" using ne by (cases "re_peers re") auto
    then have "dict_get (re_peers re) (fst p) = Some (snd p)" using wf by (simp add: wf_dict_def)
    then have "dict_get (re_peers re') (fst p) \<noteq> None" using peers by simp
    then show False using \<open>re_peers re' = []\<close> by simp
  qed
  moreover have "serves_app post (rp_url peer)" if "dict_get (re_peers re') k = Some peer" for k peer
    using that srv[of k] by (auto simp: peers contacted_def split: if_splits option.splits)
  moreover have "\<not> acknowledged post re operation" using ne no by (auto simp: acknowledged_def)
  ultimately show ?thesis using E unfolding unserved_def by simp
qed

lemma unserved_process:
  assumes "unserved post re"
  shows "unserved post (process_operation post clock start finish operation re) \<and>
    re_journal (process_operation post clock start finish operation re) = re_journal re"
proof -
  obtain ok re' where r: "sync_replicate post clock start finish operation re = (ok, re')" by (metis surj_pair)
  from unserved_sync[OF assms r] show ?thesis using r by (simp add: process_operation_def same_queue_def)
qed

lemma unserved_journal:
  assumes "unserved post re"
  shows "unserved post (process_journal post clock start finish re) \<and>
    re_journal (process_journal post clock start finish re) = re_journal re"
proof -
  have "unserved post (fold (process_operation post clock start finish) ops re) \<and>
      re_journal (fold (process_operation post clock start finish) ops re) = re_journal re" for ops
    using assms
  proof (induction ops arbitrary: re)
    case (Cons a ops)
    then show ?case using unserved_process[OF Cons.prems, of clock start finish a] by simp
  qed simp
  then show ?thesis using assms by (simp add: process_journal_def)
qed

lemma unserved_passes:
  assumes "unserved post re"
  shows "unserved post ((process_journal post clock start finish ^^ n) re) \<and>
    re_journal ((process_journal post clock start finish ^^ n) re) = re_journal re"
proof (induction n)
  case (Suc n)
  then show ?case
    using unserved_journal[of post "(process_journal post clock start finish ^^ n) re" clock start finish] by simp
qed (use assms in simp)

text \<open>
  C33. Replication between nodes that run this application cannot succeed, because operations are posted to a path that the
  application does not serve. With at least one peer, each at the root of such an application, a synchronous
  write is never acknowledged and counts one error for each peer contacted; an asynchronous write is accepted, but
  no number of passes of the background task takes an operation out of the journal.
\<close>

theorem replication_never_served:
  assumes "wf_dict (re_peers re)" and "re_peers re \<noteq> []"
    and "\<forall>p \<in> set (re_peers re). serves_app post (rp_url (snd p))"
    and "replicate_write post clock now start finish vid off bid fp data re = (ok, re')"
  shows "(re_mode re = SYNC \<longrightarrow> \<not> ok \<and>
      rs_replication_errors (re_stats re') = rs_replication_errors (re_stats re) + int (length (contactable re))) \<and>
    (re_mode re = ASYNC \<longrightarrow> ok \<and>
      re_journal ((process_journal post clock' start' finish' ^^ n) re')
        = re_journal re @ [fst (next_operation now ''write'' vid (WriteData off bid fp (to_hex data)) re)])"
proof -
  let ?re = "re\<lparr>re_sequence_number := re_sequence_number re + 1\<rparr>"
  define op where "op = fst (next_operation now ''write'' vid (WriteData off bid fp (to_hex data)) re)"
  have n: "next_operation now ''write'' vid (WriteData off bid fp (to_hex data)) re = (op, ?re)"
    by (simp add: op_def next_operation_def Let_def)
  have "serves_app post (rp_url peer)" if "dict_get (re_peers re) k = Some peer" for k peer
    using bspec[OF assms(3) map_of_SomeD[OF that]] by simp
  then have u: "unserved post ?re" using assms(1,2) by (simp add: unserved_def)
  have sync: "\<not> ok \<and> rs_replication_errors (re_stats re') = rs_replication_errors (re_stats re) + int (length (contactable re))"
    if "re_mode re = SYNC"
  proof -
    have "sync_replicate post clock start finish op ?re = (ok, re')"
      using assms(4) that unfolding replicate_write_def n by (simp add: dispatch_def)
    from unserved_sync[OF u this] show ?thesis by (simp add: contactable_def)
  qed
  have async: "ok \<and> re_journal ((process_journal post clock' start' finish' ^^ n) re') = re_journal re @ [op]"
    if "re_mode re = ASYNC" for n
  proof -
    have r: "ok" "re' = queue_for_async op ?re"
      using assms(4) that unfolding replicate_write_def n by (simp_all add: dispatch_def)
    have u': "unserved post re'" using u unfolding r(2) by (simp add: queue_for_async_def unserved_def Let_def)
    have "re_journal re' = re_journal re @ [op]" unfolding r(2) by (simp add: queue_for_async_def Let_def)
    then show ?thesis using r(1) unserved_passes[OF u'] by simp
  qed
  show ?thesis unfolding n fst_conv by (intro conjI impI) (use sync async in simp_all)
qed

lemma url_segments:
  assumes "list_all (\<lambda>s. CHR ''/'' \<notin> set s) xs" and "list_all (\<lambda>s. CHR ''/'' \<notin> set s) ys"
    and "concat (map (\<lambda>s. ''/'' @ s) xs) = concat (map (\<lambda>s. ''/'' @ s) ys)"
  shows "xs = ys"
  using assms
proof (induction xs arbitrary: ys)
  case Nil
  then show ?case by (cases ys) auto
next
  case (Cons x xs)
  then obtain y zs where ys: "ys = y # zs" by (cases ys) auto
  have first: "takeWhile (\<lambda>ch. ch \<noteq> CHR ''/'') (s @ concat (map (\<lambda>s. ''/'' @ s) ss)) = s"
    if "CHR ''/'' \<notin> set s" for s ss
  proof -
    have "takeWhile (\<lambda>ch. ch \<noteq> CHR ''/'') (concat (map (\<lambda>s. ''/'' @ s) ss)) = []" by (cases ss) auto
    moreover have "\<forall>ch \<in> set s. ch \<noteq> CHR ''/''" using that by auto
    ultimately show ?thesis by (simp add: takeWhile_append2)
  qed
  have eq: "x @ concat (map (\<lambda>s. ''/'' @ s) xs) = y @ concat (map (\<lambda>s. ''/'' @ s) zs)"
    using Cons.prems(3) ys by simp
  have "CHR ''/'' \<notin> set x" "CHR ''/'' \<notin> set y" using Cons.prems(1,2) ys by simp_all
  from first[OF this(1), of xs] first[OF this(2), of zs] have "x = y" unfolding eq by (rule trans[OF sym])
  then show ?case using Cons.IH[of zs] Cons.prems(1,2) eq ys by simp
qed

text \<open>A server that answers 200 on the path where the application does serve replication.\<close>

definition demo_post :: replication_post where
  "demo_post url request = Some (if url = url_of ''http://a'' [''api'', ''v1'', ''cluster'', ''replication'', ''apply''] then 200 else 404)"

lemma demo_post_serves: "serves_app demo_post ''http://a''"
proof -
  let ?path = "[''api'', ''v1'', ''cluster'', ''replication'', ''apply'']"
  have "mounted ?path" by (simp add: mounted_def post_routes_def router_defs matches_def)
  then show ?thesis
    using url_segments[of _ ?path] unfolding serves_app_def demo_post_def url_of_def by fastforce
qed

theorem replication_never_served_witness:
  "\<not> fst (replicate_write demo_post (\<lambda>_. 0) 1 2 3 ''v'' 0 ''b'' ''f'' [1]
     (snd (re_add_peer 0 ''p'' ''http://a'' (ReplicationEngine ''n'' SYNC 5000))))"
proof -
  let ?re = "snd (re_add_peer 0 ''p'' ''http://a'' (ReplicationEngine ''n'' SYNC 5000))"
  obtain ok re' where r: "replicate_write demo_post (\<lambda>_. 0) 1 2 3 ''v'' 0 ''b'' ''f'' [1] ?re = (ok, re')"
    by (metis surj_pair)
  have peers: "re_peers ?re = [(''p'', fst (re_add_peer 0 ''p'' ''http://a'' (ReplicationEngine ''n'' SYNC 5000)))]"
    "re_mode ?re = SYNC" and url: "rp_url (fst (re_add_peer 0 ''p'' ''http://a'' (ReplicationEngine ''n'' SYNC 5000))) = ''http://a''"
    by (simp_all add: re_add_peer_def ReplicationEngine_def Let_def)
  have wf: "wf_dict (re_peers ?re)" "re_peers ?re \<noteq> []" unfolding peers(1) by (simp_all add: wf_dict_def)
  have s: "\<forall>p \<in> set (re_peers ?re). serves_app demo_post (rp_url (snd p))"
    unfolding peers(1) using demo_post_serves url by simp
  from replication_never_served [OF wf s r, where n = 0] peers(2) have "\<not> ok" by blast
  then show ?thesis unfolding r fst_conv .
qed

end
