(* ===== verification/Block_Objects.thy ===== *)
theory Block_Objects
  imports Storage_Controller
begin

text \<open>
  The block maps of core/volume_manager.py and core/snapshot_manager.py as the objects they are. In the other
  theories a volume and a snapshot have their map as a value. In the program \<^verbatim>\<open>blocks\<close> is a reference to a dict, whose values are
  references to \<^verbatim>\<open>VolumeBlock\<close> objects, and both could be shared: a snapshot that kept the dict of its volume would
  change with it. Here the store of objects is explicit, every operation allocates, copies and updates what
  the source does, and it is proved that no dict is ever shared, so that every history is answered as with values
  (an interpretation of \<open>simulation\<close> over the controller's operations), and that a snapshot never changes.
\<close>

section \<open>The store\<close>

type_synonym addr = nat

record store =
  os_next :: addr
  os_dict :: "addr \<Rightarrow> (int, addr) dict"
  os_block :: "addr \<Rightarrow> volume_block"

text \<open>\<^verbatim>\<open>{}\<close>, \<^verbatim>\<open>d.copy()\<close>, \<^verbatim>\<open>VolumeBlock(...)\<close> and \<^verbatim>\<open>d[offset] = block\<close>.\<close>

definition new_dict :: "store \<Rightarrow> addr \<times> store" where
  "new_dict st = (os_next st, st\<lparr>os_next := os_next st + 1, os_dict := (os_dict st)(os_next st := [])\<rparr>)"

definition copy_dict :: "addr \<Rightarrow> store \<Rightarrow> addr \<times> store" where
  "copy_dict d st =
     (os_next st, st\<lparr>os_next := os_next st + 1, os_dict := (os_dict st)(os_next st := os_dict st d)\<rparr>)"

definition new_block :: "volume_block \<Rightarrow> store \<Rightarrow> addr \<times> store" where
  "new_block b st = (os_next st, st\<lparr>os_next := os_next st + 1, os_block := (os_block st)(os_next st := b)\<rparr>)"

definition put_block :: "addr \<Rightarrow> int \<Rightarrow> addr \<Rightarrow> store \<Rightarrow> store" where
  "put_block d off b st = st\<lparr>os_dict := (os_dict st)(d := dict_set off b (os_dict st d))\<rparr>"

text \<open>The loops of \<^verbatim>\<open>clone_volume\<close> and \<^verbatim>\<open>create_snapshot\<close>: a new \<^verbatim>\<open>VolumeBlock\<close> with the fields of each block.\<close>

fun copy_blocks :: "(int \<times> addr) list \<Rightarrow> addr \<Rightarrow> store \<Rightarrow> store" where
  "copy_blocks [] d st = st"
| "copy_blocks ((off, b) # items) d st =
     (case new_block (os_block st b) st of (b', st) \<Rightarrow> copy_blocks items d (put_block d off b' st))"

section \<open>Volumes and snapshots as objects\<close>

text \<open>
  An object: its fields, and the reference in its attribute \<^verbatim>\<open>blocks\<close>. The block map inside the fields is not used.
\<close>

record 'o obj =
  ob_fields :: 'o
  ob_blocks :: addr

record objects =
  oa_store :: store
  oa_volumes :: "(string, volume obj) dict"
  oa_vstats :: volume_stats
  oa_snapshots :: "(string, snapshot obj) dict"
  oa_index :: "(string, string list) dict"
  oa_sstats :: snapshot_stats

definition no_objects :: objects where
  "no_objects =
     \<lparr> oa_store = \<lparr> os_next = 0, os_dict = \<lambda>_. [],
         os_block = \<lambda>_. \<lparr>vb_offset = 0, vb_block_id = [], vb_fingerprint = [], vb_size = 0\<rparr> \<rparr>,
       oa_volumes = [], oa_vstats = vm_stats (VolumeManager 0), oa_snapshots = [], oa_index = [],
       oa_sstats = sm_stats SnapshotManager \<rparr>"

definition ob_create_volume ::
    "string \<Rightarrow> int \<Rightarrow> string \<Rightarrow> int \<Rightarrow> string \<Rightarrow> tags option \<Rightarrow> objects \<Rightarrow> volume obj \<times> objects" where
  "ob_create_volume uuid now name size_bytes description tags s =
     (case new_dict (oa_store s) of (d, st) \<Rightarrow>
        let ob = \<lparr> ob_fields = \<lparr> v_id = uuid, v_name = name, v_size_bytes = size_bytes, v_created_at = now,
                     v_updated_at = now, v_state = V_AVAILABLE, v_description = description, v_blocks = [],
                     v_used_bytes = 0, v_logical_bytes = 0, v_physical_bytes = 0,
                     v_tags = (case tags of None \<Rightarrow> [] | Some t \<Rightarrow> t) \<rparr>, ob_blocks = d \<rparr>;
            vs = oa_vstats s
        in (ob, s\<lparr> oa_store := st, oa_volumes := dict_set uuid ob (oa_volumes s),
                   oa_vstats := vs\<lparr> vs_total_volumes := vs_total_volumes vs + 1,
                     vs_total_provisioned_bytes := vs_total_provisioned_bytes vs + size_bytes \<rparr> \<rparr>))"

definition ob_update_volume ::
    "int \<Rightarrow> string \<Rightarrow> string option \<Rightarrow> string option \<Rightarrow> tags option \<Rightarrow> objects \<Rightarrow> volume obj option \<times> objects" where
  "ob_update_volume now vid name description tags s =
     (case dict_get (oa_volumes s) vid of
        None \<Rightarrow> (None, s)
      | Some ob \<Rightarrow>
          let v = ob_fields ob;
              v = (case name of None \<Rightarrow> v | Some n \<Rightarrow> v\<lparr>v_name := n\<rparr>);
              v = (case description of None \<Rightarrow> v | Some d \<Rightarrow> v\<lparr>v_description := d\<rparr>);
              v = (case tags of None \<Rightarrow> v | Some t \<Rightarrow> v\<lparr>v_tags := t\<rparr>);
              ob = ob\<lparr>ob_fields := v\<lparr>v_updated_at := now\<rparr>\<rparr>
          in (Some ob, s\<lparr>oa_volumes := dict_set vid ob (oa_volumes s)\<rparr>))"

definition ob_resize_volume :: "int \<Rightarrow> string \<Rightarrow> int \<Rightarrow> objects \<Rightarrow> (objects, volume obj option) outcome" where
  "ob_resize_volume now vid new_size_bytes s =
     (case dict_get (oa_volumes s) vid of
        None \<Rightarrow> (Inr None, s)
      | Some ob \<Rightarrow>
          let v = ob_fields ob; vs = oa_vstats s
          in if new_size_bytes < v_size_bytes v then (Inl (ValueError ''Cannot shrink volume''), s)
             else let ob = ob\<lparr>ob_fields := v\<lparr>v_size_bytes := new_size_bytes, v_updated_at := now\<rparr>\<rparr>
                  in (Inr (Some ob),
                      s\<lparr> oa_volumes := dict_set vid ob (oa_volumes s),
                         oa_vstats := vs\<lparr>vs_total_provisioned_bytes := vs_total_provisioned_bytes vs
                                           + (new_size_bytes - v_size_bytes v)\<rparr> \<rparr>))"

definition ob_write_block ::
    "int \<Rightarrow> string \<Rightarrow> int \<Rightarrow> string \<Rightarrow> string \<Rightarrow> int \<Rightarrow> int \<Rightarrow> objects \<Rightarrow> (objects, bool) outcome" where
  "ob_write_block now vid off block_id fingerprint sz physical_size s =
     (case dict_get (oa_volumes s) vid of
        None \<Rightarrow> (Inr False, s)
      | Some ob \<Rightarrow>
          let v = ob_fields ob; st = oa_store s; vs = oa_vstats s
          in if v_size_bytes v < off + sz then (Inl (ValueError ''Write exceeds volume size''), s)
             else
               let v = (case dict_get (os_dict st (ob_blocks ob)) off of
                          None \<Rightarrow> v
                        | Some old \<Rightarrow> v\<lparr> v_logical_bytes := v_logical_bytes v - vb_size (os_block st old),
                                         v_used_bytes := v_used_bytes v - vb_size (os_block st old) \<rparr>)
               in case new_block \<lparr> vb_offset = off, vb_block_id = block_id, vb_fingerprint = fingerprint,
                                   vb_size = sz \<rparr> st of
                    (b, st) \<Rightarrow>
                      (Inr True,
                       s\<lparr> oa_store := put_block (ob_blocks ob) off b st,
                          oa_volumes := dict_set vid (ob\<lparr>ob_fields := v\<lparr> v_used_bytes := v_used_bytes v + sz,
                            v_logical_bytes := v_logical_bytes v + sz, v_physical_bytes := physical_size,
                            v_updated_at := now \<rparr>\<rparr>) (oa_volumes s),
                          oa_vstats := vs\<lparr> vs_total_used_bytes := vs_total_used_bytes vs + sz,
                            vs_total_logical_bytes := vs_total_logical_bytes vs + sz \<rparr> \<rparr>))"

definition ob_clone_volume ::
    "string \<Rightarrow> int \<Rightarrow> string \<Rightarrow> string \<Rightarrow> string \<Rightarrow> objects \<Rightarrow> volume obj option \<times> objects" where
  "ob_clone_volume uuid now source_id new_name description s =
     (case dict_get (oa_volumes s) source_id of
        None \<Rightarrow> (None, s)
      | Some source \<Rightarrow>
          let v = ob_fields source; source_blocks = os_dict (oa_store s) (ob_blocks source)
          in case ob_create_volume uuid now new_name (v_size_bytes v) (clone_description description (v_name v))
                    (Some (v_tags v)) s of
               (clone, s) \<Rightarrow>
                 let st = copy_blocks source_blocks (ob_blocks clone) (oa_store s);
                     clone = clone\<lparr>ob_fields := (ob_fields clone)\<lparr> v_used_bytes := v_used_bytes v,
                       v_logical_bytes := v_logical_bytes v, v_physical_bytes := 0 \<rparr>\<rparr>
                 in (Some clone, s\<lparr> oa_store := st, oa_volumes := dict_set uuid clone (oa_volumes s) \<rparr>))"

definition ob_delete_volume :: "string \<Rightarrow> objects \<Rightarrow> bool \<times> objects" where
  "ob_delete_volume vid s =
     (case dict_get (oa_volumes s) vid of
        None \<Rightarrow> (False, s)
      | Some ob \<Rightarrow>
          let v = ob_fields ob; vs = oa_vstats s
          in (True, s\<lparr> oa_volumes := dict_del vid (oa_volumes s),
               oa_vstats := vs\<lparr> vs_total_volumes := vs_total_volumes vs - 1,
                 vs_total_provisioned_bytes := vs_total_provisioned_bytes vs - v_size_bytes v,
                 vs_total_used_bytes := vs_total_used_bytes vs - v_used_bytes v,
                 vs_total_logical_bytes := vs_total_logical_bytes vs - v_logical_bytes v,
                 vs_total_physical_bytes := vs_total_physical_bytes vs - v_physical_bytes v \<rparr> \<rparr>))"

text \<open>\<^verbatim>\<open>create_snapshot\<close> of the controller and of the snapshot manager.\<close>

definition ob_create_snapshot ::
    "(int \<Rightarrow> string) \<Rightarrow> string \<Rightarrow> int \<Rightarrow> string \<Rightarrow> string option \<Rightarrow> string \<Rightarrow> objects \<Rightarrow> snapshot obj option \<times> objects" where
  "ob_create_snapshot strftime uuid now vid name description s =
     (case dict_get (oa_volumes s) vid of
        None \<Rightarrow> (None, s)
      | Some vol \<Rightarrow>
          (case new_dict (oa_store s) of (d, st) \<Rightarrow>
             let v = ob_fields vol;
                 st = copy_blocks (os_dict st (ob_blocks vol)) d st;
                 ob = \<lparr> ob_fields = \<lparr> sn_id = uuid, sn_name = snapshot_name strftime name (v_name v) now,
                          sn_volume_id = v_id v, sn_volume_name = v_name v, sn_created_at = now,
                          sn_state = S_AVAILABLE, sn_description = description, sn_blocks = [],
                          sn_size_bytes = v_size_bytes v, sn_used_bytes = v_used_bytes v, sn_tags = [] \<rparr>,
                        ob_blocks = d \<rparr>;
                 ids = (case dict_get (oa_index s) (v_id v) of None \<Rightarrow> [] | Some ids \<Rightarrow> ids) @ [uuid];
                 ss = oa_sstats s
             in (Some ob,
                 s\<lparr> oa_store := st, oa_snapshots := dict_set uuid ob (oa_snapshots s),
                    oa_index := dict_set (v_id v) ids (oa_index s),
                    oa_sstats := \<lparr> ss_total_snapshots = ss_total_snapshots ss + 1,
                      ss_snapshots_by_volume =
                        dict_set (v_id v) (int (length ids)) (ss_snapshots_by_volume ss) \<rparr> \<rparr>)))"

definition ob_delete_snapshot :: "string \<Rightarrow> objects \<Rightarrow> (objects, bool) outcome" where
  "ob_delete_snapshot sid s =
     (case dict_get (oa_snapshots s) sid of
        None \<Rightarrow> (Inr False, s)
      | Some ob \<Rightarrow>
          let sn = ob_fields ob;
              s = s\<lparr>oa_snapshots := dict_set sid (ob\<lparr>ob_fields := sn\<lparr>sn_state := S_DELETING\<rparr>\<rparr>) (oa_snapshots s)\<rparr>;
              ss = oa_sstats s;
              total = ss_total_snapshots ss - 1
          in case dict_get (oa_index s) (sn_volume_id sn) of
               None \<Rightarrow> (Inr True, s\<lparr> oa_snapshots := dict_del sid (oa_snapshots s),
                                     oa_sstats := ss\<lparr>ss_total_snapshots := total\<rparr> \<rparr>)
             | Some ids \<Rightarrow>
                 if sid \<notin> set ids then (Inl (ValueError ''list.remove(x): x not in list''), s)
                 else let ids = remove1 sid ids
                      in (Inr True,
                          s\<lparr> oa_snapshots := dict_del sid (oa_snapshots s),
                             oa_index := dict_set (sn_volume_id sn) ids (oa_index s),
                             oa_sstats := \<lparr> ss_total_snapshots = total,
                               ss_snapshots_by_volume =
                                 dict_set (sn_volume_id sn) (int (length ids)) (ss_snapshots_by_volume ss) \<rparr> \<rparr>))"

text \<open>\<^verbatim>\<open>volume.blocks = snapshot.blocks.copy()\<close>: a new dict with the same \<^verbatim>\<open>VolumeBlock\<close> objects.\<close>

definition ob_assign_blocks :: "snapshot obj \<Rightarrow> string \<Rightarrow> volume obj \<Rightarrow> objects \<Rightarrow> volume obj \<times> objects" where
  "ob_assign_blocks sob vid vob s =
     (case copy_dict (ob_blocks sob) (oa_store s) of (d, st) \<Rightarrow>
        let vob = \<lparr> ob_fields = (ob_fields vob)\<lparr>v_used_bytes := sn_used_bytes (ob_fields sob)\<rparr>, ob_blocks = d \<rparr>
        in (vob, s\<lparr> oa_store := st, oa_volumes := dict_set vid vob (oa_volumes s) \<rparr>))"

definition ob_restore_snapshot ::
    "string \<Rightarrow> int \<Rightarrow> string \<Rightarrow> string option \<Rightarrow> objects \<Rightarrow> volume obj option \<times> objects" where
  "ob_restore_snapshot uuid now sid vid s =
     (case dict_get (oa_snapshots s) sid of
        None \<Rightarrow> (None, s)
      | Some sob \<Rightarrow>
          let sn = ob_fields sob
          in if vid \<noteq> None \<and> vid \<noteq> Some [] then
               (case dict_get (oa_volumes s) (the vid) of
                  None \<Rightarrow> (None, s)
                | Some vob \<Rightarrow> (case ob_assign_blocks sob (the vid) vob s of (vob, s) \<Rightarrow> (Some vob, s)))
             else
               (case ob_create_volume uuid now (sn_volume_name sn @ ''-restored'')
                       (gb_to_bytes (bytes_to_gb (sn_size_bytes sn)))
                       (''Restored from snapshot '' @ sn_name sn) None s of
                  (vob, s) \<Rightarrow> (case ob_assign_blocks sob uuid vob s of (vob, s) \<Rightarrow> (Some vob, s))))"

section \<open>The values the objects stand for\<close>

definition map_vals :: "('v \<Rightarrow> 'w) \<Rightarrow> ('k, 'v) dict \<Rightarrow> ('k, 'w) dict" where
  "map_vals f d = map (\<lambda>(k, v). (k, f v)) d"

lemma map_vals_Nil [simp]: "map_vals f [] = []"
  by (simp add: map_vals_def)

lemma map_vals_get [simp]: "dict_get (map_vals f d) k = map_option f (dict_get d k)"
  by (simp add: map_vals_def map_of_map)

lemma map_vals_set [simp]: "map_vals f (dict_set k v d) = dict_set k (f v) (map_vals f d)"
  unfolding map_vals_def by (induction d) auto

lemma map_vals_del [simp]: "map_vals f (dict_del k d) = dict_del k (map_vals f d)"
  unfolding map_vals_def AList.delete_eq by (induction d) auto

lemma wf_map_vals [simp]: "wf_dict (map_vals f d) = wf_dict d"
  by (simp add: wf_dict_def map_vals_def comp_def case_prod_beta)

lemma map_vals_cong:
  "wf_dict d \<Longrightarrow> (\<And>k v. dict_get d k = Some v \<Longrightarrow> f v = g v) \<Longrightarrow> map_vals f d = map_vals g d"
  unfolding map_vals_def by (rule map_cong) (auto simp: wf_dict_map_of)

lemma map_vals_set_cong:
  assumes "wf_dict d" and "\<And>k' v. dict_get d k' = Some v \<Longrightarrow> k' \<noteq> k \<Longrightarrow> f v = g v"
  shows "dict_set k x (map_vals f d) = dict_set k x (map_vals g d)"
  using assms
proof (induction d)
  case (Cons p d)
  obtain k' v where p: "p = (k', v)" by (cases p)
  have wf: "wf_dict d" and k': "dict_get d k' = None"
    using Cons.prems(1) p by (auto simp: wf_dict_def map_of_eq_None_iff)
  have other: "f v' = g v'" if "dict_get d j = Some v'" "j \<noteq> k" for j v'
    using Cons.prems(2)[of j v'] that p k' by (cases "j = k'") simp_all
  show ?case
  proof (cases "k' = k")
    case True
    have "map_vals f d = map_vals g d"
    proof (rule map_vals_cong[OF wf])
      show "f v' = g v'" if "dict_get d j = Some v'" for j v'
        using other[OF that] that k' True by (cases "j = k") simp_all
    qed
    then show ?thesis using True p by (simp add: map_vals_def)
  next
    case False
    then have "f v = g v" using Cons.prems(2)[of k' v] p by simp
    then show ?thesis using Cons.IH[OF wf other] False p by (simp add: map_vals_def)
  qed
qed simp

definition block_map_at :: "store \<Rightarrow> addr \<Rightarrow> block_map" where
  "block_map_at st d = map_vals (os_block st) (os_dict st d)"

definition volume_of :: "store \<Rightarrow> volume obj \<Rightarrow> volume" where
  "volume_of st ob = (ob_fields ob)\<lparr>v_blocks := block_map_at st (ob_blocks ob)\<rparr>"

definition snapshot_of :: "store \<Rightarrow> snapshot obj \<Rightarrow> snapshot" where
  "snapshot_of st ob = (ob_fields ob)\<lparr>sn_blocks := block_map_at st (ob_blocks ob)\<rparr>"

definition volumes_of :: "objects \<Rightarrow> (string, volume) dict" where
  "volumes_of s = map_vals (volume_of (oa_store s)) (oa_volumes s)"

definition snapshots_of :: "objects \<Rightarrow> (string, snapshot) dict" where
  "snapshots_of s = map_vals (snapshot_of (oa_store s)) (oa_snapshots s)"

lemma volume_of_simps [simp]:
  "v_id (volume_of st ob) = v_id (ob_fields ob)" "v_name (volume_of st ob) = v_name (ob_fields ob)"
  "v_size_bytes (volume_of st ob) = v_size_bytes (ob_fields ob)" "v_used_bytes (volume_of st ob) = v_used_bytes (ob_fields ob)"
  "v_logical_bytes (volume_of st ob) = v_logical_bytes (ob_fields ob)"
  "v_physical_bytes (volume_of st ob) = v_physical_bytes (ob_fields ob)" "v_tags (volume_of st ob) = v_tags (ob_fields ob)"
  "v_blocks (volume_of st ob) = block_map_at st (ob_blocks ob)"
  by (simp_all add: volume_of_def)

lemma snapshot_of_simps [simp]:
  "sn_name (snapshot_of st ob) = sn_name (ob_fields ob)" "sn_volume_id (snapshot_of st ob) = sn_volume_id (ob_fields ob)"
  "sn_volume_name (snapshot_of st ob) = sn_volume_name (ob_fields ob)"
  "sn_size_bytes (snapshot_of st ob) = sn_size_bytes (ob_fields ob)"
  "sn_used_bytes (snapshot_of st ob) = sn_used_bytes (ob_fields ob)"
  "sn_blocks (snapshot_of st ob) = block_map_at st (ob_blocks ob)"
  by (simp_all add: snapshot_of_def)

section \<open>What the operations leave alone\<close>

text \<open>
  A store that grew: the objects there were are as before, but for the dicts in \<open>D\<close>. No operation changes
  a \<^verbatim>\<open>VolumeBlock\<close>.
\<close>

definition extends :: "addr set \<Rightarrow> store \<Rightarrow> store \<Rightarrow> bool" where
  "extends D st st' \<longleftrightarrow> os_next st \<le> os_next st' \<and> (\<forall>a < os_next st. os_block st' a = os_block st a) \<and>
     (\<forall>a < os_next st. a \<notin> D \<longrightarrow> os_dict st' a = os_dict st a)"

definition dict_ok :: "store \<Rightarrow> addr \<Rightarrow> bool" where
  "dict_ok st a \<longleftrightarrow> a < os_next st \<and> wf_dict (os_dict st a) \<and> (\<forall>b \<in> snd ` set (os_dict st a). b < os_next st)"

lemma extends_refl [simp]: "extends D st st"
  by (simp add: extends_def)

lemma extends_trans: "extends D st st' \<Longrightarrow> extends D st' st'' \<Longrightarrow> extends D st st''"
  by (simp add: extends_def)

lemma extends_fresh: "extends D st st' \<Longrightarrow> (\<And>d. d \<in> D \<Longrightarrow> os_next st \<le> d) \<Longrightarrow> extends {} st st'"
  by (fastforce simp: extends_def)

lemma extends_mono: "extends D st st' \<Longrightarrow> D \<subseteq> E \<Longrightarrow> extends E st st'"
  by (auto simp: extends_def)

lemma extends_keeps:
  assumes "extends D st st'" and "dict_ok st a" and "a \<notin> D"
  shows "block_map_at st' a = block_map_at st a" and "dict_ok st' a"
proof -
  have d: "os_dict st' a = os_dict st a" using assms by (simp add: extends_def dict_ok_def)
  show "dict_ok st' a" using assms d by (auto simp: extends_def dict_ok_def intro: less_le_trans)
  show "block_map_at st' a = block_map_at st a"
    unfolding block_map_at_def d using assms(1,2)
    by (intro map_vals_cong) (auto simp: dict_ok_def extends_def dest!: map_of_SomeD)
qed

lemma new_dict_ok:
  assumes "new_dict st = (d, st')"
  shows "d = os_next st" "extends {} st st'" "dict_ok st' d" "block_map_at st' d = []"
  using assms by (auto simp: new_dict_def extends_def dict_ok_def block_map_at_def)

lemma copy_dict_ok:
  assumes "copy_dict a st = (d, st')" and "dict_ok st a"
  shows "d = os_next st" "extends {} st st'" "dict_ok st' d" "block_map_at st' d = block_map_at st a"
proof -
  have st': "d = os_next st" "st' = st\<lparr>os_next := os_next st + 1, os_dict := (os_dict st)(os_next st := os_dict st a)\<rparr>"
    using assms(1) by (auto simp: copy_dict_def)
  have "\<forall>b \<in> snd ` set (os_dict st a). b < os_next st + 1" using assms(2) less_SucI by (fastforce simp: dict_ok_def)
  then show "dict_ok st' d" using assms(2) by (simp add: st' dict_ok_def)
  show "d = os_next st" "extends {} st st'" "block_map_at st' d = block_map_at st a"
    by (simp_all add: st' extends_def block_map_at_def)
qed

lemma put_new_block_ok:
  assumes "new_block x st = (b, st1)" and "dict_ok st d"
  shows "extends {d} st (put_block d off b st1)" "dict_ok (put_block d off b st1) d"
    and "block_map_at (put_block d off b st1) d = dict_set off x (block_map_at st d)"
proof -
  have st1: "b = os_next st" "st1 = st\<lparr>os_next := os_next st + 1, os_block := (os_block st)(os_next st := x)\<rparr>"
    using assms(1) by (auto simp: new_block_def)
  show "extends {d} st (put_block d off b st1)" by (simp add: st1 extends_def put_block_def)
  have "b' < os_next st + 1" if "(k, b') \<in> set (dict_set off b (os_dict st d))" for k b'
  proof -
    have "wf_dict (dict_set off b (os_dict st d))" using assms(2) by (simp add: dict_ok_def)
    with that have "dict_get (dict_set off b (os_dict st d)) k = Some b'" by (simp add: wf_dict_map_of)
    then have "b' = os_next st \<or> (k, b') \<in> set (os_dict st d)"
      using st1(1) map_of_SomeD[of "os_dict st d" k b'] by (simp split: if_splits)
    moreover have "b' < os_next st" if "(k, b') \<in> set (os_dict st d)"
      using assms(2) that unfolding dict_ok_def by force
    ultimately show ?thesis by linarith
  qed
  then show "dict_ok (put_block d off b st1) d" using assms(2) by (auto simp: st1 dict_ok_def put_block_def)
  have "map_vals (os_block st1) (os_dict st d) = map_vals (os_block st) (os_dict st d)"
    using assms(2) by (intro map_vals_cong) (auto simp: dict_ok_def st1 dest!: map_of_SomeD)
  then show "block_map_at (put_block d off b st1) d = dict_set off x (block_map_at st d)"
    by (simp add: block_map_at_def put_block_def st1)
qed

lemma copy_blocks_ok:
  assumes "dict_ok st d" and "\<forall>b \<in> snd ` set items. b < os_next st"
  shows "extends {d} st (copy_blocks items d st) \<and> dict_ok (copy_blocks items d st) d \<and>
    block_map_at (copy_blocks items d st) d
    = fold (\<lambda>(off, b). dict_set off b) (map_vals (os_block st) items) (block_map_at st d)"
  using assms
proof (induction items arbitrary: st)
  case (Cons p items)
  obtain off b where p: "p = (off, b)" by (cases p)
  obtain b' st1 where n: "new_block (os_block st b) st = (b', st1)" by (metis surj_pair)
  let ?st = "put_block d off b' st1"
  note put = put_new_block_ok[OF n Cons.prems(1), of off]
  have items: "\<forall>x \<in> snd ` set items. x < os_next ?st"
    using Cons.prems(2) put(1) by (auto simp: extends_def intro: less_le_trans)
  have "map_vals (os_block ?st) items = map_vals (os_block st) items"
    unfolding map_vals_def using Cons.prems(2) put(1) by (intro map_cong) (auto simp: extends_def)
  note IH = Cons.IH[OF put(2) items, unfolded this put(3)]
  have "extends {d} st (copy_blocks items d ?st)" using extends_trans[OF put(1)] IH by blast
  then show ?case using IH p n by (simp add: map_vals_def)
qed (simp add: map_vals_def)

section \<open>No dict is shared\<close>

fun owns :: "objects \<Rightarrow> string + string \<Rightarrow> addr option" where
  "owns s (Inl vid) = map_option ob_blocks (dict_get (oa_volumes s) vid)"
| "owns s (Inr sid) = map_option ob_blocks (dict_get (oa_snapshots s) sid)"

definition obj_ok :: "objects \<Rightarrow> bool" where
  "obj_ok s \<longleftrightarrow> wf_dict (oa_volumes s) \<and> wf_dict (oa_snapshots s) \<and>
     (\<forall>x a. owns s x = Some a \<longrightarrow> dict_ok (oa_store s) a) \<and>
     (\<forall>x y a. owns s x = Some a \<longrightarrow> owns s y = Some a \<longrightarrow> x = y)"

lemma obj_okD:
  assumes "obj_ok s"
  shows "wf_dict (oa_volumes s)" "wf_dict (oa_snapshots s)" "owns s x = Some a \<Longrightarrow> dict_ok (oa_store s) a"
    and "owns s x = Some a \<Longrightarrow> owns s y = Some a \<Longrightarrow> x = y"
    and "dict_get (oa_volumes s) vid = Some vob \<Longrightarrow> dict_ok (oa_store s) (ob_blocks vob)"
    and "dict_get (oa_snapshots s) sid = Some sob \<Longrightarrow> dict_ok (oa_store s) (ob_blocks sob)"
proof -
  note ok = assms[unfolded obj_ok_def]
  show "wf_dict (oa_volumes s)" "wf_dict (oa_snapshots s)" using ok by auto
  show d: "owns s x = Some a \<Longrightarrow> dict_ok (oa_store s) a" for x a using ok by blast
  show "owns s x = Some a \<Longrightarrow> owns s y = Some a \<Longrightarrow> x = y" using ok by blast
  show "dict_get (oa_volumes s) vid = Some vob \<Longrightarrow> dict_ok (oa_store s) (ob_blocks vob)" using d[of "Inl vid"] by simp
  show "dict_get (oa_snapshots s) sid = Some sob \<Longrightarrow> dict_ok (oa_store s) (ob_blocks sob)" using d[of "Inr sid"] by simp
qed

text \<open>
  The two ways a table changes: the object filed under an id is replaced, with a dict that no other object has and a store
  in which the dicts of the other objects are as before.
\<close>

lemma set_volume_ok:
  assumes ok: "obj_ok s" and ext: "extends D (oa_store s) (oa_store s')"
    and vols: "oa_volumes s' = dict_set vid ob (oa_volumes s)" and snaps: "oa_snapshots s' = oa_snapshots s"
    and ob: "dict_ok (oa_store s') (ob_blocks ob)"
    and apart: "\<And>y a. owns s y = Some a \<Longrightarrow> y \<noteq> Inl vid \<Longrightarrow> a \<notin> D \<and> a \<noteq> ob_blocks ob"
  shows "obj_ok s'" and "volumes_of s' = dict_set vid (volume_of (oa_store s') ob) (volumes_of s)"
    and "snapshots_of s' = snapshots_of s"
proof -
  have own: "owns s' y = (if y = Inl vid then Some (ob_blocks ob) else owns s y)" for y
    by (cases y) (auto simp: vols snaps)
  have keep: "block_map_at (oa_store s') a = block_map_at (oa_store s) a" "dict_ok (oa_store s') a"
    if "owns s y = Some a" "y \<noteq> Inl vid" for y a
    using extends_keeps[OF ext obj_okD(3)[OF ok that(1)]] apart[OF that] by blast+
  have "wf_dict (oa_volumes s')" "wf_dict (oa_snapshots s')" using obj_okD(1,2)[OF ok] by (simp_all add: vols snaps)
  moreover have "dict_ok (oa_store s') a" if "owns s' y = Some a" for y a
    using that ob keep(2)[of y a] unfolding own by (auto split: if_splits)
  moreover have "x = y" if "owns s' x = Some a" "owns s' y = Some a" for x y a
    using that obj_okD(4)[OF ok, of x a y] apart[of x a] apart[of y a] unfolding own by (auto split: if_splits)
  ultimately show "obj_ok s'" unfolding obj_ok_def by blast
  show "volumes_of s' = dict_set vid (volume_of (oa_store s') ob) (volumes_of s)"
    unfolding volumes_of_def vols map_vals_set
    by (rule map_vals_set_cong[OF obj_okD(1)[OF ok]])
      (use keep(1)[of "Inl k" for k] in \<open>force simp: volume_of_def\<close>)
  show "snapshots_of s' = snapshots_of s"
    unfolding snapshots_of_def snaps
    by (rule map_vals_cong[OF obj_okD(2)[OF ok]])
      (use keep(1)[of "Inr k" for k] in \<open>force simp: snapshot_of_def\<close>)
qed

lemma set_snapshot_ok:
  assumes ok: "obj_ok s" and ext: "extends {} (oa_store s) (oa_store s')"
    and vols: "oa_volumes s' = oa_volumes s" and snaps: "oa_snapshots s' = dict_set sid ob (oa_snapshots s)"
    and ob: "dict_ok (oa_store s') (ob_blocks ob)"
    and apart: "\<And>y a. owns s y = Some a \<Longrightarrow> y \<noteq> Inr sid \<Longrightarrow> a \<noteq> ob_blocks ob"
  shows "obj_ok s'" and "volumes_of s' = volumes_of s"
    and "snapshots_of s' = dict_set sid (snapshot_of (oa_store s') ob) (snapshots_of s)"
proof -
  have own: "owns s' y = (if y = Inr sid then Some (ob_blocks ob) else owns s y)" for y
    by (cases y) (auto simp: vols snaps)
  have keep: "block_map_at (oa_store s') a = block_map_at (oa_store s) a" "dict_ok (oa_store s') a"
    if "owns s y = Some a" for y a
    using extends_keeps[OF ext obj_okD(3)[OF ok that]] by simp_all
  have "wf_dict (oa_volumes s')" "wf_dict (oa_snapshots s')" using obj_okD(1,2)[OF ok] by (simp_all add: vols snaps)
  moreover have "dict_ok (oa_store s') a" if "owns s' y = Some a" for y a
    using that ob keep(2)[of y a] unfolding own by (auto split: if_splits)
  moreover have "x = y" if "owns s' x = Some a" "owns s' y = Some a" for x y a
    using that obj_okD(4)[OF ok, of x a y] apart[of x a] apart[of y a] unfolding own by (auto split: if_splits)
  ultimately show "obj_ok s'" unfolding obj_ok_def by blast
  show "volumes_of s' = volumes_of s"
    unfolding volumes_of_def vols
    by (rule map_vals_cong[OF obj_okD(1)[OF ok]]) (use keep(1)[of "Inl k" for k] in \<open>force simp: volume_of_def\<close>)
  show "snapshots_of s' = dict_set sid (snapshot_of (oa_store s') ob) (snapshots_of s)"
    unfolding snapshots_of_def snaps map_vals_set
    by (rule map_vals_set_cong[OF obj_okD(2)[OF ok]]) (use keep(1)[of "Inr k" for k] in \<open>force simp: snapshot_of_def\<close>)
qed

lemma fresh_dict: "obj_ok s \<Longrightarrow> owns s y = Some a \<Longrightarrow> a < os_next (oa_store s)"
  using obj_okD(3) by (auto simp: dict_ok_def)

section \<open>Histories\<close>

text \<open>
  The calls, with the ids and the clock taken from the environment, and the answers of both models: the
  objects answer with the values they hold at that moment. \<open>OWrite\<close> is the part of a write that the volume manager does.
\<close>

datatype ob_call =
    OCreate string int string double string "tags option"
  | OUpdate int string "string option" "string option" "tags option"
  | OResize int string int
  | OWrite int string int string string int int
  | OClone string int string string string
  | ODelete string
  | OSnapshot string int string "string option" string
  | ODeleteSnapshot string
  | ORestore string int string "string option"
  | OGetVolume string
  | OGetSnapshot string

datatype ob_answer =
    Volume_is "volume option"
  | Resized_is "volume option result"
  | Snapshot_is "snapshot option"
  | Answer_is "bool result"

definition volume_now :: "volume obj option \<times> objects \<Rightarrow> ob_answer \<times> objects" where
  "volume_now = (\<lambda>(r, s). (Volume_is (map_option (volume_of (oa_store s)) r), s))"

fun ob_step :: "(int \<Rightarrow> string) \<Rightarrow> ob_call \<Rightarrow> objects \<Rightarrow> ob_answer \<times> objects" where
  "ob_step strftime (OCreate uuid now name size_gb description tags) s =
     (case ob_create_volume uuid now name (gb_to_bytes size_gb) description tags s of (ob, s) \<Rightarrow> volume_now (Some ob, s))"
| "ob_step strftime (OUpdate now vid name description tags) s = volume_now (ob_update_volume now vid name description tags s)"
| "ob_step strftime (OResize now vid new_size) s =
     (case ob_resize_volume now vid new_size s of
        (r, s) \<Rightarrow> (Resized_is (case r of Inl e \<Rightarrow> Inl e | Inr x \<Rightarrow> Inr (map_option (volume_of (oa_store s)) x)), s))"
| "ob_step strftime (OWrite now vid off bid fp sz ps) s =
     (case ob_write_block now vid off bid fp sz ps s of (r, s) \<Rightarrow> (Answer_is r, s))"
| "ob_step strftime (OClone uuid now src name description) s = volume_now (ob_clone_volume uuid now src name description s)"
| "ob_step strftime (ODelete vid) s = (case ob_delete_volume vid s of (ok, s) \<Rightarrow> (Answer_is (Inr ok), s))"
| "ob_step strftime (OSnapshot uuid now vid name description) s =
     (case ob_create_snapshot strftime uuid now vid name description s of
        (r, s) \<Rightarrow> (Snapshot_is (map_option (snapshot_of (oa_store s)) r), s))"
| "ob_step strftime (ODeleteSnapshot sid) s = (case ob_delete_snapshot sid s of (r, s) \<Rightarrow> (Answer_is r, s))"
| "ob_step strftime (ORestore uuid now sid vid) s = volume_now (ob_restore_snapshot uuid now sid vid s)"
| "ob_step strftime (OGetVolume vid) s = (Volume_is (dict_get (volumes_of s) vid), s)"
| "ob_step strftime (OGetSnapshot sid) s = (Snapshot_is (dict_get (snapshots_of s) sid), s)"

fun value_step :: "(int \<Rightarrow> string) \<Rightarrow> ob_call \<Rightarrow> controller \<Rightarrow> ob_answer \<times> controller" where
  "value_step strftime (OCreate uuid now name size_gb description tags) sc =
     (case sc_create_volume uuid now name size_gb description tags sc of (v, sc) \<Rightarrow> (Volume_is (Some v), sc))"
| "value_step strftime (OUpdate now vid name description tags) sc =
     (case vm_update_volume now vid name description tags (sc_volume_manager sc) of
        (r, vm) \<Rightarrow> (Volume_is r, sc\<lparr>sc_volume_manager := vm\<rparr>))"
| "value_step strftime (OResize now vid new_size) sc =
     (case vm_resize_volume now vid new_size (sc_volume_manager sc) of
        (r, vm) \<Rightarrow> (Resized_is r, sc\<lparr>sc_volume_manager := vm\<rparr>))"
| "value_step strftime (OWrite now vid off bid fp sz ps) sc =
     (case vm_write_block now vid off bid fp sz ps (sc_volume_manager sc) of
        (r, vm) \<Rightarrow> (Answer_is r, sc\<lparr>sc_volume_manager := vm\<rparr>))"
| "value_step strftime (OClone uuid now src name description) sc =
     (case sc_clone_volume uuid now src name description sc of (r, sc) \<Rightarrow> (Volume_is r, sc))"
| "value_step strftime (ODelete vid) sc =
     (case vm_delete_volume vid (sc_volume_manager sc) of (ok, vm) \<Rightarrow> (Answer_is (Inr ok), sc\<lparr>sc_volume_manager := vm\<rparr>))"
| "value_step strftime (OSnapshot uuid now vid name description) sc =
     (case sc_create_snapshot strftime uuid now vid name description sc of (r, sc) \<Rightarrow> (Snapshot_is r, sc))"
| "value_step strftime (ODeleteSnapshot sid) sc = (case sc_delete_snapshot sid sc of (r, sc) \<Rightarrow> (Answer_is r, sc))"
| "value_step strftime (ORestore uuid now sid vid) sc =
     (case sc_restore_snapshot uuid now sid vid sc of (r, sc) \<Rightarrow> (Volume_is r, sc))"
| "value_step strftime (OGetVolume vid) sc = (Volume_is (sc_get_volume sc vid), sc)"
| "value_step strftime (OGetSnapshot sid) sc = (Snapshot_is (sc_get_snapshot sc sid), sc)"

fun ob_ids :: "ob_call \<Rightarrow> string list" where
  "ob_ids (OCreate uuid now name size_gb description tags) = [uuid]"
| "ob_ids (OClone uuid now src name description) = [uuid]"
| "ob_ids (OSnapshot uuid now vid name description) = [uuid]"
| "ob_ids (ORestore uuid now sid vid) = [uuid]"
| "ob_ids _ = []"

section \<open>The objects are answered as the values\<close>

definition holds_values :: "objects \<Rightarrow> controller \<Rightarrow> bool" where
  "holds_values s sc \<longleftrightarrow>
     vm_volumes (sc_volume_manager sc) = volumes_of s \<and> vm_stats (sc_volume_manager sc) = oa_vstats s \<and>
     sm_snapshots (sc_snapshot_manager sc) = snapshots_of s \<and> sm_volume_snapshots (sc_snapshot_manager sc) = oa_index s \<and>
     sm_stats (sc_snapshot_manager sc) = oa_sstats s"

definition value_rel :: "string set \<Rightarrow> objects \<Rightarrow> controller \<Rightarrow> bool" where
  "value_rel used s sc \<longleftrightarrow> obj_ok s \<and> holds_values s sc \<and> sm_inv (sc_snapshot_manager sc) \<and>
     dom (dict_get (oa_volumes s)) \<subseteq> used \<and> dom (dict_get (oa_snapshots s)) \<subseteq> used"

lemma dom_dict_set: "dom (dict_get (dict_set k v d)) = insert k (dom (dict_get d))"
  by (simp add: update_conv')

lemma volumes_get: "dict_get (volumes_of s) vid = map_option (volume_of (oa_store s)) (dict_get (oa_volumes s) vid)"
  by (simp add: volumes_of_def)

lemma snapshots_get:
  "dict_get (snapshots_of s) sid = map_option (snapshot_of (oa_store s)) (dict_get (oa_snapshots s) sid)"
  by (simp add: snapshots_of_def)

lemma create_objects:
  assumes ok: "obj_ok s" and run: "ob_create_volume uuid now name size_bytes description tags s = (ob, s')"
  shows "obj_ok s'" and "volumes_of s' = dict_set uuid (volume_of (oa_store s') ob) (volumes_of s)"
    and "snapshots_of s' = snapshots_of s" and "extends {} (oa_store s) (oa_store s')"
    and "ob_blocks ob = os_next (oa_store s)" and "block_map_at (oa_store s') (ob_blocks ob) = []"
    and "oa_volumes s' = dict_set uuid ob (oa_volumes s)" and "oa_snapshots s' = oa_snapshots s"
    and "oa_index s' = oa_index s" and "oa_sstats s' = oa_sstats s"
proof -
  obtain d st where n: "new_dict (oa_store s) = (d, st)" by (metis surj_pair)
  note nd = new_dict_ok[OF n]
  have s': "oa_store s' = st" "oa_volumes s' = dict_set uuid ob (oa_volumes s)" "oa_snapshots s' = oa_snapshots s"
    "ob_blocks ob = d" "oa_index s' = oa_index s" "oa_sstats s' = oa_sstats s"
    using run n by (auto simp: ob_create_volume_def Let_def)
  show "extends {} (oa_store s) (oa_store s')" "ob_blocks ob = os_next (oa_store s)"
    "block_map_at (oa_store s') (ob_blocks ob) = []"
    using nd s' by simp_all
  have apart: "a \<notin> {} \<and> a \<noteq> ob_blocks ob" if "owns s y = Some a" for y a
    using fresh_dict[OF ok that] nd(1) s'(4) by simp
  show "oa_volumes s' = dict_set uuid ob (oa_volumes s)" "oa_snapshots s' = oa_snapshots s"
    "oa_index s' = oa_index s" "oa_sstats s' = oa_sstats s" by (rule s')+
  have ext: "extends {} (oa_store s) (oa_store s')" and dok: "dict_ok (oa_store s') (ob_blocks ob)" using nd s' by simp_all
  show "obj_ok s'" "volumes_of s' = dict_set uuid (volume_of (oa_store s') ob) (volumes_of s)"
    "snapshots_of s' = snapshots_of s"
    by (rule set_volume_ok[OF ok ext s'(2,3) dok]; use apart in blast)+
qed

lemma value_relD:
  assumes "value_rel used s sc"
  shows "obj_ok s" "vm_volumes (sc_volume_manager sc) = volumes_of s" "vm_stats (sc_volume_manager sc) = oa_vstats s"
    "sm_snapshots (sc_snapshot_manager sc) = snapshots_of s" "sm_volume_snapshots (sc_snapshot_manager sc) = oa_index s"
    "sm_stats (sc_snapshot_manager sc) = oa_sstats s" "sm_inv (sc_snapshot_manager sc)"
    "dom (dict_get (oa_volumes s)) \<subseteq> used" "dom (dict_get (oa_snapshots s)) \<subseteq> used"
  using assms by (simp_all add: value_rel_def holds_values_def)

lemma volume_change:
  assumes rel: "value_rel used s sc" and "obj_ok s'" "vm_volumes vm' = volumes_of s'" "vm_stats vm' = oa_vstats s'"
    "snapshots_of s' = snapshots_of s" "oa_snapshots s' = oa_snapshots s" "oa_index s' = oa_index s"
    "oa_sstats s' = oa_sstats s" "dom (dict_get (oa_volumes s')) \<subseteq> used'" "used \<subseteq> used'"
  shows "value_rel used' s' (sc\<lparr>sc_volume_manager := vm'\<rparr>)"
  using value_relD[OF rel] assms(2-) by (auto simp: value_rel_def holds_values_def)

text \<open>An object that keeps its dict, in a store that did not change.\<close>

lemma set_fields_ok:
  assumes ok: "obj_ok s" and ob: "dict_get (oa_volumes s) vid = Some ob"
    and s': "oa_store s' = oa_store s" "oa_volumes s' = dict_set vid (ob\<lparr>ob_fields := v\<rparr>) (oa_volumes s)"
      "oa_snapshots s' = oa_snapshots s"
  shows "obj_ok s'" "volumes_of s' = dict_set vid (volume_of (oa_store s) (ob\<lparr>ob_fields := v\<rparr>)) (volumes_of s)"
    "snapshots_of s' = snapshots_of s"
proof -
  have apart: "a \<notin> {} \<and> a \<noteq> ob_blocks (ob\<lparr>ob_fields := v\<rparr>)" if "owns s y = Some a" "y \<noteq> Inl vid" for y a
    using obj_okD(4)[OF ok that(1), of "Inl vid"] ob that(2) by auto
  have ext: "extends {} (oa_store s) (oa_store s')" and dok: "dict_ok (oa_store s') (ob_blocks (ob\<lparr>ob_fields := v\<rparr>))"
    using obj_okD(5)[OF ok ob] s'(1) by simp_all
  show "obj_ok s'" "snapshots_of s' = snapshots_of s"
    by (rule set_volume_ok[OF ok ext s'(2,3) dok]; use apart in blast)+
  have "volumes_of s' = dict_set vid (volume_of (oa_store s') (ob\<lparr>ob_fields := v\<rparr>)) (volumes_of s)"
    by (rule set_volume_ok[OF ok ext s'(2,3) dok]; use apart in blast)
  then show "volumes_of s' = dict_set vid (volume_of (oa_store s) (ob\<lparr>ob_fields := v\<rparr>)) (volumes_of s)"
    unfolding s'(1) .
qed

lemma create_refines_values:
  assumes rel: "value_rel used s sc" and run: "ob_create_volume uuid now name size_bytes description tags s = (ob, s')"
    and c: "vm_create_volume uuid now name size_bytes description tags (sc_volume_manager sc) = (v, vm')"
  shows "v = volume_of (oa_store s') ob" and "value_rel (insert uuid used) s' (sc\<lparr>sc_volume_manager := vm'\<rparr>)"
proof -
  note V = value_relD[OF rel] and C = create_objects[OF value_relD(1)[OF rel] run]
  have ob: "ob_fields ob = \<lparr> v_id = uuid, v_name = name, v_size_bytes = size_bytes, v_created_at = now,
      v_updated_at = now, v_state = V_AVAILABLE, v_description = description, v_blocks = [], v_used_bytes = 0,
      v_logical_bytes = 0, v_physical_bytes = 0, v_tags = (case tags of None \<Rightarrow> [] | Some t \<Rightarrow> t) \<rparr>"
    "oa_vstats s' = (oa_vstats s)\<lparr> vs_total_volumes := vs_total_volumes (oa_vstats s) + 1,
      vs_total_provisioned_bytes := vs_total_provisioned_bytes (oa_vstats s) + size_bytes \<rparr>"
    using run by (auto simp: ob_create_volume_def Let_def split: prod.splits)
  have "v = ob_fields ob" using c ob(1) by (simp add: vm_create_volume_def Let_def)
  then show v: "v = volume_of (oa_store s') ob" using C(6) ob(1) by (simp add: volume_of_def)
  have "vm_volumes vm' = dict_set uuid v (volumes_of s)" "vm_stats vm' = oa_vstats s'"
    using c V(2,3) ob(2) by (auto simp: vm_create_volume_def put_volume_def Let_def)
  then show "value_rel (insert uuid used) s' (sc\<lparr>sc_volume_manager := vm'\<rparr>)"
    using C(1-3,8-10) V(8) v
    by (intro volume_change[OF rel]) (simp_all add: C(7) dom_dict_set subset_insertI subset_insertI2)
qed

lemma update_refines_values:
  assumes rel: "value_rel used s sc" and run: "ob_update_volume now vid name description tags s = (r, s')"
    and vm: "vm_update_volume now vid name description tags (sc_volume_manager sc) = (x, vm')"
  shows "x = map_option (volume_of (oa_store s')) r" and "value_rel used s' (sc\<lparr>sc_volume_manager := vm'\<rparr>)"
proof -
  note V = value_relD[OF rel]
  have "x = map_option (volume_of (oa_store s')) r \<and> value_rel used s' (sc\<lparr>sc_volume_manager := vm'\<rparr>)"
  proof (cases "dict_get (oa_volumes s) vid")
    case None
    then have "r = None" "s' = s" "x = None" "vm' = sc_volume_manager sc"
      using run vm V(2) by (simp_all add: ob_update_volume_def vm_update_volume_def volumes_get)
    then show ?thesis using rel by simp
  next
    case (Some ob)
    define g where "g v = (let v = (case name of None \<Rightarrow> v | Some n \<Rightarrow> v\<lparr>v_name := n\<rparr>);
        v = (case description of None \<Rightarrow> v | Some d \<Rightarrow> v\<lparr>v_description := d\<rparr>);
        v = (case tags of None \<Rightarrow> v | Some t \<Rightarrow> v\<lparr>v_tags := t\<rparr>) in v\<lparr>v_updated_at := now\<rparr>)" for v :: volume
    have comm: "g (volume_of st ob) = volume_of st (ob\<lparr>ob_fields := g (ob_fields ob)\<rparr>)" for st
      by (simp add: g_def volume_of_def Let_def split: option.split)
    have s': "r = Some (ob\<lparr>ob_fields := g (ob_fields ob)\<rparr>)"
      "s' = s\<lparr>oa_volumes := dict_set vid (ob\<lparr>ob_fields := g (ob_fields ob)\<rparr>) (oa_volumes s)\<rparr>"
      using run Some unfolding ob_update_volume_def g_def Let_def by simp_all
    have x: "x = Some (g (volume_of (oa_store s) ob))"
      "vm' = (sc_volume_manager sc)\<lparr>vm_volumes := dict_set vid (g (volume_of (oa_store s) ob)) (volumes_of s)\<rparr>"
      using vm Some V(2) unfolding vm_update_volume_def g_def Let_def by (simp_all add: volumes_get)
    have dom: "dom (dict_get (oa_volumes s')) \<subseteq> used" using V(8) Some s'(2) by (auto split: if_splits)
    have f: "oa_store s' = oa_store s" "oa_volumes s' = dict_set vid (ob\<lparr>ob_fields := g (ob_fields ob)\<rparr>) (oa_volumes s)"
      "oa_snapshots s' = oa_snapshots s"
      using s'(2) by simp_all
    note sf = set_fields_ok[OF V(1) Some f]
    have "value_rel used s' (sc\<lparr>sc_volume_manager := vm'\<rparr>)"
      by (rule volume_change[OF rel sf(1) _ _ sf(3) f(3)]) (use V(3) s'(2) x(2) sf(2) comm dom in simp_all)
    then show ?thesis using x(1) s'(1) f(1) comm by simp
  qed
  then show "x = map_option (volume_of (oa_store s')) r" "value_rel used s' (sc\<lparr>sc_volume_manager := vm'\<rparr>)" by blast+
qed

lemma resize_refines_values:
  assumes rel: "value_rel used s sc" and run: "ob_resize_volume now vid new_size s = (r, s')"
    and vm: "vm_resize_volume now vid new_size (sc_volume_manager sc) = (x, vm')"
  shows "x = (case r of Inl e \<Rightarrow> Inl e | Inr y \<Rightarrow> Inr (map_option (volume_of (oa_store s')) y)) \<and>
    value_rel used s' (sc\<lparr>sc_volume_manager := vm'\<rparr>)"
proof (cases "dict_get (oa_volumes s) vid")
  case None
  then have "r = Inr None" "s' = s" "x = Inr None" "vm' = sc_volume_manager sc"
    using run vm value_relD(2)[OF rel] by (simp_all add: ob_resize_volume_def vm_resize_volume_def volumes_get)
  then show ?thesis using rel by simp
next
  case (Some ob)
  note V = value_relD[OF rel]
  show ?thesis
  proof (cases "new_size < v_size_bytes (ob_fields ob)")
    case True
    then have "r = Inl (ValueError ''Cannot shrink volume'')" "s' = s"
      "x = Inl (ValueError ''Cannot shrink volume'')" "vm' = sc_volume_manager sc"
      using run vm V(2) Some by (simp_all add: ob_resize_volume_def vm_resize_volume_def volumes_get)
    then show ?thesis using rel by simp
  next
    case False
    let ?v = "(ob_fields ob)\<lparr>v_size_bytes := new_size, v_updated_at := now\<rparr>"
    have s': "r = Inr (Some (ob\<lparr>ob_fields := ?v\<rparr>))" "oa_store s' = oa_store s"
      "oa_volumes s' = dict_set vid (ob\<lparr>ob_fields := ?v\<rparr>) (oa_volumes s)" "oa_snapshots s' = oa_snapshots s"
      "oa_index s' = oa_index s" "oa_sstats s' = oa_sstats s"
      using run Some False by (auto simp: ob_resize_volume_def Let_def)
    have comm: "volume_of (oa_store s) (ob\<lparr>ob_fields := ?v\<rparr>) = (volume_of (oa_store s) ob)\<lparr>v_size_bytes := new_size, v_updated_at := now\<rparr>"
      by (simp add: volume_of_def)
    have x: "x = Inr (Some (volume_of (oa_store s) (ob\<lparr>ob_fields := ?v\<rparr>)))"
      "vm_volumes vm' = dict_set vid (volume_of (oa_store s) (ob\<lparr>ob_fields := ?v\<rparr>)) (volumes_of s)" "vm_stats vm' = oa_vstats s'"
      unfolding comm using run vm Some False V(2,3)
      by (auto simp: ob_resize_volume_def vm_resize_volume_def volumes_get Let_def)
    have dom: "dom (dict_get (oa_volumes s')) \<subseteq> used" using V(8) Some s'(3) by (auto split: if_splits)
    note sf = set_fields_ok[OF V(1) Some s'(2-4)]
    have "value_rel used s' (sc\<lparr>sc_volume_manager := vm'\<rparr>)"
      by (rule volume_change[OF rel sf(1) _ x(3) sf(3) s'(4-6) dom]) (use x(2) sf(2) in simp_all)
    then show ?thesis using x(1) s'(1,2) by simp
  qed
qed

lemma write_refines_values:
  assumes rel: "value_rel used s sc" and run: "ob_write_block now vid off bid fp sz ps s = (r, s')"
    and vm: "vm_write_block now vid off bid fp sz ps (sc_volume_manager sc) = (x, vm')"
  shows "x = r \<and> value_rel used s' (sc\<lparr>sc_volume_manager := vm'\<rparr>)"
proof (cases "dict_get (oa_volumes s) vid")
  case None
  then have "r = Inr False" "s' = s" "x = Inr False" "vm' = sc_volume_manager sc"
    using run vm value_relD(2)[OF rel] by (simp_all add: ob_write_block_def vm_write_block_def volumes_get)
  then show ?thesis using rel by simp
next
  case (Some ob)
  note V = value_relD[OF rel]
  let ?st = "oa_store s" and ?v = "ob_fields ob"
  show ?thesis
  proof (cases "v_size_bytes ?v < off + sz")
    case True
    then have "r = Inl (ValueError ''Write exceeds volume size'')" "s' = s"
      "x = Inl (ValueError ''Write exceeds volume size'')" "vm' = sc_volume_manager sc"
      using run vm V(2) Some by (simp_all add: ob_write_block_def vm_write_block_def volumes_get)
    then show ?thesis using rel by simp
  next
    case False
    let ?b = "\<lparr>vb_offset = off, vb_block_id = bid, vb_fingerprint = fp, vb_size = sz\<rparr>"
    define old where "old = dict_get (block_map_at ?st (ob_blocks ob)) off"
    define w where "w v = (let v = (case old of None \<Rightarrow> v | Some b \<Rightarrow>
        v\<lparr>v_logical_bytes := v_logical_bytes v - vb_size b, v_used_bytes := v_used_bytes v - vb_size b\<rparr>)
      in v\<lparr>v_used_bytes := v_used_bytes v + sz, v_logical_bytes := v_logical_bytes v + sz,
           v_physical_bytes := ps, v_updated_at := now\<rparr>)" for v :: volume
    obtain b st1 where n: "new_block ?b ?st = (b, st1)" by (metis surj_pair)
    have ok: "dict_ok ?st (ob_blocks ob)" by (rule obj_okD(5)[OF V(1) Some])
    note put = put_new_block_ok[OF n ok, of off]
    have s': "r = Inr True" "oa_store s' = put_block (ob_blocks ob) off b st1"
      "oa_volumes s' = dict_set vid (ob\<lparr>ob_fields := w ?v\<rparr>) (oa_volumes s)" "oa_snapshots s' = oa_snapshots s"
      "oa_index s' = oa_index s" "oa_sstats s' = oa_sstats s"
      "oa_vstats s' = (oa_vstats s)\<lparr>vs_total_used_bytes := vs_total_used_bytes (oa_vstats s) + sz,
         vs_total_logical_bytes := vs_total_logical_bytes (oa_vstats s) + sz\<rparr>"
      using run Some False n
      by (auto simp: ob_write_block_def w_def old_def block_map_at_def Let_def split: option.split)
    have "volume_of (oa_store s') (ob\<lparr>ob_fields := w ?v\<rparr>) = (w (volume_of ?st ob))\<lparr>v_blocks := dict_set off ?b (block_map_at ?st (ob_blocks ob))\<rparr>"
      using put(3) s'(2) by (simp add: volume_of_def w_def Let_def split: option.split)
    moreover have "x = Inr True" "vm_volumes vm' = dict_set vid
        ((w (volume_of ?st ob))\<lparr>v_blocks := dict_set off ?b (block_map_at ?st (ob_blocks ob))\<rparr>) (volumes_of s)"
      "vm_stats vm' = oa_vstats s'"
      using vm Some False V(2,3) s'(7)
      by (auto simp: vm_write_block_def volumes_get w_def old_def Let_def split: option.split
          intro!: arg_cong[of _ _ "\<lambda>v. dict_set vid v (volumes_of s)"])
    ultimately have x: "x = Inr True" "vm_stats vm' = oa_vstats s'"
      "vm_volumes vm' = dict_set vid (volume_of (oa_store s') (ob\<lparr>ob_fields := w ?v\<rparr>)) (volumes_of s)"
      by simp_all
    have apart: "a \<notin> {ob_blocks ob} \<and> a \<noteq> ob_blocks (ob\<lparr>ob_fields := w ?v\<rparr>)" if "owns s y = Some a" "y \<noteq> Inl vid" for y a
      using obj_okD(4)[OF V(1) that(1), of "Inl vid"] Some that(2) by auto
    have ext: "extends {ob_blocks ob} ?st (oa_store s')" and dok: "dict_ok (oa_store s') (ob_blocks (ob\<lparr>ob_fields := w ?v\<rparr>))"
      using put s'(2) by simp_all
    have sv: "obj_ok s'" "volumes_of s' = dict_set vid (volume_of (oa_store s') (ob\<lparr>ob_fields := w ?v\<rparr>)) (volumes_of s)"
      "snapshots_of s' = snapshots_of s"
      by (rule set_volume_ok[OF V(1) ext s'(3,4) dok]; use apart in blast)+
    have dom: "dom (dict_get (oa_volumes s')) \<subseteq> used" using V(8) Some s'(3) by (auto simp: dom_dict_set)
    have "value_rel used s' (sc\<lparr>sc_volume_manager := vm'\<rparr>)"
      by (rule volume_change[OF rel sv(1) _ x(2) sv(3) s'(4-6) dom]) (use x(3) sv(2) in simp_all)
    then show ?thesis using x(1) s'(1) by simp
  qed
qed

lemma delete_refines_values:
  assumes rel: "value_rel used s sc" and run: "ob_delete_volume vid s = (ok, s')"
    and vm: "vm_delete_volume vid (sc_volume_manager sc) = (ok', vm')"
  shows "ok' = ok \<and> value_rel used s' (sc\<lparr>sc_volume_manager := vm'\<rparr>)"
proof (cases "dict_get (oa_volumes s) vid")
  case None
  then have "ok = False" "s' = s" "ok' = False" "vm' = sc_volume_manager sc"
    using run vm value_relD(2)[OF rel] by (simp_all add: ob_delete_volume_def vm_delete_volume_def volumes_get)
  then show ?thesis using rel by simp
next
  case (Some ob)
  note V = value_relD[OF rel]
  have s': "ok = True" "oa_store s' = oa_store s" "oa_volumes s' = dict_del vid (oa_volumes s)" "oa_snapshots s' = oa_snapshots s"
    "oa_index s' = oa_index s" "oa_sstats s' = oa_sstats s"
    using run Some by (auto simp: ob_delete_volume_def Let_def)
  have x: "ok' = True" "vm_volumes vm' = dict_del vid (volumes_of s)" "vm_stats vm' = oa_vstats s'"
    using run vm Some V(2,3) by (auto simp: ob_delete_volume_def vm_delete_volume_def volumes_get Let_def)
  have own: "owns s' y = (if y = Inl vid then None else owns s y)" for y by (cases y) (auto simp: s')
  have "obj_ok s'" unfolding obj_ok_def own using obj_okD(1-4)[OF V(1)] s'(2-4) by (auto split: if_splits)
  moreover have "volumes_of s' = dict_del vid (volumes_of s)" "snapshots_of s' = snapshots_of s"
    by (simp_all add: volumes_of_def snapshots_of_def s')
  moreover have "dom (dict_get (oa_volumes s')) \<subseteq> used" using V(8) s'(3) by (auto simp: delete_conv')
  ultimately have "value_rel used s' (sc\<lparr>sc_volume_manager := vm'\<rparr>)"
    by (intro volume_change[OF rel]) (use x s' in simp_all)
  then show ?thesis using x(1) s'(1) by simp
qed

text \<open>The loops that copy a map into a dict that was just made.\<close>

lemma copy_map_ok:
  assumes ext: "extends {} st st1" and d: "dict_ok st1 d" "block_map_at st1 d = []" and a: "dict_ok st a"
    and items: "items = os_dict st a"
  shows "extends {d} st1 (copy_blocks items d st1)" "dict_ok (copy_blocks items d st1) d"
    and "block_map_at (copy_blocks items d st1) d = fold (\<lambda>(off, b). dict_set off b) (block_map_at st a) []"
proof -
  have "\<forall>b \<in> snd ` set items. b < os_next st1"
    using a ext items by (auto simp: dict_ok_def extends_def intro: less_le_trans)
  note c = copy_blocks_ok[OF d(1) this]
  have "os_dict st1 a = os_dict st a" using ext a by (simp add: extends_def dict_ok_def)
  then have "map_vals (os_block st1) items = block_map_at st a"
    using extends_keeps(1)[OF ext a] items by (simp add: block_map_at_def)
  then show "extends {d} st1 (copy_blocks items d st1)" "dict_ok (copy_blocks items d st1) d"
    "block_map_at (copy_blocks items d st1) d = fold (\<lambda>(off, b). dict_set off b) (block_map_at st a) []"
    using c d(2) by simp_all
qed

lemma clone_refines_values:
  assumes rel: "value_rel used s sc" and run: "ob_clone_volume uuid now src name description s = (r, s')"
    and vm: "vm_clone_volume uuid now src name description (sc_volume_manager sc) = (x, vm')"
  shows "x = map_option (volume_of (oa_store s')) r \<and> value_rel (insert uuid used) s' (sc\<lparr>sc_volume_manager := vm'\<rparr>)"
proof (cases "dict_get (oa_volumes s) src")
  case None
  then have "r = None" "s' = s" "x = None" "vm' = sc_volume_manager sc"
    using run vm value_relD(2)[OF rel] by (simp_all add: ob_clone_volume_def vm_clone_volume_def volumes_get)
  then show ?thesis using rel by (auto simp: value_rel_def)
next
  case (Some source)
  note V = value_relD[OF rel]
  let ?f = "ob_fields source" and ?st = "oa_store s"
  let ?descr = "clone_description description (v_name ?f)"
  obtain c s1 where c: "ob_create_volume uuid now name (v_size_bytes ?f) ?descr (Some (v_tags ?f)) s = (c, s1)" by (metis surj_pair)
  obtain v vm1 where v: "vm_create_volume uuid now name (v_size_bytes ?f) ?descr (Some (v_tags ?f)) (sc_volume_manager sc) = (v, vm1)"
    by (metis surj_pair)
  note cv = create_refines_values[OF rel c v] and C = create_objects[OF V(1) c]
  note W = value_relD[OF cv(2)]
  define st2 where "st2 = copy_blocks (os_dict ?st (ob_blocks source)) (ob_blocks c) (oa_store s1)"
  let ?g = "\<lambda>w :: volume. w\<lparr>v_used_bytes := v_used_bytes ?f, v_logical_bytes := v_logical_bytes ?f, v_physical_bytes := 0\<rparr>"
  let ?c = "c\<lparr>ob_fields := ?g (ob_fields c)\<rparr>"
  have got: "dict_get (oa_volumes s1) uuid = Some c" by (simp add: C(7))
  note copy = copy_map_ok[OF C(4) obj_okD(5)[OF C(1) got] C(6) obj_okD(5)[OF V(1) Some] refl, folded st2_def]
  have s': "r = Some ?c" "oa_store s' = st2" "oa_volumes s' = dict_set uuid ?c (oa_volumes s1)" "oa_snapshots s' = oa_snapshots s1"
    "oa_index s' = oa_index s1" "oa_sstats s' = oa_sstats s1" "oa_vstats s' = oa_vstats s1"
    using run Some c by (auto simp: ob_clone_volume_def st2_def Let_def)
  define y where "y = volume_of st2 ?c"
  have id: "v_id v = uuid" "v_blocks v = []" using v by (auto simp: vm_create_volume_def Let_def)
  have y: "y = ?g (v\<lparr>v_blocks := fold (\<lambda>(off, b). dict_set off b) (block_map_at ?st (ob_blocks source)) []\<rparr>)"
    using copy(3) cv(1) by (simp add: y_def volume_of_def)
  have x: "x = Some y" "vm' = put_volume y vm1"
    using vm Some V(2) v id(2) y by (auto simp: vm_clone_volume_def volumes_get Let_def)
  have vm': "vm_volumes vm' = dict_set uuid y (volumes_of s1)" "vm_stats vm' = oa_vstats s1"
    using x(2) W(2,3) y id(1) by (simp_all add: put_volume_def)
  have apart: "a \<notin> {ob_blocks c} \<and> a \<noteq> ob_blocks ?c" if "owns s1 z = Some a" "z \<noteq> Inl uuid" for z a
    using obj_okD(4)[OF C(1) that(1), of "Inl uuid"] got that(2) by auto
  have ext: "extends {ob_blocks c} (oa_store s1) (oa_store s')" and dok: "dict_ok (oa_store s') (ob_blocks ?c)"
    using copy s'(2) by simp_all
  have sv: "obj_ok s'" "volumes_of s' = dict_set uuid (volume_of (oa_store s') ?c) (volumes_of s1)" "snapshots_of s' = snapshots_of s1"
    by (rule set_volume_ok[OF C(1) ext s'(3,4) dok]; use apart in blast)+
  have dom: "dom (dict_get (oa_volumes s')) \<subseteq> insert uuid used" using W(8) s'(3) by (auto simp: dom_dict_set)
  have "value_rel (insert uuid used) s' (sc\<lparr>sc_volume_manager := vm1\<rparr>\<lparr>sc_volume_manager := vm'\<rparr>)"
    by (rule volume_change[OF cv(2) sv(1) _ _ sv(3) s'(4-6) dom]) (use vm' sv(2) s'(2,7) in \<open>simp_all add: y_def\<close>)
  then show ?thesis using x(1) s'(1,2) by (simp add: y_def)
qed

lemma snapshot_refines_values:
  assumes rel: "value_rel used s sc" and fresh: "uuid \<notin> used"
    and run: "ob_create_snapshot strftime uuid now vid name description s = (r, s')"
    and sm: "sc_create_snapshot strftime uuid now vid name description sc = (x, sc')"
  shows "x = map_option (snapshot_of (oa_store s')) r \<and> value_rel (insert uuid used) s' sc'"
proof (cases "dict_get (oa_volumes s) vid")
  case None
  then have "r = None" "s' = s" "x = None" "sc' = sc"
    using run sm value_relD(2)[OF rel] by (simp_all add: ob_create_snapshot_def sc_create_snapshot_def vm_get_volume_def volumes_get)
  then show ?thesis using rel by (auto simp: value_rel_def)
next
  case (Some vol)
  note V = value_relD[OF rel]
  let ?v = "ob_fields vol" and ?st = "oa_store s" and ?sm = "sc_snapshot_manager sc"
  obtain d st1 where n: "new_dict ?st = (d, st1)" by (metis surj_pair)
  note nd = new_dict_ok[OF n]
  have vok: "dict_ok ?st (ob_blocks vol)" by (rule obj_okD(5)[OF V(1) Some])
  have same: "os_dict st1 (ob_blocks vol) = os_dict ?st (ob_blocks vol)" using nd(2) vok by (simp add: extends_def dict_ok_def)
  define st2 where "st2 = copy_blocks (os_dict ?st (ob_blocks vol)) d st1"
  note copy = copy_map_ok[OF nd(2-4) vok refl, folded st2_def]
  define ob where "ob = the r"
  have s': "r = Some ob" "ob_blocks ob = d" "oa_store s' = st2" "oa_volumes s' = oa_volumes s" "oa_vstats s' = oa_vstats s"
    "oa_snapshots s' = dict_set uuid ob (oa_snapshots s)"
    using run Some n same by (auto simp: ob_create_snapshot_def ob_def st2_def Let_def)
  obtain sm' where c: "sm_create_snapshot strftime uuid now (volume_of ?st vol) name description None ?sm = (the x, sm')"
    and x: "x = Some (the x)" "sc' = sc\<lparr>sc_snapshot_manager := sm'\<rparr>"
    using sm Some V(2) by (auto simp: sc_create_snapshot_def vm_get_volume_def volumes_get split: prod.splits)
  have sn: "the x = snapshot_of st2 ob"
    using c run Some n same copy(3)
    by (auto simp: ob_create_snapshot_def sm_create_snapshot_def snapshot_of_def ob_def st2_def Let_def)
  have t: "sm_snapshots sm' = dict_set uuid (the x) (snapshots_of s)" "sm_volume_snapshots sm' = oa_index s'" "sm_stats sm' = oa_sstats s'"
    using c run Some n V(4-6) by (auto simp: ob_create_snapshot_def sm_create_snapshot_def Let_def)
  have ext: "extends {} ?st (oa_store s')"
    using extends_trans[OF extends_mono[OF nd(2), of "{d}"] copy(1)] s'(3) nd(1) by (intro extends_fresh[of "{d}"]) auto
  have dok: "dict_ok (oa_store s') (ob_blocks ob)" using copy(2) s' by simp
  have apart: "a \<noteq> ob_blocks ob" if "owns s y = Some a" for y a using fresh_dict[OF V(1) that] nd(1) s'(2) by simp
  have ss: "obj_ok s'" "volumes_of s' = volumes_of s" "snapshots_of s' = dict_set uuid (snapshot_of (oa_store s') ob) (snapshots_of s)"
    by (rule set_snapshot_ok[OF V(1) ext s'(4,6) dok]; use apart in blast)+
  have "dict_get (sm_snapshots ?sm) uuid = None" using V(4,9) fresh by (auto simp: snapshots_get)
  from sm_inv_create[OF V(7) this c] have "sm_inv sm'" .
  moreover have "dom (dict_get (oa_snapshots s')) \<subseteq> insert uuid used" using V(9) s'(6) by (auto simp: dom_dict_set)
  ultimately have "value_rel (insert uuid used) s' sc'"
    unfolding value_rel_def holds_values_def x(2) using ss t sn V(2,3,8) s'(3-5) by auto
  then show ?thesis using x(1) sn s'(1,3) by simp
qed

lemma delete_snapshot_refines_values:
  assumes rel: "value_rel used s sc" and run: "ob_delete_snapshot sid s = (r, s')"
    and sm: "sc_delete_snapshot sid sc = (x, sc')"
  shows "x = r \<and> value_rel used s' sc'"
proof (cases "dict_get (oa_snapshots s) sid")
  case None
  then have "r = Inr False" "s' = s" "x = Inr False" "sc' = sc"
    using run sm value_relD(4)[OF rel] by (simp_all add: ob_delete_snapshot_def sc_delete_snapshot_def sm_get_snapshot_def snapshots_get)
  then show ?thesis using rel by simp
next
  case (Some ob)
  note V = value_relD[OF rel]
  let ?sm = "sc_snapshot_manager sc" and ?sn = "snapshot_of (oa_store s) ob"
  have sn: "dict_get (sm_snapshots ?sm) sid = Some ?sn" using Some V(4) by (simp add: snapshots_get)
  obtain ids sm' where d: "sm_delete_snapshot sid ?sm = (Inr True, sm')"
    "dict_get (oa_index s) (sn_volume_id (ob_fields ob)) = Some ids" "sid \<in> set ids"
    by (rule sm_delete_Some[OF V(7) sn]) (use V(5) in auto)
  have x: "x = Inr True" "sc' = sc\<lparr>sc_snapshot_manager := sm'\<rparr>"
    using sm d(1) sn by (simp_all add: sc_delete_snapshot_def sm_get_snapshot_def)
  have s': "r = Inr True" "oa_store s' = oa_store s" "oa_volumes s' = oa_volumes s" "oa_vstats s' = oa_vstats s"
    "oa_snapshots s' = dict_del sid (dict_set sid (ob\<lparr>ob_fields := (ob_fields ob)\<lparr>sn_state := S_DELETING\<rparr>\<rparr>) (oa_snapshots s))"
    using run Some d by (auto simp: ob_delete_snapshot_def Let_def)
  have comm: "snapshot_of (oa_store s) (ob\<lparr>ob_fields := (ob_fields ob)\<lparr>sn_state := S_DELETING\<rparr>\<rparr>) = ?sn\<lparr>sn_state := S_DELETING\<rparr>"
    by (simp add: snapshot_of_def)
  have t: "sm_volume_snapshots sm' = oa_index s'" "sm_stats sm' = oa_sstats s'"
    "sm_snapshots sm' = dict_del sid (dict_set sid (?sn\<lparr>sn_state := S_DELETING\<rparr>) (snapshots_of s))"
    using d run Some sn V(4-6) by (auto simp: ob_delete_snapshot_def sm_delete_snapshot_def Let_def)
  have vals: "volumes_of s' = volumes_of s"
    "snapshots_of s' = dict_del sid (dict_set sid (?sn\<lparr>sn_state := S_DELETING\<rparr>) (snapshots_of s))"
    by (simp_all add: volumes_of_def snapshots_of_def s' comm)
  have own: "owns s' y = (if y = Inr sid then None else owns s y)" for y by (cases y) (auto simp: s')
  have "obj_ok s'" unfolding obj_ok_def own using obj_okD(1-4)[OF V(1)] s'(2,3,5) by (auto split: if_splits)
  moreover have "sm_inv sm'" by (rule sm_inv_delete[OF V(7) d(1)])
  moreover have "dom (dict_get (oa_snapshots s')) \<subseteq> used" using V(9) s'(5) by (auto simp: delete_conv' update_conv')
  ultimately have "value_rel used s' sc'"
    unfolding value_rel_def holds_values_def x(2) using vals t V(2,3,8) s'(3,4) by simp
  then show ?thesis using x(1) s'(1) by simp
qed

text \<open>Assigning a copy of a snapshot's dict to a volume.\<close>

lemma assign_refines_values:
  assumes rel: "value_rel used s sc" and sob: "dict_get (oa_snapshots s) sid = Some sob"
    and vob: "dict_get (oa_volumes s) vid = Some vob" and run: "ob_assign_blocks sob vid vob s = (ob, s')"
  shows "volume_of (oa_store s') ob = restore_blocks (snapshot_of (oa_store s) sob) (volume_of (oa_store s) vob)"
    and "value_rel used s' (sc\<lparr>sc_volume_manager := (sc_volume_manager sc)\<lparr>vm_volumes :=
      dict_set vid (restore_blocks (snapshot_of (oa_store s) sob) (volume_of (oa_store s) vob)) (volumes_of s)\<rparr>\<rparr>)"
proof -
  note V = value_relD[OF rel]
  obtain d st where n: "copy_dict (ob_blocks sob) (oa_store s) = (d, st)" by (metis surj_pair)
  note cd = copy_dict_ok[OF n obj_okD(6)[OF V(1) sob]]
  have s': "ob = \<lparr>ob_fields = (ob_fields vob)\<lparr>v_used_bytes := sn_used_bytes (ob_fields sob)\<rparr>, ob_blocks = d\<rparr>"
    "s' = s\<lparr>oa_store := st, oa_volumes := dict_set vid ob (oa_volumes s)\<rparr>"
    using run n by (auto simp: ob_assign_blocks_def Let_def)
  have f: "oa_volumes s' = dict_set vid ob (oa_volumes s)" "oa_snapshots s' = oa_snapshots s" by (simp_all add: s'(2))
  show v: "volume_of (oa_store s') ob = restore_blocks (snapshot_of (oa_store s) sob) (volume_of (oa_store s) vob)"
    using cd(4) s' by (simp add: volume_of_def restore_blocks_def)
  have apart: "a \<notin> {} \<and> a \<noteq> ob_blocks ob" if "owns s y = Some a" for y a
    using fresh_dict[OF V(1) that] cd(1) s'(1) by simp
  have ext: "extends {} (oa_store s) (oa_store s')" and dok: "dict_ok (oa_store s') (ob_blocks ob)" using cd s' by simp_all
  have sv: "obj_ok s'" "volumes_of s' = dict_set vid (volume_of (oa_store s') ob) (volumes_of s)" "snapshots_of s' = snapshots_of s"
    by (rule set_volume_ok[OF V(1) ext f dok]; use apart in blast)+
  have dom: "dom (dict_get (oa_volumes s')) \<subseteq> used" using V(8) vob f(1) by (auto simp: dom_dict_set)
  show "value_rel used s' (sc\<lparr>sc_volume_manager := (sc_volume_manager sc)\<lparr>vm_volumes :=
      dict_set vid (restore_blocks (snapshot_of (oa_store s) sob) (volume_of (oa_store s) vob)) (volumes_of s)\<rparr>\<rparr>)"
    by (rule volume_change[OF rel sv(1) _ _ sv(3) f(2)]) (use sv(2) v V(3) s'(2) dom in simp_all)
qed

lemma restore_refines_values:
  assumes rel: "value_rel used s sc" and run: "ob_restore_snapshot uuid now sid vid s = (r, s')"
    and sc: "sc_restore_snapshot uuid now sid vid sc = (x, sc')"
  shows "x = map_option (volume_of (oa_store s')) r \<and> value_rel (insert uuid used) s' sc'"
proof (cases "dict_get (oa_snapshots s) sid")
  case None
  then have "r = None" "s' = s" "x = None" "sc' = sc"
    using run sc value_relD(4)[OF rel] by (simp_all add: ob_restore_snapshot_def sc_restore_snapshot_def sm_get_snapshot_def snapshots_get)
  then show ?thesis using rel by (auto simp: value_rel_def)
next
  case (Some sob)
  note V = value_relD[OF rel]
  let ?sn = "snapshot_of (oa_store s) sob"
  have sn: "sm_get_snapshot (sc_snapshot_manager sc) sid = Some ?sn" using Some V(4) by (simp add: sm_get_snapshot_def snapshots_get)
  have weaken: "value_rel (insert uuid used) t c" if "value_rel used t c" for t c using that by (auto simp: value_rel_def)
  show ?thesis
  proof (cases "vid \<noteq> None \<and> vid \<noteq> Some []")
    case True
    show ?thesis
    proof (cases "dict_get (oa_volumes s) (the vid)")
      case None
      then have "r = None" "s' = s" "x = None" "sc' = sc"
        using run sc Some True sn V(2) by (simp_all add: ob_restore_snapshot_def sc_restore_snapshot_def vm_get_volume_def volumes_get)
      then show ?thesis using rel weaken by simp
    next
      case vob: (Some vob)
      obtain ob s1 where a: "ob_assign_blocks sob (the vid) vob s = (ob, s1)" by (metis surj_pair)
      note as = assign_refines_values[OF rel Some vob a]
      have "r = Some ob" "s' = s1" using run Some True vob a by (simp_all add: ob_restore_snapshot_def)
      moreover have "x = Some (restore_blocks ?sn (volume_of (oa_store s) vob))"
        "sc' = sc\<lparr>sc_volume_manager := (sc_volume_manager sc)\<lparr>vm_volumes :=
           dict_set (the vid) (restore_blocks ?sn (volume_of (oa_store s) vob)) (volumes_of s)\<rparr>\<rparr>"
        using sc sn True vob V(2) by (simp_all add: sc_restore_snapshot_def vm_get_volume_def volumes_get)
      ultimately show ?thesis using as weaken by simp
    qed
  next
    case False
    let ?name = "sn_volume_name (ob_fields sob) @ ''-restored''" and ?size = "bytes_to_gb (sn_size_bytes (ob_fields sob))"
    let ?descr = "''Restored from snapshot '' @ sn_name (ob_fields sob)"
    obtain c s1 where c: "ob_create_volume uuid now ?name (gb_to_bytes ?size) ?descr None s = (c, s1)" by (metis surj_pair)
    obtain v vm1 where v: "vm_create_volume uuid now ?name (gb_to_bytes ?size) ?descr None (sc_volume_manager sc) = (v, vm1)"
      by (metis surj_pair)
    note cv = create_refines_values[OF rel c v] and C = create_objects[OF V(1) c]
    have got: "dict_get (oa_snapshots s1) sid = Some sob" "dict_get (oa_volumes s1) uuid = Some c" using C(7,8) Some by simp_all
    have sn1: "snapshot_of (oa_store s1) sob = ?sn"
      using extends_keeps(1)[OF C(4) obj_okD(6)[OF V(1) Some]] by (simp add: snapshot_of_def)
    obtain ob s2 where a: "ob_assign_blocks sob uuid c s1 = (ob, s2)" by (metis surj_pair)
    note as = assign_refines_values[OF cv(2) got a, unfolded sn1]
    have "r = Some ob" "s' = s2" using run Some False c a by (auto simp: ob_restore_snapshot_def Let_def)
    moreover have id: "v_id v = uuid" using v by (auto simp: vm_create_volume_def Let_def)
    moreover have "x = Some (restore_blocks ?sn v)" "sc' = sc\<lparr>sc_volume_manager := put_volume (restore_blocks ?sn v) vm1\<rparr>"
      using sc sn False v by (auto simp: sc_restore_snapshot_def sc_create_volume_def)
    moreover have "vm_volumes vm1 = volumes_of s1" using value_relD(2)[OF cv(2)] by simp
    ultimately show ?thesis
      using as cv(1) by (simp add: put_volume_def restore_blocks_def)
  qed
qed

lemma ob_step_refines:
  assumes rel: "value_rel used s sc" and fresh: "set (ob_ids c) \<inter> used = {}" and run: "ob_step strftime c s = (a, s')"
  shows "\<exists>sc'. value_step strftime c sc = (a, sc') \<and> value_rel (used \<union> set (ob_ids c)) s' sc'"
proof (cases c)
  case (OCreate uuid now name size_gb description tags)
  obtain ob s1 where o: "ob_create_volume uuid now name (gb_to_bytes size_gb) description tags s = (ob, s1)" by (metis surj_pair)
  obtain v vm' where v: "vm_create_volume uuid now name (gb_to_bytes size_gb) description tags (sc_volume_manager sc) = (v, vm')"
    by (metis surj_pair)
  show ?thesis using create_refines_values[OF rel o v] run o v OCreate by (auto simp: volume_now_def sc_create_volume_def)
next
  case (OUpdate now vid name description tags)
  obtain r s1 where o: "ob_update_volume now vid name description tags s = (r, s1)" by (metis surj_pair)
  obtain x vm' where v: "vm_update_volume now vid name description tags (sc_volume_manager sc) = (x, vm')" by (metis surj_pair)
  show ?thesis using update_refines_values[OF rel o v] run o v OUpdate by (auto simp: volume_now_def)
next
  case (OResize now vid new_size)
  obtain r s1 where o: "ob_resize_volume now vid new_size s = (r, s1)" by (metis surj_pair)
  obtain x vm' where v: "vm_resize_volume now vid new_size (sc_volume_manager sc) = (x, vm')" by (metis surj_pair)
  show ?thesis using resize_refines_values[OF rel o v] run o v OResize by auto
next
  case (OWrite now vid off bid fp sz ps)
  obtain r s1 where o: "ob_write_block now vid off bid fp sz ps s = (r, s1)" by (metis surj_pair)
  obtain x vm' where v: "vm_write_block now vid off bid fp sz ps (sc_volume_manager sc) = (x, vm')" by (metis surj_pair)
  show ?thesis using write_refines_values[OF rel o v] run o v OWrite by auto
next
  case (OClone uuid now src name description)
  obtain r s1 where o: "ob_clone_volume uuid now src name description s = (r, s1)" by (metis surj_pair)
  obtain x vm' where v: "vm_clone_volume uuid now src name description (sc_volume_manager sc) = (x, vm')" by (metis surj_pair)
  show ?thesis using clone_refines_values[OF rel o v] run o v OClone by (auto simp: volume_now_def sc_clone_volume_def)
next
  case (ODelete vid)
  obtain r s1 where o: "ob_delete_volume vid s = (r, s1)" by (metis surj_pair)
  obtain x vm' where v: "vm_delete_volume vid (sc_volume_manager sc) = (x, vm')" by (metis surj_pair)
  show ?thesis using delete_refines_values[OF rel o v] run o v ODelete by auto
next
  case (OSnapshot uuid now vid name description)
  obtain r s1 where o: "ob_create_snapshot strftime uuid now vid name description s = (r, s1)" by (metis surj_pair)
  obtain x sc' where v: "sc_create_snapshot strftime uuid now vid name description sc = (x, sc')" by (metis surj_pair)
  have "uuid \<notin> used" using fresh OSnapshot by simp
  from snapshot_refines_values[OF rel this o v] show ?thesis using run o v OSnapshot by auto
next
  case (ODeleteSnapshot sid)
  obtain r s1 where o: "ob_delete_snapshot sid s = (r, s1)" by (metis surj_pair)
  obtain x sc' where v: "sc_delete_snapshot sid sc = (x, sc')" by (metis surj_pair)
  show ?thesis using delete_snapshot_refines_values[OF rel o v] run o v ODeleteSnapshot by auto
next
  case (ORestore uuid now sid vid)
  obtain r s1 where o: "ob_restore_snapshot uuid now sid vid s = (r, s1)" by (metis surj_pair)
  obtain x sc' where v: "sc_restore_snapshot uuid now sid vid sc = (x, sc')" by (metis surj_pair)
  show ?thesis using restore_refines_values[OF rel o v] run o v ORestore by (auto simp: volume_now_def)
next
  case (OGetVolume vid)
  then show ?thesis using rel run value_relD(2)[OF rel] by (auto simp: sc_get_volume_def vm_get_volume_def)
next
  case (OGetSnapshot sid)
  then show ?thesis using rel run value_relD(4)[OF rel] by (auto simp: sc_get_snapshot_def sm_get_snapshot_def)
qed

interpretation block_maps: simulation "ob_step strftime" "value_step strftime" "\<lambda>a. a" value_rel ob_ids "\<lambda>_. True"
  by unfold_locales (rule ob_step_refines)

lemma value_rel_init:
  "value_rel {} no_objects (sc\<lparr>sc_volume_manager := VolumeManager bs, sc_snapshot_manager := SnapshotManager\<rparr>)"
proof -
  have "owns no_objects y = None" for y by (cases y) (simp_all add: no_objects_def)
  then have "obj_ok no_objects" by (simp add: obj_ok_def) (simp add: no_objects_def)
  then show ?thesis
    using sm_inv_init by (simp add: value_rel_def holds_values_def volumes_of_def snapshots_of_def)
      (simp add: no_objects_def VolumeManager_def SnapshotManager_def)
qed

section \<open>Snapshots never change\<close>

lemma value_step_snapshot:
  assumes inv: "sm_inv (sc_snapshot_manager sc)" and run: "value_step strftime c sc = (a, sc')" and ids: "uuid \<notin> set (ob_ids c)"
  shows "dict_get (sm_snapshots (sc_snapshot_manager sc')) uuid
    = (if c = ODeleteSnapshot uuid then None else dict_get (sm_snapshots (sc_snapshot_manager sc)) uuid)"
proof (cases c)
  case (OSnapshot u now vid name description)
  then show ?thesis
    using run ids by (auto simp: sc_create_snapshot_def sm_create_snapshot_def Let_def split: option.splits)
next
  case (ODeleteSnapshot sid)
  show ?thesis
  proof (cases "dict_get (sm_snapshots (sc_snapshot_manager sc)) sid")
    case None
    then show ?thesis using run ODeleteSnapshot by (auto simp: sc_delete_snapshot_def sm_get_snapshot_def)
  next
    case (Some sn)
    show ?thesis
      by (rule sm_delete_Some[OF inv Some])
        (use run ODeleteSnapshot Some in \<open>auto simp: sc_delete_snapshot_def sm_get_snapshot_def\<close>)
  qed
qed (use run in \<open>auto simp: sc_create_volume_def sc_clone_volume_def sc_restore_snapshot_def split: prod.splits option.splits if_splits\<close>)

lemma snapshot_kept:
  assumes "value_rel used s sc" and "uuid \<in> used" and "distinct (concat (map ob_ids cs))"
    and "set (concat (map ob_ids cs)) \<inter> used = {}" and "run_calls (ob_step strftime) cs s = (as, s')"
  shows "dict_get (snapshots_of s') uuid
    = (if ODeleteSnapshot uuid \<in> set cs then None else dict_get (snapshots_of s) uuid)"
  using assms
proof (induction cs arbitrary: used s sc as)
  case (Cons c cs)
  obtain a s1 where c: "ob_step strftime c s = (a, s1)" by (metis surj_pair)
  obtain bs where r: "run_calls (ob_step strftime) cs s1 = (bs, s')" using Cons.prems(5) c by (auto split: prod.splits)
  have "set (ob_ids c) \<inter> used = {}" using Cons.prems(4) by auto
  from ob_step_refines[OF Cons.prems(1) this c] obtain sc1
    where v: "value_step strftime c sc = (a, sc1)" "value_rel (used \<union> set (ob_ids c)) s1 sc1" by (elim exE conjE)
  have "uuid \<notin> set (ob_ids c)" using Cons.prems(2,4) by auto
  from value_step_snapshot[OF value_relD(7)[OF Cons.prems(1)] v(1) this]
  have one: "dict_get (snapshots_of s1) uuid = (if c = ODeleteSnapshot uuid then None else dict_get (snapshots_of s) uuid)"
    using value_relD(4)[OF Cons.prems(1)] value_relD(4)[OF v(2)] by simp
  have "dict_get (snapshots_of s') uuid = (if ODeleteSnapshot uuid \<in> set cs then None else dict_get (snapshots_of s1) uuid)"
    by (rule Cons.IH[OF v(2) _ _ _ r]) (use Cons.prems(2-4) in auto)
  then show ?case using one by auto
qed simp

text \<open>
  C20. Snapshots are faithful and immutable, with the block maps as shared, mutable objects. After any history of creating, updating,
  resizing, writing, cloning and deleting volumes and of taking, deleting and restoring snapshots (into new and into existing
  volumes), a new snapshot of a volume holds exactly the block map, the size and the used bytes the volume has at
  that moment; and after any further history -- overwriting the volume, deleting it, restoring the snapshot and
  writing to the volume restored -- it is exactly the same, unless it was deleted, and then it is gone. Ids are not reused.
\<close>

theorem snapshot_immutable:
  assumes "run_calls (ob_step strftime) before no_objects = (as, s)" and v: "dict_get (volumes_of s) vid = Some v"
    and snap: "ob_step strftime (OSnapshot uuid now vid name description) s = (a, s1)"
    and "run_calls (ob_step strftime) after s1 = (bs, s2)"
    and ids: "distinct (concat (map ob_ids (before @ OSnapshot uuid now vid name description # after)))"
  shows "\<exists>sn. a = Snapshot_is (Some sn) \<and> sn_id sn = uuid \<and> sn_volume_id sn = v_id v \<and> sn_blocks sn = v_blocks v \<and>
    sn_size_bytes sn = v_size_bytes v \<and> sn_used_bytes sn = v_used_bytes v \<and>
    dict_get (snapshots_of s2) uuid = (if ODeleteSnapshot uuid \<in> set after then None else Some sn)"
proof -
  let ?c = "OSnapshot uuid now vid name description" and ?ids = "set (concat (map ob_ids before))"
  obtain sc where rel: "value_rel ({} \<union> ?ids) s sc"
    using block_maps.run_refines[OF value_rel_init _ _ _ assms(1)] ids by fastforce
  have "set (ob_ids ?c) \<inter> ({} \<union> ?ids) = {}" using ids by auto
  from ob_step_refines[OF rel this snap] obtain sc1
    where c: "value_step strftime ?c sc = (a, sc1)" "value_rel (({} \<union> ?ids) \<union> {uuid}) s1 sc1" by auto
  have "dict_get (vm_volumes (sc_volume_manager sc)) vid = Some v" using v value_relD(2)[OF rel] by simp
  then obtain sn sm where sn: "sm_create_snapshot strftime uuid now v name description None (sc_snapshot_manager sc) = (sn, sm)"
    "a = Snapshot_is (Some sn)" "sc1 = sc\<lparr>sc_snapshot_manager := sm\<rparr>"
    using c(1) by (auto simp: sc_create_snapshot_def vm_get_volume_def split: prod.splits)
  obtain vob where "dict_get (oa_volumes s) vid = Some vob" "v = volume_of (oa_store s) vob" using v by (auto simp: volumes_get)
  then have "wf_dict (v_blocks v)"
    using obj_okD(5)[OF value_relD(1)[OF rel]] by (auto simp: dict_ok_def block_map_at_def)
  then have f: "sn_id sn = uuid" "sn_volume_id sn = v_id v" "sn_blocks sn = v_blocks v" "sn_size_bytes sn = v_size_bytes v"
    "sn_used_bytes sn = v_used_bytes v" "dict_get (sm_snapshots sm) uuid = Some sn"
    using sn(1) dict_copy[of "[]" "v_blocks v"] by (auto simp: sm_create_snapshot_def Let_def)
  have "dict_get (snapshots_of s2) uuid = (if ODeleteSnapshot uuid \<in> set after then None else dict_get (snapshots_of s1) uuid)"
    by (rule snapshot_kept[OF c(2) _ _ _ assms(4)]) (use ids in auto)
  moreover have "dict_get (snapshots_of s1) uuid = Some sn" using value_relD(4)[OF c(2)] sn(3) f(6) by simp
  ultimately show ?thesis using sn(2) f by simp
qed

text \<open>A volume is written, snapshotted and overwritten.\<close>

theorem snapshot_immutable_witness:
  "let step = ob_step (\<lambda>_. ''now'');
       s = snd (run_calls step [OCreate ''v1'' 1 ''vol'' (bytes_to_gb 100) [] None, OWrite 2 ''v1'' 0 ''b1'' ''f1'' 8 8] no_objects);
       s1 = snd (step (OSnapshot ''s1'' 3 ''v1'' None []) s);
       s2 = snd (run_calls step [OWrite 4 ''v1'' 0 ''b2'' ''f2'' 8 8] s1)
   in map (vb_block_id \<circ> snd) (v_blocks (the (dict_get (volumes_of s2) ''v1''))) = [''b2''] \<and>
      (\<exists>sn. dict_get (snapshots_of s2) ''s1'' = Some sn \<and> map (vb_block_id \<circ> snd) (sn_blocks sn) = [''b1''])"
proof -
  let ?step = "ob_step (\<lambda>_. ''now'')"
  let ?before = "[OCreate ''v1'' 1 ''vol'' (bytes_to_gb 100) [] None, OWrite 2 ''v1'' 0 ''b1'' ''f1'' 8 8]"
  let ?after = "[OWrite 4 ''v1'' 0 ''b2'' ''f2'' 8 8]"
  define s where "s = snd (run_calls ?step ?before no_objects)"
  define s1 where "s1 = snd (?step (OSnapshot ''s1'' 3 ''v1'' None []) s)"
  define s2 where "s2 = snd (run_calls ?step ?after s1)"
  note defs = ob_create_volume_def ob_write_block_def ob_create_snapshot_def volume_now_def no_objects_def new_dict_def
    new_block_def put_block_def volumes_of_def block_map_at_def map_vals_def volume_of_def gb_to_bytes_exact Let_def
  have v: "dict_get (volumes_of s) ''v1'' = Some (volume_of (oa_store s) (the (dict_get (oa_volumes s) ''v1'')))"
    "map (vb_block_id \<circ> snd) (block_map_at (oa_store s) (ob_blocks (the (dict_get (oa_volumes s) ''v1'')))) = [''b1'']"
    by (simp_all add: s_def defs)
  have v2: "map (vb_block_id \<circ> snd) (v_blocks (the (dict_get (volumes_of s2) ''v1''))) = [''b2'']"
    by (simp add: s2_def s1_def s_def defs)
  have i: "distinct (concat (map ob_ids (?before @ OSnapshot ''s1'' 3 ''v1'' None [] # ?after)))" by simp
  have b: "run_calls ?step ?before no_objects = (fst (run_calls ?step ?before no_objects), s)"
    and c: "?step (OSnapshot ''s1'' 3 ''v1'' None []) s = (fst (?step (OSnapshot ''s1'' 3 ''v1'' None []) s), s1)"
    and a: "run_calls ?step ?after s1 = (fst (run_calls ?step ?after s1), s2)"
    unfolding s_def s1_def s2_def by (simp_all only: prod.collapse)
  have none: "ODeleteSnapshot ''s1'' \<notin> set ?after" by simp
  from snapshot_immutable [OF b v(1) c a i] obtain sn where "sn_blocks sn = v_blocks (volume_of (oa_store s)
      (the (dict_get (oa_volumes s) ''v1'')))" "dict_get (snapshots_of s2) ''s1'' = Some sn"
    unfolding if_not_P[OF none] by (elim exE conjE)
  with v(2) have "\<exists>sn. dict_get (snapshots_of s2) ''s1'' = Some sn \<and> map (vb_block_id \<circ> snd) (sn_blocks sn) = [''b1'']"
    by simp
  then show ?thesis using v2 unfolding Let_def s2_def s1_def s_def by (rule conjI[rotated])
qed

end
