(* ===== verification/Spec2Isabelle.thy ===== *)
theory Spec2Isabelle
  imports Application Block_Objects
begin

text \<open>
  \<^bold>\<open>A verification development for pstorage, the Python storage appliance under
  src/pstorage/src/pstorage.\<close>

  \<^bold>\<open>The program.\<close> A storage controller (core/controller.py) offers volumes and snapshots. A write goes
  through the reduction pipeline (purity/engine.py): pattern removal, deduplication, compression; the
  result is stored in a backend (storage/). Volumes and snapshots keep maps from offsets to stored
  blocks (core/volume_manager.py, core/snapshot_manager.py). Beside it the controller holds a flash
  simulator (directflash/) that keeps logical blocks on physical ones, with garbage collection and wear leveling.
  A node can be part of a cluster (activecluster/): a mediator keeps the membership and elects a primary, a failover
  controller moves the lead and gives it back, a replication engine sends operations to the peers. A
  predictor (analytics/) computes forecasts and recommendations from the statistics. The REST API (api/) serves all of
  this over HTTP from three objects of the process: the controller, the cluster node and the predictor.

  \<^bold>\<open>How the code is modelled.\<close> Every class is a record, every enumeration a datatype, every method one
  definition that takes and returns the object. A method that may raise returns a pair of an error or a value and
  the object as it is at that moment, so that what an exception leaves behind is part of the model. A
  dict is an association list in insertion order and a value (for the block maps, which could be shared, one theory has them as objects), bytes are lists of 8-bit words, Python's integers are unbounded, a
  float is a rational with every operation rounded to 53 bits (the exponent is not bounded). What the
  code takes from outside is an argument: the clock, fresh ids, SHA-256, the two
  compression packages, the iteration order of a set, the string hash, the answers of HTTP requests. A route is the
  function that FastAPI calls: it takes the parsed request and the object of the process and returns a status with a
  body, an \<^verbatim>\<open>HTTPException\<close>, the rejection of a request outside its schema, or the exception that leaves it.
  Bodies that hold an asyncio lock and do not suspend are one step; where the code suspends and that
  matters (heartbeats, the journal, background loops) the pieces are separate steps.

  \<^bold>\<open>Theories.\<close>

  \<^item> Py_Float: rounding, the arithmetic on floats, its monotonicity and exactness.
  \<^item> Prelude: errors and outcomes, dictionaries, slices, bytes, and three locales: \<open>invariant_machine\<close> (a step
    relation with an invariant), \<open>transparent_steps\<close> (background work nobody can observe) and \<open>simulation\<close> (calls
    that answer as a specification does, and so every history of them).
  \<^item> Config: core/config.py, the settings and their defaults.
  \<^item> Pattern_Removal, Compression, Deduplication: the three stages, purity/pattern_removal.py, compression.py and
    deduplication.py, each with its round trip or its abstract specification.
  \<^item> Storage_Backend: storage/backend.py as the locale \<open>storage_backend\<close>, and storage/file_backend.py over an explicit
    file system, which interprets it.
  \<^item> Purity_Engine: purity/engine.py over any backend. Inside the locale: an invariant that ties the table,
    the backend and the references of the callers together; over the file backend: no data are lost.
  \<^item> Block_Manager, Garbage_Collection, Wear_Leveling, Flash_Simulator: directflash/. The mapping invariant, that
    erasing and moving blocks is invisible (interpretations of \<open>transparent_steps\<close>), termination of the
    leveling loop, refinement of a map from addresses to bytes, and liveness of writes.
  \<^item> Volume_Manager, Snapshot_Manager: core/volume_manager.py and core/snapshot_manager.py, as interpretations of
    \<open>invariant_machine\<close>.
  \<^item> Storage_Controller: core/controller.py, and that it refines a set of volumes, each a map from offsets to bytes
    (an interpretation of \<open>simulation\<close>).
  \<^item> Block_Objects: the block maps of volumes and snapshots as mutable objects in an explicit store: no two volumes or snapshots
    share one, every history is answered as with values (a third interpretation of \<open>simulation\<close>), and snapshots never change.
  \<^item> Mediator, Failover, Replication, Active_Cluster: activecluster/. Quorums and elections, the failover state
    machine on top of them, the journal, the node that composes the three.
  \<^item> Predictor: analytics/predictor.py over the controller.
  \<^item> Base64: the two functions of the standard library the volume routes use, with their round trip.
  \<^item> Api, Volume_Api, Snapshot_Api: what the routes share, api/routes/volumes.py and snapshots.py with their schemas in
    api/schemas. Array_Api: histories of requests to both, a second interpretation of \<open>simulation\<close> on top of the first.
  \<^item> Cluster_Api, Metrics_Api, Analytics_Api: api/routes/replication.py, metrics.py and analytics.py.
  \<^item> Application: api/main.py, its start and end and the table of mounted paths.

  \<^bold>\<open>What is shown.\<close> Refinement: the REST API of volumes and snapshots, the controller, the pipeline, the flash, the
  deduplication table and the file backend behave as the maps and multisets they stand for, over any history of calls; ending and starting the
  application again inside one process is invisible in such a history. The histories of the controller and of the API leave out cloning and restoring,
  which share stored blocks without counting them (a theorem of Storage_Controller shows the consequence), and all results that go through the pipeline
  are for blocks it can represent: \<open>storable\<close> in Purity_Engine excludes blocks of 4 GiB, blocks that look like a marker, and all-zero blocks of another
  length than the configured block size. Volumes live in memory: nothing is claimed of a new process but that it has none. Invariants of every
  reachable state of volumes, snapshots, mediator, failover and journal. Functional behaviour on every branch of block
  writes, failed overwrites, collection cycles, elections, synchronous replication and tier assignment. Termination of the leveling loop and of
  chunking. Liveness: collection frees a block, writes then succeed, a reliable peer drains the journal. Round
  trips of the encodings, of snapshot restore through floating-point gigabytes, and of failover and failback. Bounds on
  the growth of stored blocks, the health figure and forecasts. And theorems that pin down where the code
  does not do what it means to: they state the behaviour exactly, as the code has it.

  \<^bold>\<open>Loops and fuel.\<close> No definition has fuel: loops are structural recursions over the list the code iterates on, with two
  exceptions. \<open>leveling_loop\<close> is a total function by a measure, the erasures the blocks have left. \<open>chunk_loop\<close> does not end
  when the block size is not positive, so it is a partial function into an option; for a positive size it
  is proved to return. The endless background loops are one definition per turn.

  \<^bold>\<open>Not modelled.\<close> The framework below the routes: matching of URLs (but for the paths of POST requests, where replication
  depends on them), parsing and rendering of JSON, the texts of rejections. The demo script demo.py, a client of the
  API that prints what it receives. Reading settings from the environment. The Go, C++, deployment and documentation parts of the repository. Infinite and
  not-a-number floats. Two writes of one node at the same moment inside the controller, whose methods
  take no lock of their own.
\<close>

end
